theory Spec2Isabelle
  imports Main "HOL-Library.Word" "HOL-Library.Sublist"
begin

section \<open>Strings of the host language\<close>

text \<open>
  A string of the program is a sequence of UTF-16 code units. A literal of the source is
  written \<open>js ''...''\<close>; every character of the source's literals lies below U+0100, so a
  character that is not ASCII is written by its code (\<open>CHR 0xEA\<close> is U+00EA) and \<open>js\<close> maps
  each character to the code unit of the same number.
\<close>

type_synonym jschar = "16 word"
type_synonym jsstring = "jschar list"

definition js :: "string \<Rightarrow> jsstring" where
  "js s = map of_char s"

text \<open>
  \<open>isWhiteSpace\<close> is the class \<open>\s\<close> of a regular expression, which is also what
  \<open>String.prototype.trim\<close> strips: the WhiteSpace and LineTerminator code points.
\<close>

definition isWhiteSpace :: "jschar \<Rightarrow> bool" where
  "isWhiteSpace c \<longleftrightarrow>
     c = 0x09 \<or> c = 0x0A \<or> c = 0x0B \<or> c = 0x0C \<or> c = 0x0D \<or> c = 0x20 \<or> c = 0xA0 \<or>
     c = 0x1680 \<or> (0x2000 \<le> c \<and> c \<le> 0x200A) \<or> c = 0x2028 \<or> c = 0x2029 \<or>
     c = 0x202F \<or> c = 0x205F \<or> c = 0x3000 \<or> c = 0xFEFF"

definition trim :: "jsstring \<Rightarrow> jsstring" where
  "trim s = rev (dropWhile isWhiteSpace (rev (dropWhile isWhiteSpace s)))"

definition isDigit :: "jschar \<Rightarrow> bool" where
  "isDigit c \<longleftrightarrow> 0x30 \<le> c \<and> c \<le> 0x39"

text \<open>\<open>stripPrefix p s\<close> is the rest of \<open>s\<close> after the literal \<open>p\<close>, when \<open>s\<close> starts with it.\<close>

fun stripPrefix :: "jsstring \<Rightarrow> jsstring \<Rightarrow> jsstring option" where
  "stripPrefix [] s = Some s"
| "stripPrefix (p # ps) [] = None"
| "stripPrefix (p # ps) (c # cs) = (if p = c then stripPrefix ps cs else None)"

text \<open>\<open>split\<close> and \<open>join\<close> with a one-unit separator, as \<open>persona.split('-')\<close> and
  \<open>.join(' ')\<close> use them.\<close>

fun split :: "jschar \<Rightarrow> jsstring \<Rightarrow> jsstring list" where
  "split sep [] = [[]]"
| "split sep (c # cs) =
     (if c = sep then [] # split sep cs
      else (case split sep cs of w # ws \<Rightarrow> (c # w) # ws | [] \<Rightarrow> [[c]]))"

fun join :: "jsstring \<Rightarrow> jsstring list \<Rightarrow> jsstring" where
  "join sep [] = []"
| "join sep [w] = w"
| "join sep (w # v # ws) = w @ sep @ join sep (v # ws)"

text \<open>The decimal numeral of a natural number, as a template renders \<open>index + 1\<close>.\<close>

fun decimal :: "nat \<Rightarrow> jsstring" where
  "decimal n = (if n < 10 then [0x30 + of_nat n] else decimal (n div 10) @ [0x30 + of_nat (n mod 10)])"

declare decimal.simps [simp del]

text \<open>The value of a run of decimal digits, as \<open>parseInt(digits, 10)\<close> reads it. The program
  holds the result in a double, which is this number exactly below \<open>2 ^ 53\<close>.\<close>

definition parseInt :: "jsstring \<Rightarrow> nat" where
  "parseInt ds = foldl (\<lambda>n d. 10 * n + unat (d - 0x30)) 0 ds"

section \<open>Thrown values\<close>

text \<open>
  What a \<open>throw\<close> carries. \<open>SyntaxError\<close> is \<open>JSON.parse\<close>'s and \<open>TypeError\<close> the engine's (a
  property read on \<open>null\<close>, an object that has no primitive value): their messages are
  never read by the program. \<open>Thrown_Error m\<close> is any other \<open>Error\<close> instance with its
  message, \<open>Thrown_value s\<close> a thrown value that is no \<open>Error\<close>, with the text \<open>String\<close> gives it.
\<close>

datatype thrown = SyntaxError | TypeError | Thrown_Error jsstring | Thrown_value jsstring

section \<open>JSON values and \<open>JSON.parse\<close>\<close>

text \<open>
  A number keeps its lexeme: its double value is not modelled. An object keeps its members
  in source order, duplicates included; a read takes the last one, as the later member of a
  JSON text overrides the earlier.
\<close>

datatype json =
    JNull
  | JBool bool
  | JNumber jsstring
  | JString jsstring
  | JArray "json list"
  | JObject "(jsstring \<times> json) list"

definition isJsonWhiteSpace :: "jschar \<Rightarrow> bool" where
  "isJsonWhiteSpace c \<longleftrightarrow> c = 0x20 \<or> c = 0x09 \<or> c = 0x0A \<or> c = 0x0D"

definition skip_ws :: "jsstring \<Rightarrow> jsstring" where
  "skip_ws = dropWhile isJsonWhiteSpace"

definition hexValue :: "jschar \<Rightarrow> nat option" where
  "hexValue c =
     (if 0x30 \<le> c \<and> c \<le> 0x39 then Some (unat (c - 0x30))
      else if 0x41 \<le> c \<and> c \<le> 0x46 then Some (unat (c - 0x41) + 10)
      else if 0x61 \<le> c \<and> c \<le> 0x66 then Some (unat (c - 0x61) + 10)
      else None)"

definition simpleEscape :: "jschar \<Rightarrow> jschar option" where
  "simpleEscape c =
     (if c = 0x22 then Some 0x22 else if c = 0x5C then Some 0x5C else if c = 0x2F then Some 0x2F
      else if c = 0x62 then Some 0x08 else if c = 0x66 then Some 0x0C
      else if c = 0x6E then Some 0x0A else if c = 0x72 then Some 0x0D
      else if c = 0x74 then Some 0x09 else None)"

text \<open>The characters of a JSON string after its opening quote, up to the closing one.\<close>

fun parse_chars :: "jsstring \<Rightarrow> jsstring \<Rightarrow> (jsstring \<times> jsstring) option" where
  "parse_chars acc [] = None"
| "parse_chars acc (c # cs) =
     (if c = 0x22 then Some (acc, cs)
      else if c = 0x5C then
        (case cs of
           [] \<Rightarrow> None
         | e # es \<Rightarrow>
             if e = 0x75 then
               (case es of
                  h1 # h2 # h3 # h4 # rest \<Rightarrow>
                    (case (hexValue h1, hexValue h2, hexValue h3, hexValue h4) of
                       (Some a, Some b, Some c, Some d) \<Rightarrow>
                         parse_chars (acc @ [of_nat (((a * 16 + b) * 16 + c) * 16 + d)]) rest
                     | _ \<Rightarrow> None)
                | _ \<Rightarrow> None)
             else
               (case simpleEscape e of
                  Some x \<Rightarrow> parse_chars (acc @ [x]) es
                | None \<Rightarrow> None))
      else if c < 0x20 then None
      else parse_chars (acc @ [c]) cs)"

text \<open>A JSON number at the head of the text: its lexeme and the rest.\<close>

definition parse_digits :: "jsstring \<Rightarrow> (jsstring \<times> jsstring) option" where
  "parse_digits s =
     (let ds = takeWhile isDigit s in if ds = [] then None else Some (ds, dropWhile isDigit s))"

definition parse_int :: "jsstring \<Rightarrow> (jsstring \<times> jsstring) option" where
  "parse_int s =
     (case s of
        [] \<Rightarrow> None
      | d # r \<Rightarrow>
          if d = 0x30 then Some ([d], r)
          else if isDigit d then Some (d # takeWhile isDigit r, dropWhile isDigit r)
          else None)"

definition parse_frac :: "jsstring \<Rightarrow> (jsstring \<times> jsstring) option" where
  "parse_frac s =
     (case s of
        c # r \<Rightarrow>
          if c = 0x2E then
            (case parse_digits r of Some (ds, r') \<Rightarrow> Some (c # ds, r') | None \<Rightarrow> None)
          else Some ([], s)
      | [] \<Rightarrow> Some ([], s))"

definition parse_exp :: "jsstring \<Rightarrow> (jsstring \<times> jsstring) option" where
  "parse_exp s =
     (case s of
        c # r \<Rightarrow>
          if c = 0x65 \<or> c = 0x45 then
            (case r of
               g # r' \<Rightarrow>
                 if g = 0x2B \<or> g = 0x2D then
                   (case parse_digits r' of Some (ds, r'') \<Rightarrow> Some (c # g # ds, r'') | None \<Rightarrow> None)
                 else
                   (case parse_digits r of Some (ds, r'') \<Rightarrow> Some (c # ds, r'') | None \<Rightarrow> None)
             | [] \<Rightarrow> None)
          else Some ([], s)
      | [] \<Rightarrow> Some ([], s))"

definition parse_number :: "jsstring \<Rightarrow> (jsstring \<times> jsstring) option" where
  "parse_number s =
     (let (sign, s1) = (case s of c # r \<Rightarrow> if c = 0x2D then ([c], r) else ([], s) | [] \<Rightarrow> ([], s))
      in case parse_int s1 of
           None \<Rightarrow> None
         | Some (i, s2) \<Rightarrow>
             (case parse_frac s2 of
                None \<Rightarrow> None
              | Some (f, s3) \<Rightarrow>
                  (case parse_exp s3 of
                     None \<Rightarrow> None
                   | Some (e, s4) \<Rightarrow> Some (sign @ i @ f @ e, s4))))"

text \<open>
  The recursive descent over values. The first argument bounds the number of nested calls;
  \<open>JSON_parse\<close> starts it above what a text of that length can use (a call either reads a
  character or is followed by a call that does), so \<open>None\<close> is a syntax error.
  \<open>parse_elements\<close> and \<open>parse_members\<close> start at the first element or member, after the
  white space, and end after the closing bracket.
\<close>

fun parse_value :: "nat \<Rightarrow> jsstring \<Rightarrow> (json \<times> jsstring) option"
  and parse_elements :: "nat \<Rightarrow> json list \<Rightarrow> jsstring \<Rightarrow> (json \<times> jsstring) option"
  and parse_members :: "nat \<Rightarrow> (jsstring \<times> json) list \<Rightarrow> jsstring \<Rightarrow> (json \<times> jsstring) option"
where
  "parse_value 0 s = None"
| "parse_value (Suc n) s =
     (case s of
        [] \<Rightarrow> None
      | c # r \<Rightarrow>
          if c = 0x7B then
            (case skip_ws r of
               [] \<Rightarrow> None
             | c' # r' \<Rightarrow> if c' = 0x7D then Some (JObject [], r') else parse_members n [] (c' # r'))
          else if c = 0x5B then
            (case skip_ws r of
               [] \<Rightarrow> None
             | c' # r' \<Rightarrow> if c' = 0x5D then Some (JArray [], r') else parse_elements n [] (c' # r'))
          else if c = 0x22 then
            (case parse_chars [] r of Some (str, r') \<Rightarrow> Some (JString str, r') | None \<Rightarrow> None)
          else
            (case stripPrefix (js ''true'') s of
               Some r' \<Rightarrow> Some (JBool True, r')
             | None \<Rightarrow>
                 (case stripPrefix (js ''false'') s of
                    Some r' \<Rightarrow> Some (JBool False, r')
                  | None \<Rightarrow>
                      (case stripPrefix (js ''null'') s of
                         Some r' \<Rightarrow> Some (JNull, r')
                       | None \<Rightarrow>
                           (case parse_number s of
                              Some (l, r') \<Rightarrow> Some (JNumber l, r')
                            | None \<Rightarrow> None)))))"
| "parse_elements 0 acc s = None"
| "parse_elements (Suc n) acc s =
     (case parse_value n s of
        None \<Rightarrow> None
      | Some (v, r) \<Rightarrow>
          (case skip_ws r of
             [] \<Rightarrow> None
           | c # r' \<Rightarrow>
               if c = 0x2C then parse_elements n (acc @ [v]) (skip_ws r')
               else if c = 0x5D then Some (JArray (acc @ [v]), r')
               else None))"
| "parse_members 0 acc s = None"
| "parse_members (Suc n) acc s =
     (case s of
        [] \<Rightarrow> None
      | q # r \<Rightarrow>
          if q = 0x22 then
            (case parse_chars [] r of
               None \<Rightarrow> None
             | Some (key, r1) \<Rightarrow>
                 (case skip_ws r1 of
                    [] \<Rightarrow> None
                  | c # r2 \<Rightarrow>
                      if c = 0x3A then
                        (case parse_value n (skip_ws r2) of
                           None \<Rightarrow> None
                         | Some (v, r3) \<Rightarrow>
                             (case skip_ws r3 of
                                [] \<Rightarrow> None
                              | d # r4 \<Rightarrow>
                                  if d = 0x2C then parse_members n (acc @ [(key, v)]) (skip_ws r4)
                                  else if d = 0x7D then Some (JObject (acc @ [(key, v)]), r4)
                                  else None))
                      else None))
          else None)"

definition JSON_parse :: "jsstring \<Rightarrow> thrown + json" where
  "JSON_parse s =
     (case parse_value (Suc (Suc (length s + length s))) (skip_ws s) of
        None \<Rightarrow> Inl SyntaxError
      | Some (v, r) \<Rightarrow> if skip_ws r = [] then Inr v else Inl SyntaxError)"

section \<open>Builtins taken as parameters\<close>

text \<open>
  The environment holds what the program calls and this development does not define:
  the engine's number conversions (a double is not modelled), its base64 and URI
  builtins, \<open>String.prototype.toUpperCase\<close>, the helper \<open>base64ToString\<close> of the
  repository's \<open>utils\<close> module, and the text a template renders for a property that an
  object literal inherits from \<open>Object.prototype\<close> (\<open>None\<close> for a name it does not define).
  Every theorem below holds for every environment.
\<close>

record env =
  Number_truthy :: "jsstring \<Rightarrow> bool"
  Number_toString :: "jsstring \<Rightarrow> jsstring"
  atob :: "jsstring \<Rightarrow> thrown + jsstring"
  escape :: "jsstring \<Rightarrow> jsstring"
  decodeURIComponent :: "jsstring \<Rightarrow> thrown + jsstring"
  base64ToString :: "json \<Rightarrow> thrown + jsstring"
  toUpperCase :: "jsstring \<Rightarrow> jsstring"
  Object_prototype :: "jsstring \<Rightarrow> jsstring option"

section \<open>Values read from a parsed payload\<close>

text \<open>
  \<open>Get v k\<close> is the read \<open>v.k\<close> for the two names the program reads, \<open>summary_base64\<close> and
  \<open>summary\<close>: a \<open>TypeError\<close> on \<open>null\<close>, the last member of that name on an object, and
  \<open>undefined\<close> (\<open>None\<close>) on everything else, whose prototypes define neither name.
\<close>

fun Get :: "json \<Rightarrow> jsstring \<Rightarrow> thrown + json option" where
  "Get JNull k = Inl TypeError"
| "Get (JObject ms) k = Inr (map_of (rev ms) k)"
| "Get v k = Inr None"

text \<open>\<open>truthy\<close> is \<open>ToBoolean\<close>.\<close>

fun truthy :: "env \<Rightarrow> json option \<Rightarrow> bool" where
  "truthy E None = False"
| "truthy E (Some JNull) = False"
| "truthy E (Some (JBool b)) = b"
| "truthy E (Some (JNumber l)) = Number_truthy E l"
| "truthy E (Some (JString s)) = (s \<noteq> [])"
| "truthy E (Some (JArray xs)) = True"
| "truthy E (Some (JObject ms)) = True"

text \<open>
  \<open>ToString\<close>, as a template's \<open>${...}\<close> and a builtin's string parameter apply it. An
  array joins its elements with commas, \<open>null\<close> elements as the empty string. An object
  parsed from JSON has no callable member: when it has a member named \<open>toString\<close> that member
  hides \<open>Object.prototype.toString\<close>, \<open>valueOf\<close> returns the object itself, and the
  conversion throws a \<open>TypeError\<close>; otherwise the inherited \<open>toString\<close> answers.
\<close>

fun ToString :: "env \<Rightarrow> json \<Rightarrow> thrown + jsstring"
  and ToString_elements :: "env \<Rightarrow> json list \<Rightarrow> thrown + jsstring list"
where
  "ToString E JNull = Inr (js ''null'')"
| "ToString E (JBool b) = Inr (if b then js ''true'' else js ''false'')"
| "ToString E (JNumber l) = Inr (Number_toString E l)"
| "ToString E (JString s) = Inr s"
| "ToString E (JArray xs) =
     (case ToString_elements E xs of Inl e \<Rightarrow> Inl e | Inr ss \<Rightarrow> Inr (join (js '','') ss))"
| "ToString E (JObject ms) =
     (if js ''toString'' \<in> fst ` set ms then Inl TypeError else Inr (js ''[object Object]''))"
| "ToString_elements E [] = Inr []"
| "ToString_elements E (x # xs) =
     (case (if x = JNull then Inr [] else ToString E x) of
        Inl e \<Rightarrow> Inl e
      | Inr s \<Rightarrow> (case ToString_elements E xs of Inl e \<Rightarrow> Inl e | Inr ss \<Rightarrow> Inr (s # ss)))"

section \<open>The data model\<close>

datatype AnalysisType =
  T_youtube | T_github | T_spreadsheet | T_file | T_search | T_url | T_video | T_workflow

datatype AnalysisPersona = P_assistant | P_analyst

record Analysis =
  a_id :: jsstring
  a_title :: jsstring
  a_source :: jsstring
  a_summary :: jsstring
  a_type :: AnalysisType
  a_persona :: AnalysisPersona
  a_previewData :: "jsstring option"
  a_tags :: "jsstring list option"

text \<open>The string a type tag is, as a template renders \<open>analysis.type\<close>.\<close>

fun typeName :: "AnalysisType \<Rightarrow> jsstring" where
  "typeName T_youtube = js ''youtube''"
| "typeName T_github = js ''github''"
| "typeName T_spreadsheet = js ''spreadsheet''"
| "typeName T_file = js ''file''"
| "typeName T_search = js ''search''"
| "typeName T_url = js ''url''"
| "typeName T_video = js ''video''"
| "typeName T_workflow = js ''workflow''"

section \<open>The System Instruction Composer\<close>

subsection \<open>The literals of the source\<close>

definition persona_tutor :: jsstring where
  "persona_tutor = js (
     ''Voc'' @ [CHR 0xEA] @ '' atua como um Tutor. Seu objetivo principal '' @ [CHR 0xE9] @ '' ensinar o usu'' @ [CHR 0xE1] @ ''rio sobre o conte'' @ [CHR 0xFA] @ ''do fornecido de forma clara, paciente e did'' @ [CHR 0xE1] @ ''tica. Use analogias, fa'' @ [CHR 0xE7] @ ''a perguntas para verificar a compreens'' @ [CHR 0xE3] @ ''o e divida t'' @ [CHR 0xF3] @ ''picos complexos em partes menores. Seu tom '' @ [CHR 0xE9] @ '' encorajador e solid'' @ [CHR 0xE1] @ ''rio.'')"

definition persona_coding_engineer :: jsstring where
  "persona_coding_engineer = js (
     ''Voc'' @ [CHR 0xEA] @ '' atua como um Engenheiro de Codifica'' @ [CHR 0xE7, CHR 0xE3] @ ''o s'' @ [CHR 0xEA] @ ''nior. Suas respostas devem ser t'' @ [CHR 0xE9] @ ''cnicas, precisas e focadas em c'' @ [CHR 0xF3] @ ''digo, algoritmos e melhores pr'' @ [CHR 0xE1] @ ''ticas de engenharia de software. Quando apropriado, forne'' @ [CHR 0xE7] @ ''a exemplos de c'' @ [CHR 0xF3] @ ''digo. Seja direto e use a terminologia correta.'')"

definition persona_direct :: jsstring where
  "persona_direct = js (
     ''Voc'' @ [CHR 0xEA] @ '' '' @ [CHR 0xE9] @ '' um assistente direto e conciso. Suas respostas devem ser curtas, objetivas e ir direto ao ponto. Evite formalidades, pre'' @ [CHR 0xE2] @ ''mbulos e explica'' @ [CHR 0xE7, CHR 0xF5] @ ''es desnecessariamente longas. A velocidade e a clareza s'' @ [CHR 0xE3] @ ''o suas principais prioridades.'')"

definition persona_data_analyst :: jsstring where
  "persona_data_analyst = js (
     ''Voc'' @ [CHR 0xEA] @ '' atua como um Analista de Dados s'' @ [CHR 0xEA] @ ''nior e parceiro de neg'' @ [CHR 0xF3] @ ''cios. Sua prioridade m'' @ [CHR 0xE1] @ ''xima '' @ [CHR 0xE9] @ '' a honestidade e a precis'' @ [CHR 0xE3] @ ''o dos dados. Voc'' @ [CHR 0xEA] @ '' NUNCA deve fornecer informa'' @ [CHR 0xE7, CHR 0xF5] @ ''es imprecisas ou especulativas. Se uma resposta n'' @ [CHR 0xE3] @ ''o pode ser apoiada pelos dados fornecidos, afirme isso claramente. Seu objetivo '' @ [CHR 0xE9] @ '' ajudar o usu'' @ [CHR 0xE1] @ ''rio a tomar decis'' @ [CHR 0xF5] @ ''es baseadas em fatos, identificar tend'' @ [CHR 0xEA] @ ''ncias, resolver problemas de neg'' @ [CHR 0xF3] @ ''cios e ser um consultor de confian'' @ [CHR 0xE7] @ ''a, sempre com base nos dados reais dispon'' @ [CHR 0xED] @ ''veis.'')"

definition TOOL_INSTRUCTIONS :: jsstring where
  "TOOL_INSTRUCTIONS = js (
     ''\<newline>'' @
     ''\<newline>'' @
     ''---\<newline>'' @
     ''\<newline>'' @
     ''**Ferramentas Dispon'' @ [CHR 0xED] @ ''veis:**\<newline>'' @
     ''\<newline>'' @
     ''1.  **Pesquisa Google:** Voc'' @ [CHR 0xEA] @ '' PODE e DEVE usar a Pesquisa Google para encontrar informa'' @ [CHR 0xE7, CHR 0xF5] @ ''es atualizadas, verificar fatos ou enriquecer as respostas quando o conhecimento fornecido for insuficiente.\<newline>'' @
     ''2.  **Gera'' @ [CHR 0xE7, CHR 0xE3] @ ''o de Imagem:** Para criar uma ou mais imagens, voc'' @ [CHR 0xEA] @ '' DEVE responder com texto introdut'' @ [CHR 0xF3] @ ''rio seguido do comando no seguinte formato:\<newline>'' @
     ''    '' @ [CHR 0x60] @ ''[generate_images(N): '' @ [CHR 0x27] @ ''Uma descri'' @ [CHR 0xE7, CHR 0xE3] @ ''o detalhada em ingl'' @ [CHR 0xEA] @ ''s da imagem a ser gerada'' @ [CHR 0x27] @ '']'' @ [CHR 0x60] @ ''\<newline>'' @
     ''    Onde '' @ [CHR 0x27] @ ''N'' @ [CHR 0x27] @ '' '' @ [CHR 0xE9] @ '' o n'' @ [CHR 0xFA] @ ''mero de imagens a serem geradas.\<newline>'' @
     ''    Exemplo 1: Se o usu'' @ [CHR 0xE1] @ ''rio pedir '' @ [CHR 0x22] @ ''desenhe um gato de chap'' @ [CHR 0xE9] @ ''u'' @ [CHR 0x22] @ '', sua resposta pode ser '' @ [CHR 0x60] @ ''Claro, aqui est'' @ [CHR 0xE1] @ '': [generate_images(1): '' @ [CHR 0x27] @ ''A photorealistic image of a cat wearing a small wizard hat'' @ [CHR 0x27] @ '']'' @ [CHR 0x60] @ ''.\<newline>'' @
     ''    Exemplo 2: Se o usu'' @ [CHR 0xE1] @ ''rio pedir '' @ [CHR 0x22] @ ''crie 3 rob'' @ [CHR 0xF4] @ ''s diferentes'' @ [CHR 0x22] @ '', sua resposta pode ser '' @ [CHR 0x60] @ ''Gerando 3 rob'' @ [CHR 0xF4] @ ''s para voc'' @ [CHR 0xEA] @ '': [generate_images(3): '' @ [CHR 0x27] @ ''Three different styles of friendly robots, futuristic'' @ [CHR 0x27] @ '']'' @ [CHR 0x60] @ ''.\<newline>'' @
     ''    A descri'' @ [CHR 0xE7, CHR 0xE3] @ ''o para a imagem deve ser sempre em INGL'' @ [CHR 0xCA] @ ''S para melhores resultados.\<newline>'' @
     ''3.  **Edi'' @ [CHR 0xE7, CHR 0xE3] @ ''o de Imagem:** Para editar a imagem gerada mais recentemente, voc'' @ [CHR 0xEA] @ '' DEVE responder com texto introdut'' @ [CHR 0xF3] @ ''rio seguido do comando no seguinte formato:\<newline>'' @
     ''    '' @ [CHR 0x60] @ ''[edit_image: '' @ [CHR 0x27] @ ''Uma instru'' @ [CHR 0xE7, CHR 0xE3] @ ''o clara em ingl'' @ [CHR 0xEA] @ ''s sobre como modificar a imagem'' @ [CHR 0x27] @ '']'' @ [CHR 0x60] @ ''\<newline>'' @
     ''    Exemplo: Se o usu'' @ [CHR 0xE1] @ ''rio disser '' @ [CHR 0x22] @ ''agora, adicione um fundo de gal'' @ [CHR 0xE1] @ ''xia'' @ [CHR 0x22] @ '', sua resposta pode ser '' @ [CHR 0x60, CHR 0xD3] @ ''tima ideia! [edit_image: '' @ [CHR 0x27] @ ''add a galaxy background to the image'' @ [CHR 0x27] @ '']'' @ [CHR 0x60] @ ''.\<newline>'' @
     ''    A instru'' @ [CHR 0xE7, CHR 0xE3] @ ''o de edi'' @ [CHR 0xE7, CHR 0xE3] @ ''o tamb'' @ [CHR 0xE9] @ ''m deve ser em INGL'' @ [CHR 0xCA] @ ''S.'')"

definition detailInstruction :: jsstring where
  "detailInstruction = js (
     ''\<newline>'' @
     ''Ao responder, n'' @ [CHR 0xE3] @ ''o se limite a resumos superficiais. Mergulhe fundo nos detalhes do conte'' @ [CHR 0xFA] @ ''do. Elabore os pontos-chave, explique conceitos complexos com clareza e, sempre que poss'' @ [CHR 0xED] @ ''vel, use exemplos espec'' @ [CHR 0xED] @ ''ficos do material de origem para ilustrar suas explica'' @ [CHR 0xE7, CHR 0xF5] @ ''es. Seu objetivo '' @ [CHR 0xE9] @ '' demonstrar um dom'' @ [CHR 0xED] @ ''nio completo e detalhado do conhecimento fornecido.'')"

definition enrichmentInstruction :: jsstring where
  "enrichmentInstruction = js (
     ''Este resumo '' @ [CHR 0xE9] @ '' sua base de conhecimento principal. Use-o como ponto de partida para todas as respostas. No entanto, voc'' @ [CHR 0xEA] @ '' tem a capacidade de pesquisar na internet usando o Google. Use essa ferramenta para complementar as informa'' @ [CHR 0xE7, CHR 0xF5] @ ''es, fornecer contexto atualizado, comparar o conte'' @ [CHR 0xFA] @ ''do com outras fontes ou responder a perguntas que v'' @ [CHR 0xE3] @ ''o al'' @ [CHR 0xE9] @ ''m do resumo. Seu objetivo '' @ [CHR 0xE9] @ '' ser um especialista completo sobre o t'' @ [CHR 0xF3] @ ''pico, n'' @ [CHR 0xE3] @ ''o apenas um repetidor do conte'' @ [CHR 0xFA] @ ''do fornecido.'')"

definition analyst_head :: jsstring where
  "analyst_head = js (
     ''Voc'' @ [CHR 0xEA] @ '' '' @ [CHR 0xE9] @ '' um assistente de voz e analista de dados especialista. Seu foco '' @ [CHR 0xE9] @ '' o conte'' @ [CHR 0xFA] @ ''do da seguinte planilha/documento: '' @ [CHR 0x22])"

definition analyst_mid :: jsstring where
  "analyst_mid = js (
     [CHR 0x22] @ ''.\<newline>'' @
     ''Voc'' @ [CHR 0xEA] @ '' j'' @ [CHR 0xE1] @ '' realizou uma an'' @ [CHR 0xE1] @ ''lise preliminar e tem o seguinte resumo como seu conhecimento base.\<newline>'' @
     ''--- IN'' @ [CHR 0xCD] @ ''CIO DO CONHECIMENTO ---\<newline>'')"

definition analyst_tail :: jsstring where
  "analyst_tail = js (
     ''\<newline>'' @
     ''--- FIM DO CONHECIMENTO ---\<newline>'' @
     ''Seu papel '' @ [CHR 0xE9] @ '':\<newline>'' @
     ''1. Responder perguntas sobre os dados usando o conhecimento acima. Seja preciso e quantitativo sempre que poss'' @ [CHR 0xED] @ ''vel.\<newline>'' @
     ''2. Manter um tom de analista: claro, objetivo e focado nos dados. Fale em portugu'' @ [CHR 0xEA] @ ''s do Brasil.\<newline>'' @
     ''3. Sua principal fonte de verdade s'' @ [CHR 0xE3] @ ''o os dados fornecidos. No entanto, voc'' @ [CHR 0xEA] @ '' PODE e DEVE usar a Pesquisa Google para enriquecer sua an'' @ [CHR 0xE1] @ ''lise, comparar os dados com benchmarks externos ou responder a perguntas que exigem contexto adicional. Sempre deixe claro quando uma informa'' @ [CHR 0xE7, CHR 0xE3] @ ''o vem dos dados fornecidos versus de uma pesquisa externa.\<newline>'' @
     ''4. N'' @ [CHR 0xE3] @ ''o invente dados; sua prioridade '' @ [CHR 0xE9] @ '' a precis'' @ [CHR 0xE3] @ ''o.'')"

definition github_head :: jsstring where
  "github_head = js (
     ''Voc'' @ [CHR 0xEA] @ '' '' @ [CHR 0xE9] @ '' um assistente de voz e especialista no reposit'' @ [CHR 0xF3] @ ''rio do GitHub: '' @ [CHR 0x22])"

definition github_mid :: jsstring where
  "github_mid = js (
     [CHR 0x22] @ ''.\<newline>'' @
     ''Voc'' @ [CHR 0xEA] @ '' j'' @ [CHR 0xE1] @ '' analisou o README e a estrutura de arquivos do projeto. Seu conhecimento base '' @ [CHR 0xE9] @ '' o seguinte resumo:\<newline>'' @
     ''--- IN'' @ [CHR 0xCD] @ ''CIO DO CONHECIMENTO ---\<newline>'')"

definition github_tail :: jsstring where
  "github_tail = js (
     ''\<newline>'' @
     ''--- FIM DO CONHECIMENTO ---\<newline>'' @
     ''Seu papel '' @ [CHR 0xE9] @ '':\<newline>'' @
     ''1. Responder perguntas sobre o prop'' @ [CHR 0xF3] @ ''sito, tecnologia, estrutura e como usar o reposit'' @ [CHR 0xF3] @ ''rio.\<newline>'' @
     ''2. Manter um tom t'' @ [CHR 0xE9] @ ''cnico e prestativo, como um engenheiro de software s'' @ [CHR 0xEA] @ ''nior, falando em portugu'' @ [CHR 0xEA] @ ''s do Brasil.\<newline>'' @
     ''3. '')"

definition video_head :: jsstring where
  "video_head = js (
     ''Voc'' @ [CHR 0xEA] @ '' '' @ [CHR 0xE9] @ '' um assistente de voz inteligente especializado no v'' @ [CHR 0xED] @ ''deo: '' @ [CHR 0x22])"

definition video_mid :: jsstring where
  "video_mid = js (
     [CHR 0x22] @ ''.\<newline>'' @
     ''Voc'' @ [CHR 0xEA] @ '' j'' @ [CHR 0xE1] @ '' assistiu ao v'' @ [CHR 0xED] @ ''deo e analisou tanto o '' @ [CHR 0xE1] @ ''udio quanto os elementos visuais. Seu conhecimento base '' @ [CHR 0xE9] @ '' o seguinte resumo:\<newline>'' @
     ''--- IN'' @ [CHR 0xCD] @ ''CIO DO CONHECIMENTO ---\<newline>'')"

definition video_tail :: jsstring where
  "video_tail = js (
     ''\<newline>'' @
     ''--- FIM DO CONHECIMENTO ---\<newline>'' @
     ''Seu papel '' @ [CHR 0xE9] @ '':\<newline>'' @
     ''1. Responder a perguntas sobre o v'' @ [CHR 0xED] @ ''deo. Isso inclui o conte'' @ [CHR 0xFA] @ ''do falado (t'' @ [CHR 0xF3] @ ''picos, ideias) E detalhes visuais (cores, pessoas, objetos, texto na tela, a'' @ [CHR 0xE7, CHR 0xF5] @ ''es).\<newline>'' @
     ''2. Manter um tom conversacional e natural em portugu'' @ [CHR 0xEA] @ ''s do Brasil.\<newline>'' @
     ''3. '')"

definition workflowSummary_error :: jsstring where
  "workflowSummary_error = js (
     ''Ocorreu um erro ao processar o resumo do fluxo de trabalho.'')"

definition workflowSummary_empty :: jsstring where
  "workflowSummary_empty = js (
     ''O resumo do fluxo de trabalho estava vazio.'')"

definition workflow_head :: jsstring where
  "workflow_head = js (
     ''Voc'' @ [CHR 0xEA] @ '' '' @ [CHR 0xE9] @ '' um assistente de voz especialista no fluxo de trabalho n8n: '' @ [CHR 0x22])"

definition workflow_mid :: jsstring where
  "workflow_mid = js (
     [CHR 0x22] @ ''.\<newline>'' @
     ''Voc'' @ [CHR 0xEA] @ '' j'' @ [CHR 0xE1] @ '' analisou um v'' @ [CHR 0xED] @ ''deo sobre ele e seu conhecimento base '' @ [CHR 0xE9] @ '' o seguinte resumo:\<newline>'' @
     ''--- IN'' @ [CHR 0xCD] @ ''CIO DO CONHECIMENTO ---\<newline>'')"

definition workflow_tail :: jsstring where
  "workflow_tail = js (
     ''\<newline>'' @
     ''--- FIM DO CONHECIMENTO ---\<newline>'' @
     ''Seu papel '' @ [CHR 0xE9] @ '':\<newline>'' @
     ''1. Responder a perguntas sobre o prop'' @ [CHR 0xF3] @ ''sito, os n'' @ [CHR 0xF3] @ ''s e a l'' @ [CHR 0xF3] @ ''gica do fluxo de trabalho.\<newline>'' @
     ''2. Manter um tom conversacional e natural em portugu'' @ [CHR 0xEA] @ ''s do Brasil.\<newline>'' @
     ''3. Se o usu'' @ [CHR 0xE1] @ ''rio pedir o JSON do workflow, informe que ele pode ser copiado do painel de an'' @ [CHR 0xE1] @ ''lise.\<newline>'' @
     ''4. '')"

definition default_head :: jsstring where
  "default_head = js (
     ''Voc'' @ [CHR 0xEA] @ '' '' @ [CHR 0xE9] @ '' um assistente de voz inteligente especializado no seguinte conte'' @ [CHR 0xFA] @ ''do: '' @ [CHR 0x22])"

definition default_mid :: jsstring where
  "default_mid = js (
     [CHR 0x22] @ ''.\<newline>'' @
     ''Voc'' @ [CHR 0xEA] @ '' j'' @ [CHR 0xE1] @ '' analisou o conte'' @ [CHR 0xFA] @ ''do e tem o seguinte resumo detalhado como seu conhecimento.\<newline>'' @
     ''--- IN'' @ [CHR 0xCD] @ ''CIO DO CONHECIMENTO ---\<newline>'')"

definition default_tail :: jsstring where
  "default_tail = js (
     ''\<newline>'' @
     ''--- FIM DO CONHECIMENTO ---\<newline>'' @
     ''Seu papel '' @ [CHR 0xE9] @ '':\<newline>'' @
     ''1. Responder perguntas sobre o conte'' @ [CHR 0xFA] @ ''do usando o conhecimento acima.\<newline>'' @
     ''2. Manter um tom conversacional e natural em portugu'' @ [CHR 0xEA] @ ''s do Brasil.\<newline>'' @
     ''3. '')"

definition generic_instruction :: jsstring where
  "generic_instruction = js (
     ''Voc'' @ [CHR 0xEA] @ '' '' @ [CHR 0xE9] @ '' um assistente de voz avan'' @ [CHR 0xE7] @ ''ado que fala portugu'' @ [CHR 0xEA] @ ''s do Brasil. Sua principal diretriz '' @ [CHR 0xE9] @ '' a honestidade e a precis'' @ [CHR 0xE3] @ ''o factual absoluta. Ao interagir:\<newline>'' @
     ''1.  **Priorize a Verdade:** Sempre forne'' @ [CHR 0xE7] @ ''a informa'' @ [CHR 0xE7, CHR 0xF5] @ ''es corretas e atualizadas. Para qualquer t'' @ [CHR 0xF3] @ ''pico que exija dados do mundo real, eventos recentes ou fatos espec'' @ [CHR 0xED] @ ''ficos, voc'' @ [CHR 0xEA] @ '' DEVE usar a ferramenta de busca do Google para verificar e fundamentar suas respostas. N'' @ [CHR 0xE3] @ ''o confie apenas em seu conhecimento de treinamento.\<newline>'' @
     ''2.  **Seja Honesto e Corretivo:** Se o usu'' @ [CHR 0xE1] @ ''rio afirmar algo que seja factualmente incorreto, sua fun'' @ [CHR 0xE7, CHR 0xE3] @ ''o '' @ [CHR 0xE9] @ '' corrigi-lo de forma educada, mas direta. N'' @ [CHR 0xE3] @ ''o concorde com informa'' @ [CHR 0xE7, CHR 0xF5] @ ''es erradas para ser agrad'' @ [CHR 0xE1] @ ''vel. Sua lealdade '' @ [CHR 0xE9] @ '' com os fatos.\<newline>'' @
     ''3.  **Pesquisa Avan'' @ [CHR 0xE7] @ ''ada:** Ao usar a busca, n'' @ [CHR 0xE3] @ ''o se limite a uma ou duas fontes. Realize uma pesquisa abrangente, sintetizando informa'' @ [CHR 0xE7, CHR 0xF5] @ ''es de m'' @ [CHR 0xFA] @ ''ltiplos resultados confi'' @ [CHR 0xE1] @ ''veis para construir uma resposta completa, precisa e com nuances.\<newline>'' @
     ''4.  **Seja um Assistente de Confian'' @ [CHR 0xE7] @ ''a:** Seu objetivo '' @ [CHR 0xE9] @ '' ser uma fonte de informa'' @ [CHR 0xE7, CHR 0xE3] @ ''o confi'' @ [CHR 0xE1] @ ''vel. A precis'' @ [CHR 0xE3] @ ''o e a honestidade s'' @ [CHR 0xE3] @ ''o mais importantes do que a concord'' @ [CHR 0xE2] @ ''ncia.'')"

definition generic_persona_lead :: jsstring where
  "generic_persona_lead = js (
     ''Use sua persona para conversas gerais. '')"

definition multi_header :: jsstring where
  "multi_header = js (
     ''Voc'' @ [CHR 0xEA] @ '' '' @ [CHR 0xE9] @ '' um assistente de voz especialista com conhecimento de m'' @ [CHR 0xFA] @ ''ltiplas fontes. Abaixo est'' @ [CHR 0xE3] @ ''o os resumos dos conte'' @ [CHR 0xFA] @ ''dos que voc'' @ [CHR 0xEA] @ '' analisou. Responda '' @ [CHR 0xE0] @ ''s perguntas com base estritamente nessas informa'' @ [CHR 0xE7, CHR 0xF5] @ ''es. Ao responder, se poss'' @ [CHR 0xED] @ ''vel, mencione a fonte (t'' @ [CHR 0xED] @ ''tulo) da qual voc'' @ [CHR 0xEA] @ '' est'' @ [CHR 0xE1] @ '' extraindo a informa'' @ [CHR 0xE7, CHR 0xE3] @ ''o.\<newline>'' @
     ''\<newline>'')"

definition contentSummary_unavailable :: jsstring where
  "contentSummary_unavailable = js (
     ''Resumo do fluxo de trabalho indispon'' @ [CHR 0xED] @ ''vel.'')"

definition contentSummary_error :: jsstring where
  "contentSummary_error = js (
     ''Erro ao processar o resumo do fluxo de trabalho.'')"

definition multi_footer :: jsstring where
  "multi_footer = js (
     ''Sua base de conhecimento principal s'' @ [CHR 0xE3] @ ''o as fontes listadas acima. Fale em portugu'' @ [CHR 0xEA] @ ''s do Brasil.\<newline>'' @
     ''Voc'' @ [CHR 0xEA] @ '' deve usar a Pesquisa Google para enriquecer suas respostas, encontrar informa'' @ [CHR 0xE7, CHR 0xF5] @ ''es mais recentes, ou comparar e contrastar os dados das fontes com o conhecimento geral da web. Deixe claro quando a informa'' @ [CHR 0xE7, CHR 0xE3] @ ''o vem de uma fonte espec'' @ [CHR 0xED] @ ''fica ou de uma pesquisa externa.\<newline>'' @
     ''Ao responder, mergulhe fundo nos detalhes de cada fonte relevante para fornecer a resposta mais completa poss'' @ [CHR 0xED] @ ''vel. Se a pergunta abranger m'' @ [CHR 0xFA] @ ''ltiplos contextos, compare e contraste as informa'' @ [CHR 0xE7, CHR 0xF5] @ ''es entre as fontes para oferecer uma vis'' @ [CHR 0xE3] @ ''o mais rica e integrada.'')"

definition personaInstructions :: "(jsstring \<times> jsstring) list" where
  "personaInstructions =
     [(js ''tutor'', persona_tutor),
      (js ''coding-engineer'', persona_coding_engineer),
      (js ''direct'', persona_direct),
      (js ''data-analyst'', persona_data_analyst)]"

subsection \<open>getSingleSystemInstruction\<close>

text \<open>
  The \<open>try\<close> block of the workflow branch: the value \<open>workflowSummary\<close> holds after it.
  Whatever is thrown inside (by \<open>JSON.parse\<close>, by a read on \<open>null\<close>, by the decoding chain
  \<open>decodeURIComponent(escape(atob(...)))\<close> or by the conversion of its argument to a string)
  is caught and leaves the initial error text. \<open>parsed.summary\<close> is assigned as it is,
  string or not.
\<close>

definition decode_summary_base64 :: "env \<Rightarrow> json \<Rightarrow> thrown + jsstring" where
  "decode_summary_base64 E v =
     (case ToString E v of
        Inl e \<Rightarrow> Inl e
      | Inr s \<Rightarrow>
          (case atob E s of
             Inl e \<Rightarrow> Inl e
           | Inr b \<Rightarrow> decodeURIComponent E (escape E b)))"

definition workflowSummary :: "env \<Rightarrow> jsstring \<Rightarrow> json" where
  "workflowSummary E summary =
     (case JSON_parse summary of
        Inl e \<Rightarrow> JString workflowSummary_error
      | Inr parsed \<Rightarrow>
          (case Get parsed (js ''summary_base64'') of
             Inl e \<Rightarrow> JString workflowSummary_error
           | Inr b64 \<Rightarrow>
               if truthy E b64 then
                 (case decode_summary_base64 E (the b64) of
                    Inl e \<Rightarrow> JString workflowSummary_error
                  | Inr s \<Rightarrow> JString s)
               else
                 (case Get parsed (js ''summary'') of
                    Inl e \<Rightarrow> JString workflowSummary_error
                  | Inr sm \<Rightarrow> if truthy E sm then the sm else JString workflowSummary_empty)))"

definition getSingleSystemInstruction :: "env \<Rightarrow> Analysis \<Rightarrow> thrown + jsstring" where
  "getSingleSystemInstruction E analysis =
     (let title = a_title analysis; summary = a_summary analysis;
          persona = a_persona analysis; type = a_type analysis
      in
        if persona = P_analyst then
          Inr (analyst_head @ title @ analyst_mid @ summary @ analyst_tail @ detailInstruction)
        else if type = T_github then
          Inr (github_head @ title @ github_mid @ summary @ github_tail @
               enrichmentInstruction @ detailInstruction)
        else if type = T_youtube \<or> type = T_video then
          Inr (video_head @ title @ video_mid @ summary @ video_tail @
               enrichmentInstruction @ detailInstruction)
        else if type = T_workflow then
          (case ToString E (workflowSummary E summary) of
             Inl e \<Rightarrow> Inl e
           | Inr shown \<Rightarrow>
               Inr (workflow_head @ title @ workflow_mid @ shown @ workflow_tail @
                    enrichmentInstruction @ detailInstruction))
        else
          Inr (default_head @ title @ default_mid @ summary @ default_tail @
               enrichmentInstruction @ detailInstruction))"

subsection \<open>generateCompositeSystemInstruction\<close>

text \<open>\<open>personaInstructions[persona]\<close>: the table's own entry, or what the literal inherits.\<close>

definition personaInstructions_get :: "env \<Rightarrow> jsstring \<Rightarrow> jsstring option" where
  "personaInstructions_get E persona =
     (case map_of personaInstructions persona of
        Some text \<Rightarrow> Some text
      | None \<Rightarrow> Object_prototype E persona)"

definition capitalize :: "env \<Rightarrow> jsstring \<Rightarrow> jsstring" where
  "capitalize E word = toUpperCase E (take 1 word) @ drop 1 word"

definition personaTitle :: "env \<Rightarrow> jsstring \<Rightarrow> jsstring" where
  "personaTitle E persona = join (js '' '') (map (capitalize E) (split 0x2D persona))"

definition personaPrefix :: "env \<Rightarrow> jsstring option \<Rightarrow> jsstring" where
  "personaPrefix E persona =
     (case persona of
        None \<Rightarrow> []
      | Some p \<Rightarrow>
          if p = [] then []
          else
            (case personaInstructions_get E p of
               None \<Rightarrow> []
             | Some text \<Rightarrow>
                 js ''**PERSONA ATIVA: '' @ personaTitle E p @ js ''**\<newline>'' @ text @
                 js ''\<newline>\<newline>---\<newline>\<newline>''))"

text \<open>
  The body of the \<open>forEach\<close>. The \<open>try\<close> block around the decoding of a workflow summary
  catches what the block throws; the template that renders \<open>contentSummary\<close> stands after it.
\<close>

definition contentSummary :: "env \<Rightarrow> Analysis \<Rightarrow> json" where
  "contentSummary E analysis =
     (if a_type analysis = T_workflow then
        (case JSON_parse (a_summary analysis) of
           Inl e \<Rightarrow> JString contentSummary_error
         | Inr parsed \<Rightarrow>
             (case Get parsed (js ''summary_base64'') of
                Inl e \<Rightarrow> JString contentSummary_error
              | Inr b64 \<Rightarrow>
                  if truthy E b64 then
                    (case base64ToString E (the b64) of
                       Inl e \<Rightarrow> JString contentSummary_error
                     | Inr s \<Rightarrow> JString s)
                  else
                    (case Get parsed (js ''summary'') of
                       Inl e \<Rightarrow> JString contentSummary_error
                     | Inr sm \<Rightarrow>
                         if truthy E sm then the sm else JString contentSummary_unavailable)))
      else JString (a_summary analysis))"

definition source_block :: "nat \<Rightarrow> Analysis \<Rightarrow> jsstring \<Rightarrow> jsstring" where
  "source_block index analysis shown =
     js (''--- IN'' @ [CHR 0xCD] @ ''CIO DA FONTE '') @ decimal (index + 1) @ js ('': '' @ [CHR 0x22]) @
       a_title analysis @ js ([CHR 0x22] @ '' ('') @ typeName (a_type analysis) @
       js '') ---\<newline>'' @
     shown @ js ''\<newline>'' @
     js ''--- FIM DA FONTE '' @ decimal (index + 1) @ js '' ---\<newline>\<newline>''"

fun forEach_source :: "env \<Rightarrow> nat \<Rightarrow> Analysis list \<Rightarrow> jsstring \<Rightarrow> thrown + jsstring" where
  "forEach_source E index [] text = Inr text"
| "forEach_source E index (analysis # rest) text =
     (case ToString E (contentSummary E analysis) of
        Inl e \<Rightarrow> Inl e
      | Inr shown \<Rightarrow> forEach_source E (index + 1) rest (text @ source_block index analysis shown))"

definition generateCompositeSystemInstruction ::
    "env \<Rightarrow> Analysis list \<Rightarrow> jsstring option \<Rightarrow> thrown + jsstring" where
  "generateCompositeSystemInstruction E analyses persona =
     (let prefix = personaPrefix E persona in
        if length analyses = 0 then
          (if prefix \<noteq> [] then
             Inr (prefix @ generic_persona_lead @ generic_instruction @ TOOL_INSTRUCTIONS)
           else Inr (generic_instruction @ TOOL_INSTRUCTIONS))
        else if length analyses = 1 then
          (case getSingleSystemInstruction E (analyses ! 0) of
             Inl e \<Rightarrow> Inl e
           | Inr single \<Rightarrow> Inr (prefix @ single @ TOOL_INSTRUCTIONS))
        else
          (case forEach_source E 0 analyses multi_header of
             Inl e \<Rightarrow> Inl e
           | Inr sources \<Rightarrow> Inr (prefix @ sources @ multi_footer @ TOOL_INSTRUCTIONS)))"

section \<open>The session state\<close>

record SearchResult =
  sr_uri :: jsstring
  sr_title :: jsstring

datatype TimelineEventType =
  EV_info | EV_success | EV_error | EV_record | EV_process | EV_connect | EV_disconnect | EV_history

text \<open>A timeline event's timestamp is the reading of the clock it was taken at (the program
  stores the time of day the locale renders for that instant).\<close>

record TimelineEvent =
  ev_timestamp :: nat
  ev_message :: jsstring
  ev_type :: TimelineEventType

record ProcessingState =
  ps_active :: bool
  ps_step :: jsstring
  ps_progress :: int

record SearchHistoryItem =
  sh_id :: jsstring
  sh_term :: jsstring

record SavedSession =
  ss_id :: jsstring
  ss_title :: jsstring
  ss_analyses :: "Analysis list"
  ss_timelineEvents :: "TimelineEvent list"
  ss_systemInstruction :: jsstring
  ss_searchResults :: "SearchResult list"
  ss_activePersona :: "jsstring option"

datatype Role = R_user | R_model

record ChatMessage =
  m_role :: Role
  m_text :: jsstring
  m_imageUrls :: "jsstring list option"
  m_isLoadingImages :: "bool option"
  m_imageCount :: "nat option"

record AppState =
  analyses :: "Analysis list"
  selectedAnalysisId :: "jsstring option"
  processingState :: ProcessingState
  isRecording :: bool
  status :: jsstring
  error :: jsstring
  searchResults :: "SearchResult list"
  systemInstruction :: jsstring
  timelineEvents :: "TimelineEvent list"
  showTimelineModal :: bool
  showHistoryModal :: bool
  showSidebar :: bool
  showVisualizerPanel :: bool
  savedSessions :: "SavedSession list"
  searchHistory :: "SearchHistoryItem list"
  activePersona :: "jsstring option"
  chatHistory :: "ChatMessage list"
  isChatting :: bool
  lastGeneratedImages :: "jsstring list"

section \<open>The service and its collaborators\<close>

text \<open>
  The two connections. A voice session is the handle \<open>live.connect\<close> returned, with the
  instruction it was opened on; a text chat is the object \<open>chats.create\<close> returned, with its
  seed history and instruction.
\<close>

record Session =
  live_systemInstruction :: jsstring

record Chat =
  chat_history :: "(Role \<times> jsstring) list"
  chat_systemInstruction :: jsstring

text \<open>
  The calls the service makes, in the order it makes them: to the audio service, to the
  two transports, to the image models, to the browser's storage, and to its own two image
  jobs (the Image Job Runner).
\<close>

datatype call =
    AudioStop
  | SessionClose
  | ChatsCreate "(Role \<times> jsstring) list" jsstring
  | SendMessageStream jsstring
  | TriggerImageGeneration jsstring nat
  | TriggerImageEditing jsstring
  | GenerateImages jsstring nat
  | GenerateContent jsstring jsstring
  | StorageSetSessions "SavedSession list"

text \<open>The pending timer of \<open>statusTimeout\<close>: which field it will clear, if it still holds
  the message.\<close>

datatype timer = ClearStatus jsstring | ClearError jsstring

record StateService =
  state :: AppState
  statusTimeout :: "timer option"
  session :: "Session option"
  textChatSession :: "Chat option"
  clock :: nat
  calls :: "call list"

text \<open>
  An operation runs from its call to its return without another operation in between,
  listeners do not call back into the service, and a collaborator's call returns unless
  its failure is an argument of the operation. An operation that can end in an exception
  returns the exception beside the state it leaves behind.
\<close>

type_synonym outcome = "thrown option \<times> StateService"

definition andThen :: "outcome \<Rightarrow> (StateService \<Rightarrow> outcome) \<Rightarrow> outcome" where
  "andThen r f = (case r of (None, S) \<Rightarrow> f S | (Some e, S) \<Rightarrow> (Some e, S))"

definition setState :: "(AppState \<Rightarrow> AppState) \<Rightarrow> StateService \<Rightarrow> StateService" where
  "setState updater S = S\<lparr>state := updater (state S)\<rparr>"

definition call :: "call \<Rightarrow> StateService \<Rightarrow> StateService" where
  "call c S = S\<lparr>calls := calls S @ [c]\<rparr>"

subsection \<open>Status, errors and the timeline\<close>

definition logEvent :: "jsstring \<Rightarrow> TimelineEventType \<Rightarrow> StateService \<Rightarrow> StateService" where
  "logEvent message type S =
     setState (\<lambda>s. s\<lparr>timelineEvents := timelineEvents s @
                 [\<lparr>ev_timestamp = clock S, ev_message = message, ev_type = type\<rparr>]\<rparr>)
       (S\<lparr>clock := clock S + 1\<rparr>)"

definition updateStatus :: "jsstring \<Rightarrow> StateService \<Rightarrow> StateService" where
  "updateStatus msg S =
     (let S1 = setState (\<lambda>s. s\<lparr>status := msg, error := []\<rparr>) (S\<lparr>statusTimeout := None\<rparr>)
      in if msg \<noteq> [] \<and> msg \<noteq> js ''Escutando...'' then S1\<lparr>statusTimeout := Some (ClearStatus msg)\<rparr>
         else S1)"

definition updateError :: "jsstring \<Rightarrow> StateService \<Rightarrow> StateService" where
  "updateError msg S =
     (let S1 = setState (\<lambda>s. s\<lparr>error := msg, status := []\<rparr>) (S\<lparr>statusTimeout := None\<rparr>);
          S2 = logEvent msg EV_error S1
      in S2\<lparr>statusTimeout := Some (ClearError msg)\<rparr>)"

text \<open>What a transport throws: an \<open>Error\<close> with its message, or another value with the text
  \<open>String\<close> gives it.\<close>

datatype failure = Failure_Error jsstring | Failure_value jsstring

definition handleError :: "failure \<Rightarrow> jsstring \<Rightarrow> StateService \<Rightarrow> StateService" where
  "handleError err context_text S =
     (let message = (case err of Failure_Error m \<Rightarrow> m | Failure_value v \<Rightarrow> v)
      in updateError (context_text @ js '': '' @ message) S)"

subsection \<open>The derived instruction\<close>

text \<open>\<open>relevantAnalyses\<close> is what \<open>updateSystemInstruction\<close> passes to the composer: the first
  record whose id is the selected one, when the selected id is truthy (neither \<open>null\<close> nor
  the empty string).\<close>

definition relevantAnalyses :: "AppState \<Rightarrow> Analysis list" where
  "relevantAnalyses s =
     (case selectedAnalysisId s of
        None \<Rightarrow> []
      | Some sel \<Rightarrow>
          if sel = [] then []
          else (case find (\<lambda>a. a_id a = sel) (analyses s) of
                  None \<Rightarrow> []
                | Some selected \<Rightarrow> [selected]))"

definition updateSystemInstruction :: "env \<Rightarrow> StateService \<Rightarrow> outcome" where
  "updateSystemInstruction E S =
     (case generateCompositeSystemInstruction E (relevantAnalyses (state S)) (activePersona (state S)) of
        Inl e \<Rightarrow> (Some e, S)
      | Inr newInstruction \<Rightarrow> (None, setState (\<lambda>s. s\<lparr>systemInstruction := newInstruction\<rparr>) S))"

subsection \<open>The two connections\<close>

text \<open>The seed history of a new text chat: the messages whose text is truthy (not empty),
  each as its role and text.\<close>

definition seedHistory :: "ChatMessage list \<Rightarrow> (Role \<times> jsstring) list" where
  "seedHistory history = map (\<lambda>msg. (m_role msg, m_text msg)) (filter (\<lambda>msg. m_text msg \<noteq> []) history)"

definition initializeTextChat :: "StateService \<Rightarrow> StateService" where
  "initializeTextChat S =
     (let history = seedHistory (chatHistory (state S));
          instruction = systemInstruction (state S);
          S1 = call (ChatsCreate history instruction) S;
          S2 = S1\<lparr>textChatSession := Some \<lparr>chat_history = history, chat_systemInstruction = instruction\<rparr>\<rparr>
      in setState (\<lambda>s. s\<lparr>isChatting := False\<rparr>) S2)"

definition stopRecording :: "StateService \<Rightarrow> StateService" where
  "stopRecording S =
     (if \<not> isRecording (state S) then S
      else
        (let S1 = call AudioStop S;
             S2 = setState (\<lambda>s. s\<lparr>isRecording := False\<rparr>) S1;
             S3 = updateStatus (js (''Grava'' @ [CHR 0xE7, CHR 0xE3] @ ''o parada.'')) S2
         in logEvent (js (''Grava'' @ [CHR 0xE7, CHR 0xE3] @ ''o parada.'')) EV_record S3))"

text \<open>\<open>resetSession(false)\<close>, the call the operations below make: the voice session is closed
  and dropped (\<open>startRecording\<close> opens the next one), the text chat is created anew.\<close>

definition resetSession :: "env \<Rightarrow> StateService \<Rightarrow> outcome" where
  "resetSession E S =
     (let S1 = stopRecording S;
          S2 = (case session S1 of
                  None \<Rightarrow> S1
                | Some live \<Rightarrow> (call SessionClose S1)\<lparr>session := None\<rparr>);
          S3 = setState (\<lambda>s. s\<lparr>searchResults := []\<rparr>) S2
      in andThen (updateSystemInstruction E S3)
           (\<lambda>S4. (None, updateStatus (js (''Sess'' @ [CHR 0xE3] @ ''o reiniciada.'')) (initializeTextChat S4))))"

subsection \<open>Selection and persona\<close>

definition updateVisualizerPanelVisibility :: "StateService \<Rightarrow> StateService" where
  "updateVisualizerPanelVisibility S =
     setState (\<lambda>s. s\<lparr>showVisualizerPanel :=
       (case selectedAnalysisId s of None \<Rightarrow> False | Some sel \<Rightarrow> sel \<noteq> [])\<rparr>) S"

definition setSelectedAnalysisId :: "env \<Rightarrow> jsstring option \<Rightarrow> StateService \<Rightarrow> outcome" where
  "setSelectedAnalysisId E ident S =
     (if selectedAnalysisId (state S) = ident then (None, S)
      else
        (let S1 = setState (\<lambda>s. s\<lparr>selectedAnalysisId := ident, chatHistory := [],
                                    lastGeneratedImages := []\<rparr>) S;
             S2 = updateVisualizerPanelVisibility S1
         in andThen (updateSystemInstruction E S2)
              (\<lambda>S3. andThen (resetSession E S3)
                 (\<lambda>S4. (None, initializeTextChat S4)))))"

definition setPersona :: "env \<Rightarrow> jsstring option \<Rightarrow> StateService \<Rightarrow> outcome" where
  "setPersona E persona S =
     (let S1 = setState (\<lambda>s. s\<lparr>activePersona := persona, chatHistory := []\<rparr>) S;
          shown = (case persona of
                     None \<Rightarrow> js (''Padr'' @ [CHR 0xE3] @ ''o'')
                   | Some p \<Rightarrow> if p = [] then js (''Padr'' @ [CHR 0xE3] @ ''o'') else p);
          S2 = logEvent (js ''Persona alterada para: '' @ shown) EV_info S1
      in andThen (updateSystemInstruction E S2)
           (\<lambda>S3. andThen (resetSession E S3)
              (\<lambda>S4. (None, initializeTextChat S4))))"

subsection \<open>The knowledge store\<close>

text \<open>\<open>newAnalyses[0]?.id || null\<close>: \<open>null\<close> when there is no first record, and also when its id
  is the empty string.\<close>

definition firstIdOrNull :: "Analysis list \<Rightarrow> jsstring option" where
  "firstIdOrNull as =
     (case as of
        [] \<Rightarrow> None
      | a # rest \<Rightarrow> if a_id a = [] then None else Some (a_id a))"

definition removeAnalysis :: "env \<Rightarrow> jsstring \<Rightarrow> StateService \<Rightarrow> outcome" where
  "removeAnalysis E idToRemove S =
     (let newAnalyses = filter (\<lambda>a. a_id a \<noteq> idToRemove) (analyses (state S));
          newSelectedId =
            (if Some idToRemove = selectedAnalysisId (state S) then firstIdOrNull newAnalyses
             else selectedAnalysisId (state S));
          S1 = setState (\<lambda>s. s\<lparr>analyses := newAnalyses\<rparr>) S;
          S2 = logEvent (js ''Contexto removido.'') EV_info S1
      in setSelectedAnalysisId E newSelectedId S2)"

subsection \<open>Saved sessions\<close>



section \<open>The Streamed Command Interpreter\<close>

subsection \<open>The two regular expressions\<close>

text \<open>
  \<open>generateRegex\<close> is \<^verbatim>\<open>/\[generate_images\((\d+)\):\s*'([^']+)']/\<close> and \<open>editRegex\<close> is
  \<^verbatim>\<open>/\[edit_image:\s*'([^']+)']/\<close>. \<open>generateRegex_at s\<close> is the match that starts at the head of
  \<open>s\<close>: its two groups and the text after it. Each greedy run (\<^verbatim>\<open>\d+\<close>, \<^verbatim>\<open>\s*\<close>, \<^verbatim>\<open>[^']+\<close>) is
  followed by a character outside its class, so the longest run is the only one that can be
  continued and a matcher that backtracks finds this match or none.
\<close>

definition notQuote :: "jschar \<Rightarrow> bool" where
  "notQuote c \<longleftrightarrow> c \<noteq> 0x27"

definition generateRegex_at :: "jsstring \<Rightarrow> ((jsstring \<times> jsstring) \<times> jsstring) option" where
  "generateRegex_at s =
     (case stripPrefix (js ''[generate_images('') s of
        None \<Rightarrow> None
      | Some r1 \<Rightarrow>
          (let digits = takeWhile isDigit r1 in
           if digits = [] then None
           else
             (case stripPrefix (js ''):'') (dropWhile isDigit r1) of
                None \<Rightarrow> None
              | Some r2 \<Rightarrow>
                  (case stripPrefix [0x27] (dropWhile isWhiteSpace r2) of
                     None \<Rightarrow> None
                   | Some r3 \<Rightarrow>
                       (let prompt = takeWhile notQuote r3 in
                        if prompt = [] then None
                        else
                          (case stripPrefix [0x27, 0x5D] (dropWhile notQuote r3) of
                             None \<Rightarrow> None
                           | Some rest \<Rightarrow> Some ((digits, prompt), rest)))))))"

definition editRegex_at :: "jsstring \<Rightarrow> (jsstring \<times> jsstring) option" where
  "editRegex_at s =
     (case stripPrefix (js ''[edit_image:'') s of
        None \<Rightarrow> None
      | Some r1 \<Rightarrow>
          (case stripPrefix [0x27] (dropWhile isWhiteSpace r1) of
             None \<Rightarrow> None
           | Some r2 \<Rightarrow>
               (let prompt = takeWhile notQuote r2 in
                if prompt = [] then None
                else
                  (case stripPrefix [0x27, 0x5D] (dropWhile notQuote r2) of
                     None \<Rightarrow> None
                   | Some rest \<Rightarrow> Some (prompt, rest)))))"

text \<open>
  \<open>regexMatch at s\<close> is \<open>s.match(regex)\<close> for a regular expression without the global flag:
  the match at the leftmost position that has one, as the text before it, its groups and the
  text after it. \<open>s.replace(regex, '')\<close> is then the text before followed by the text after.
\<close>

fun regexMatch :: "(jsstring \<Rightarrow> ('g \<times> jsstring) option) \<Rightarrow> jsstring \<Rightarrow> (jsstring \<times> 'g \<times> jsstring) option" where
  "regexMatch at [] = (case at [] of None \<Rightarrow> None | Some (g, rest) \<Rightarrow> Some ([], g, rest))"
| "regexMatch at (c # cs) =
     (case at (c # cs) of
        Some (g, rest) \<Rightarrow> Some ([], g, rest)
      | None \<Rightarrow>
          (case regexMatch at cs of
             None \<Rightarrow> None
           | Some (before, g, rest) \<Rightarrow> Some (c # before, g, rest)))"

subsection \<open>The image jobs, up to their first suspension\<close>

text \<open>
  Both jobs are called without \<open>await\<close>: what runs inside the caller's step is the job up to
  its first \<open>await\<close>, which is the call of the image model (the job's continuation runs when
  that call settles, after the step). The job that finds no recent image has no \<open>await\<close> and
  runs to its end.
\<close>

definition lastMessage :: "StateService \<Rightarrow> ChatMessage option" where
  "lastMessage S = (case chatHistory (state S) of [] \<Rightarrow> None | h \<Rightarrow> Some (last h))"

definition updateLastMessage :: "(ChatMessage \<Rightarrow> ChatMessage) \<Rightarrow> StateService \<Rightarrow> StateService" where
  "updateLastMessage f S =
     setState (\<lambda>s. s\<lparr>chatHistory := butlast (chatHistory s) @ [f (last (chatHistory s))]\<rparr>) S"

definition triggerImageGeneration :: "jsstring \<Rightarrow> nat \<Rightarrow> StateService \<Rightarrow> StateService" where
  "triggerImageGeneration prompt count S0 =
     (let S = call (TriggerImageGeneration prompt count) S0 in
      case lastMessage S of
        None \<Rightarrow> S
      | Some m \<Rightarrow>
          if m_role m \<noteq> R_model then S
          else
            call (GenerateImages prompt count)
              (updateLastMessage (\<lambda>m. m\<lparr>m_isLoadingImages := Some True, m_imageCount := Some count\<rparr>) S))"

definition noRecentImage :: jsstring where
  "noRecentImage = js (''\<newline>\<newline>**Erro:** N'' @ [CHR 0xE3] @ ''o h'' @ [CHR 0xE1] @
     '' nenhuma imagem recente para editar.'')"

definition triggerImageEditing :: "jsstring \<Rightarrow> StateService \<Rightarrow> StateService" where
  "triggerImageEditing prompt S0 =
     (let S = call (TriggerImageEditing prompt) S0 in
      case lastMessage S of
        None \<Rightarrow> S
      | Some m \<Rightarrow>
          if m_role m \<noteq> R_model then S
          else if length (lastGeneratedImages (state S)) = 0 then
            updateLastMessage (\<lambda>m. m\<lparr>m_text := m_text m @ noRecentImage\<rparr>) S
          else
            (let S1 = updateLastMessage
                        (\<lambda>m. m\<lparr>m_isLoadingImages := Some True, m_imageCount := Some 1\<rparr>) S;
                 imageToEditB64 = lastGeneratedImages (state S1) ! 0
             in call (GenerateContent imageToEditB64 prompt) S1))"

subsection \<open>sendTextMessage\<close>

text \<open>
  What the text transport answers to \<open>sendMessageStream\<close>: it fails, or it returns a stream
  that yields its chunks and then ends or fails. A chunk carries a text fragment or none, and
  grounding chunks or none; a grounding chunk has a \<open>web\<close> entry (its uri and its title, if it
  has one) or none.
\<close>

record Chunk =
  chunk_text :: "jsstring option"
  chunk_grounding :: "(jsstring \<times> jsstring option) option list option"

datatype answer = SendFails failure | Stream "Chunk list" "failure option"

text \<open>The variables of the loop over the stream.\<close>

record turn =
  accumulatedText :: jsstring
  commandProcessed :: bool
  allSearchResults :: "(jsstring \<times> SearchResult) list"

text \<open>\<open>Map.prototype.set\<close>: a key that is present keeps its place and takes the new value.\<close>

fun mapSet :: "'k \<Rightarrow> 'v \<Rightarrow> ('k \<times> 'v) list \<Rightarrow> ('k \<times> 'v) list" where
  "mapSet k v [] = [(k, v)]"
| "mapSet k v ((k', v') # rest) = (if k' = k then (k, v) # rest else (k', v') # mapSet k v rest)"

definition addGrounding :: "(jsstring \<times> jsstring option) option list \<Rightarrow>
    (jsstring \<times> SearchResult) list \<Rightarrow> (jsstring \<times> SearchResult) list" where
  "addGrounding groundingChunks results =
     foldl (\<lambda>acc c. case c of
                       None \<Rightarrow> acc
                     | Some (uri, title) \<Rightarrow>
                         mapSet uri \<lparr>sr_uri = uri,
                                     sr_title = (case title of
                                                   None \<Rightarrow> uri
                                                 | Some t \<Rightarrow> if t = [] then uri else t)\<rparr> acc)
       results groundingChunks"

text \<open>The scan of the accumulated text, while no command has been processed in the turn.\<close>

definition scanCommand :: "turn \<Rightarrow> StateService \<Rightarrow> turn \<times> StateService" where
  "scanCommand t S =
     (case regexMatch generateRegex_at (accumulatedText t) of
        Some (before, (digits, prompt), rest) \<Rightarrow>
          (t\<lparr>commandProcessed := True, accumulatedText := trim (before @ rest)\<rparr>,
           triggerImageGeneration prompt (parseInt digits) S)
      | None \<Rightarrow>
          (case regexMatch editRegex_at (accumulatedText t) of
             Some (before, prompt, rest) \<Rightarrow>
               (t\<lparr>commandProcessed := True, accumulatedText := trim (before @ rest)\<rparr>,
                triggerImageEditing prompt S)
           | None \<Rightarrow> (t, S)))"

definition showAccumulated :: "turn \<Rightarrow> StateService \<Rightarrow> StateService" where
  "showAccumulated t S =
     (case lastMessage S of
        None \<Rightarrow> S
      | Some m \<Rightarrow>
          if m_role m = R_model then updateLastMessage (\<lambda>m. m\<lparr>m_text := accumulatedText t\<rparr>) S
          else S)"

definition onChunk :: "Chunk \<Rightarrow> turn \<times> StateService \<Rightarrow> turn \<times> StateService" where
  "onChunk chunk tS =
     (let (t, S) = tS;
          (t2, S2) =
            (case chunk_text chunk of
               None \<Rightarrow> (t, S)
             | Some chunkText \<Rightarrow>
                 if chunkText = [] then (t, S)
                 else
                   (let t1 = t\<lparr>accumulatedText := accumulatedText t @ chunkText\<rparr>;
                        (t', S') = (if \<not> commandProcessed t1 then scanCommand t1 S else (t1, S))
                    in (t', showAccumulated t' S')))
      in case chunk_grounding chunk of
           None \<Rightarrow> (t2, S2)
         | Some groundingChunks \<Rightarrow>
             (t2\<lparr>allSearchResults := addGrounding groundingChunks (allSearchResults t2)\<rparr>, S2))"

text \<open>The \<open>catch\<close> block of \<open>sendTextMessage\<close>.\<close>

definition catchChatError :: "failure \<Rightarrow> StateService \<Rightarrow> StateService" where
  "catchChatError err S =
     (let errorText = (case err of
                         Failure_Error m \<Rightarrow> m
                       | Failure_value v \<Rightarrow> js ''Erro desconhecido'');
          S' = handleError err (js ''Falha na mensagem de chat'') S
      in case lastMessage S' of
           None \<Rightarrow> S'
         | Some m \<Rightarrow>
             if m_role m = R_model then
               setState (\<lambda>s. s\<lparr>isChatting := False\<rparr>)
                 (updateLastMessage
                    (\<lambda>m. m\<lparr>m_text := m_text m @
                       js ''\<newline>\<newline>**Desculpe, ocorreu um erro:** '' @ errorText\<rparr>) S')
             else S')"

definition userMessage :: "jsstring \<Rightarrow> ChatMessage" where
  "userMessage message = \<lparr>m_role = R_user, m_text = message, m_imageUrls = None,
                           m_isLoadingImages = None, m_imageCount = None\<rparr>"

definition modelMessage :: ChatMessage where
  "modelMessage = \<lparr>m_role = R_model, m_text = [], m_imageUrls = None,
                    m_isLoadingImages = None, m_imageCount = None\<rparr>"

definition sendTextMessage :: "jsstring \<Rightarrow> answer \<Rightarrow> StateService \<Rightarrow> StateService" where
  "sendTextMessage message answer S =
     (if textChatSession S = None \<or> isChatting (state S) \<or> trim message = [] then S
      else
        (let S1 = setState (\<lambda>s. s\<lparr>isChatting := True,
                                    chatHistory := chatHistory s @ [userMessage message],
                                    searchResults := []\<rparr>) S;
             S2 = call (SendMessageStream message) S1
         in case answer of
              SendFails err \<Rightarrow> catchChatError err S2
            | Stream chunks ending \<Rightarrow>
                (let S3 = setState (\<lambda>s. s\<lparr>chatHistory := chatHistory s @ [modelMessage]\<rparr>) S2;
                     t0 = \<lparr>accumulatedText = [], commandProcessed = False, allSearchResults = []\<rparr>;
                     (t, S4) = foldl (\<lambda>tS chunk. onChunk chunk tS) (t0, S3) chunks
                 in case ending of
                      None \<Rightarrow>
                        setState (\<lambda>s. s\<lparr>isChatting := False,
                                          searchResults := map snd (allSearchResults t)\<rparr>) S4
                    | Some err \<Rightarrow> catchChatError err S4)))"

subsection \<open>The constructor\<close>

definition initialState :: AppState where
  "initialState =
     \<lparr>analyses = [], selectedAnalysisId = None,
      processingState = \<lparr>ps_active = False, ps_step = [], ps_progress = 0\<rparr>,
      isRecording = False, status = [], error = [], searchResults = [],
      systemInstruction = [], timelineEvents = [],
      showTimelineModal = False, showHistoryModal = False, showSidebar = True,
      showVisualizerPanel = False, savedSessions = [], searchHistory = [],
      activePersona = None, chatHistory = [], isChatting = False, lastGeneratedImages = []\<rparr>"

text \<open>The constructor reads the saved sessions and the search history from the browser's
  storage (its two arguments), derives the first instruction and creates the first text chat.\<close>

definition constructor :: "env \<Rightarrow> SavedSession list \<Rightarrow> SearchHistoryItem list \<Rightarrow> outcome" where
  "constructor E storedSessions storedSearches =
     (let S0 = \<lparr>state = initialState\<lparr>savedSessions := storedSessions, searchHistory := storedSearches\<rparr>,
                statusTimeout = None, session = None, textChatSession = None,
                clock = 0, calls = []\<rparr>
      in andThen (updateSystemInstruction E S0) (\<lambda>S1. (None, initializeTextChat S1)))"

section \<open>Notions the properties are stated with\<close>

text \<open>A sequence of \<open>setSelectedAnalysisId\<close> and \<open>setPersona\<close> calls, run until one of them ends
  in an exception.\<close>

datatype intent = SetSelectedAnalysisId "jsstring option" | SetPersona "jsstring option"

fun perform :: "env \<Rightarrow> intent \<Rightarrow> StateService \<Rightarrow> outcome" where
  "perform E (SetSelectedAnalysisId ident) S = setSelectedAnalysisId E ident S"
| "perform E (SetPersona persona) S = setPersona E persona S"

fun performAll :: "env \<Rightarrow> intent list \<Rightarrow> StateService \<Rightarrow> outcome" where
  "performAll E [] S = (None, S)"
| "performAll E (i # rest) S = andThen (perform E i S) (performAll E rest)"

text \<open>The derived instruction is current when it is what the composer returns for the
  records \<open>updateSystemInstruction\<close> selects and the active persona.\<close>

definition instructionCurrent :: "env \<Rightarrow> StateService \<Rightarrow> bool" where
  "instructionCurrent E S \<longleftrightarrow>
     generateCompositeSystemInstruction E (relevantAnalyses (state S)) (activePersona (state S))
       = Inr (systemInstruction (state S))"

text \<open>The selection as the specification words it: the singleton list of the selected record
  when the selected id is not \<open>null\<close> and is present in the store, the empty list otherwise.\<close>

definition spec_selection :: "AppState \<Rightarrow> Analysis list" where
  "spec_selection s =
     (case selectedAnalysisId s of
        None \<Rightarrow> []
      | Some sel \<Rightarrow>
          (case find (\<lambda>a. a_id a = sel) (analyses s) of
             None \<Rightarrow> []
           | Some selected \<Rightarrow> [selected]))"

definition spec_instructionCurrent :: "env \<Rightarrow> StateService \<Rightarrow> bool" where
  "spec_instructionCurrent E S \<longleftrightarrow>
     generateCompositeSystemInstruction E (spec_selection (state S)) (activePersona (state S))
       = Inr (systemInstruction (state S))"

text \<open>The id the specification says a removal or a load selects: the first record's, or \<open>null\<close>
  when there is none.\<close>

definition spec_firstId :: "Analysis list \<Rightarrow> jsstring option" where
  "spec_firstId as = (case as of [] \<Rightarrow> None | a # rest \<Rightarrow> Some (a_id a))"

text \<open>The seed history as the specification words it: the messages that carry no image
  payload.\<close>

definition spec_seedHistory :: "ChatMessage list \<Rightarrow> (Role \<times> jsstring) list" where
  "spec_seedHistory history =
     map (\<lambda>msg. (m_role msg, m_text msg))
       (filter (\<lambda>msg. m_imageUrls msg = None \<or> m_imageUrls msg = Some []) history)"

text \<open>The calls to the Image Job Runner among a list of calls, and the calls of the two
  image models.\<close>

fun isImageJob :: "call \<Rightarrow> bool" where
  "isImageJob (TriggerImageGeneration prompt count) = True"
| "isImageJob (TriggerImageEditing prompt) = True"
| "isImageJob c = False"

fun isImageModelCall :: "call \<Rightarrow> bool" where
  "isImageModelCall (GenerateImages prompt count) = True"
| "isImageModelCall (GenerateContent img prompt) = True"
| "isImageModelCall c = False"


text \<open>The text fragments a stream delivers: the chunks' texts that are truthy.\<close>

definition fragments :: "Chunk list \<Rightarrow> jsstring list" where
  "fragments chunks =
     concat (map (\<lambda>c. case chunk_text c of None \<Rightarrow> [] | Some t \<Rightarrow> if t = [] then [] else [t]) chunks)"

text \<open>
  The command of a turn: the fragments are appended to the buffer one by one, and the first
  buffer that \<open>generateRegex\<close> or \<open>editRegex\<close> matches decides, \<open>generateRegex\<close> before
  \<open>editRegex\<close>.
\<close>

fun firstCommand :: "jsstring \<Rightarrow> jsstring list \<Rightarrow> call option" where
  "firstCommand buffer [] = None"
| "firstCommand buffer (fragment # rest) =
     (case regexMatch generateRegex_at (buffer @ fragment) of
        Some (before, (digits, prompt), after) \<Rightarrow> Some (TriggerImageGeneration prompt (parseInt digits))
      | None \<Rightarrow>
          (case regexMatch editRegex_at (buffer @ fragment) of
             Some (before, prompt, after) \<Rightarrow> Some (TriggerImageEditing prompt)
           | None \<Rightarrow> firstCommand (buffer @ fragment) rest))"

text \<open>A buffer holds no directive when neither regular expression matches it.\<close>

definition noDirective :: "jsstring \<Rightarrow> bool" where
  "noDirective buffer \<longleftrightarrow>
     regexMatch generateRegex_at buffer = None \<and> regexMatch editRegex_at buffer = None"

text \<open>The state a service constructed on an empty storage is in.\<close>

definition idleService :: StateService where
  "idleService =
     \<lparr>state = initialState\<lparr>systemInstruction := generic_instruction @ TOOL_INSTRUCTIONS\<rparr>,
      statusTimeout = None, session = None,
      textChatSession = Some \<lparr>chat_history = [],
                               chat_systemInstruction = generic_instruction @ TOOL_INSTRUCTIONS\<rparr>,
      clock = 0,
      calls = [ChatsCreate [] (generic_instruction @ TOOL_INSTRUCTIONS)]\<rparr>"


section \<open>Inputs the properties are tried on\<close>

definition notesDoc :: Analysis where
  "notesDoc = \<lparr>a_id = js ''a1'', a_title = js ''Notes'', a_source = js ''notes.pdf'',
     a_summary = js ''Three points.'', a_type = T_file, a_persona = P_assistant,
     a_previewData = None, a_tags = None\<rparr>"

definition talkVideo :: Analysis where
  "talkVideo = \<lparr>a_id = js ''a2'', a_title = js ''Talk'', a_source = js ''talk.mp4'',
     a_summary = js ''One hour.'', a_type = T_video, a_persona = P_assistant,
     a_previewData = None, a_tags = None\<rparr>"

text \<open>A record whose id is the empty string.\<close>

definition blankIdDoc :: Analysis where
  "blankIdDoc = notesDoc\<lparr>a_id := []\<rparr>"

text \<open>Two workflow records: the summary of the first is the envelope \<^verbatim>\<open>{"summary":"ok"}\<close>, the
  summary of the second is \<^verbatim>\<open>{"summary":{"toString":0}}\<close>.\<close>

definition envelopeOk :: jsstring where
  "envelopeOk = js (''{'' @ [CHR 0x22] @ ''summary'' @ [CHR 0x22] @ '':'' @ [CHR 0x22] @ ''ok'' @
     [CHR 0x22] @ ''}'')"

definition envelopeBad :: jsstring where
  "envelopeBad = js (''{'' @ [CHR 0x22] @ ''summary'' @ [CHR 0x22] @ '':{'' @ [CHR 0x22] @
     ''toString'' @ [CHR 0x22] @ '':0}}'')"

definition workflowOk :: Analysis where
  "workflowOk = \<lparr>a_id = js ''w1'', a_title = js ''Flow'', a_source = js ''flow.mp4'',
     a_summary = envelopeOk, a_type = T_workflow, a_persona = P_assistant,
     a_previewData = None, a_tags = None\<rparr>"

definition workflowBad :: Analysis where
  "workflowBad = \<lparr>a_id = js ''w2'', a_title = js ''Flow'', a_source = js ''flow.mp4'',
     a_summary = envelopeBad, a_type = T_workflow, a_persona = P_assistant,
     a_previewData = None, a_tags = None\<rparr>"

text \<open>The idle service with a knowledge store, and with a selection.\<close>

definition withStore :: "Analysis list \<Rightarrow> StateService \<Rightarrow> StateService" where
  "withStore as S = S\<lparr>state := (state S)\<lparr>analyses := as\<rparr>\<rparr>"

definition withSelection :: "jsstring option \<Rightarrow> StateService \<Rightarrow> StateService" where
  "withSelection sel S = S\<lparr>state := (state S)\<lparr>selectedAnalysisId := sel\<rparr>\<rparr>"


text \<open>The idle service with a chat history, and four messages: a question, an answer with
  text, an answer that carries an image beside its text, and an answer without text.\<close>

definition withHistory :: "ChatMessage list \<Rightarrow> StateService \<Rightarrow> StateService" where
  "withHistory h S = S\<lparr>state := (state S)\<lparr>chatHistory := h\<rparr>\<rparr>"

definition askMessage :: ChatMessage where
  "askMessage = \<lparr>m_role = R_user, m_text = js ''add a hat'', m_imageUrls = None,
     m_isLoadingImages = None, m_imageCount = None\<rparr>"

definition answerMessage :: ChatMessage where
  "answerMessage = \<lparr>m_role = R_model, m_text = js ''Sure.'', m_imageUrls = None,
     m_isLoadingImages = None, m_imageCount = None\<rparr>"

definition pictureMessage :: ChatMessage where
  "pictureMessage = \<lparr>m_role = R_model, m_text = js ''Here it is.'',
     m_imageUrls = Some [js ''data:image/png;base64,AAAA''],
     m_isLoadingImages = Some False, m_imageCount = Some 1\<rparr>"

definition silentMessage :: ChatMessage where
  "silentMessage = \<lparr>m_role = R_model, m_text = [], m_imageUrls = None,
     m_isLoadingImages = None, m_imageCount = None\<rparr>"

text \<open>Streams: one chunk that holds an edit directive and then a generate directive; the
  text of the specification's example in two chunks; a directive whose count is not a number,
  in two chunks.\<close>

definition textChunk :: "jsstring \<Rightarrow> Chunk" where
  "textChunk t = \<lparr>chunk_text = Some t, chunk_grounding = None\<rparr>"

definition editThenGenerate :: jsstring where
  "editThenGenerate = js (''[edit_image: '' @ [CHR 0x27] @ ''a'' @ [CHR 0x27] @ ''] [generate_images(1): '' @
     [CHR 0x27] @ ''b'' @ [CHR 0x27] @ '']'')"

definition twoCats :: "Chunk list" where
  "twoCats = [textChunk (js (''Ol'' @ [CHR 0xE1] @ ''! [generate_im'')),
              textChunk (js (''ages(2): '' @ [CHR 0x27] @ ''two cats playing'' @ [CHR 0x27] @ '']''))]"

definition malformed :: "Chunk list" where
  "malformed = [textChunk (js ''Veja: [generate_images(x)''),
                textChunk (js ('': '' @ [CHR 0x27] @ ''cats'' @ [CHR 0x27] @ '']''))]"


section \<open>Parts of the operations\<close>

text \<open>\<open>resetSession\<close> is what precedes the recomputation of the instruction, the recomputation,
  and what follows it; \<open>setSelectedAnalysisId\<close> and \<open>setPersona\<close> are their assignments followed
  by the same three steps. The parts are named for the proofs.\<close>

definition beforeRecompute :: "StateService \<Rightarrow> StateService" where
  "beforeRecompute S =
     setState (\<lambda>s. s\<lparr>searchResults := []\<rparr>)
       (case session (stopRecording S) of
          None \<Rightarrow> stopRecording S
        | Some live \<Rightarrow> (call SessionClose (stopRecording S))\<lparr>session := None\<rparr>)"

definition afterRecompute :: "StateService \<Rightarrow> StateService" where
  "afterRecompute S =
     updateStatus (js (''Sess'' @ [CHR 0xE3] @ ''o reiniciada.'')) (initializeTextChat S)"

definition selecting :: "jsstring option \<Rightarrow> StateService \<Rightarrow> StateService" where
  "selecting ident S =
     updateVisualizerPanelVisibility
       (setState (\<lambda>s. s\<lparr>selectedAnalysisId := ident, chatHistory := [], lastGeneratedImages := []\<rparr>) S)"

definition personaSet :: "jsstring option \<Rightarrow> StateService \<Rightarrow> StateService" where
  "personaSet persona S =
     logEvent (js ''Persona alterada para: '' @
         (case persona of
            None \<Rightarrow> js (''Padr'' @ [CHR 0xE3] @ ''o'')
          | Some p \<Rightarrow> if p = [] then js (''Padr'' @ [CHR 0xE3] @ ''o'') else p)) EV_info
       (setState (\<lambda>s. s\<lparr>activePersona := persona, chatHistory := []\<rparr>) S)"




text \<open>The text fragment of one chunk, if it has one.\<close>

definition fragmentOf :: "Chunk \<Rightarrow> jsstring option" where
  "fragmentOf c = (case chunk_text c of None \<Rightarrow> None | Some t \<Rightarrow> if t = [] then None else Some t)"


text \<open>The service when the loop over the stream starts, and the loop's variables then.\<close>

definition streaming :: "jsstring \<Rightarrow> StateService \<Rightarrow> StateService" where
  "streaming message S =
     setState (\<lambda>s. s\<lparr>chatHistory := chatHistory s @ [modelMessage]\<rparr>)
       (call (SendMessageStream message)
          (setState (\<lambda>s. s\<lparr>isChatting := True,
                              chatHistory := chatHistory s @ [userMessage message],
                              searchResults := []\<rparr>) S))"

definition turnStart :: turn where
  "turnStart = \<lparr>accumulatedText = [], commandProcessed = False, allSearchResults = []\<rparr>"


section \<open>The directive grammars, as texts\<close>

text \<open>
  The text of a generate directive with the given count digits, white space after the colon
  and prompt, and the text of an edit directive.
\<close>

definition generateDirective :: "jsstring \<Rightarrow> jsstring \<Rightarrow> jsstring \<Rightarrow> jsstring" where
  "generateDirective digits space prompt =
     js ''[generate_images('' @ digits @ js ''):'' @ space @ [0x27] @ prompt @ [0x27, 0x5D]"

definition editDirective :: "jsstring \<Rightarrow> jsstring \<Rightarrow> jsstring" where
  "editDirective space prompt = js ''[edit_image:'' @ space @ [0x27] @ prompt @ [0x27, 0x5D]"

text \<open>
  The grammars in the specification's words: \<^verbatim>\<open>[generate_images(<N>): '<prompt>']\<close> with \<open>N\<close> a
  positive integer written in digits and the prompt a text without a quote, and
  \<^verbatim>\<open>[edit_image: '<prompt>']\<close>; exact, so one space follows the colon. A buffer holds a
  well-formed directive when such a text occurs in it.
\<close>

definition spec_wellFormedDirective :: "jsstring \<Rightarrow> bool" where
  "spec_wellFormedDirective buffer \<longleftrightarrow>
     (\<exists>digits prompt.
        digits \<noteq> [] \<and> (\<forall>c\<in>set digits. isDigit c) \<and> 0 < parseInt digits \<and>
        prompt \<noteq> [] \<and> 0x27 \<notin> set prompt \<and>
        sublist (generateDirective digits (js '' '') prompt) buffer) \<or>
     (\<exists>prompt.
        prompt \<noteq> [] \<and> 0x27 \<notin> set prompt \<and>
        sublist (editDirective (js '' '') prompt) buffer)"

text \<open>
  The wider grammars of the amended claim: the count is one digit or more, zero included, and
  any run of white space, the empty one included, follows the colon.
\<close>

definition spec_directive :: "jsstring \<Rightarrow> bool" where
  "spec_directive buffer \<longleftrightarrow>
     (\<exists>digits space prompt.
        digits \<noteq> [] \<and> (\<forall>c\<in>set digits. isDigit c) \<and> (\<forall>c\<in>set space. isWhiteSpace c) \<and>
        prompt \<noteq> [] \<and> 0x27 \<notin> set prompt \<and>
        sublist (generateDirective digits space prompt) buffer) \<or>
     (\<exists>space prompt.
        (\<forall>c\<in>set space. isWhiteSpace c) \<and> prompt \<noteq> [] \<and> 0x27 \<notin> set prompt \<and>
        sublist (editDirective space prompt) buffer)"

text \<open>Directives the specification's grammar leaves out: a count of zero, and no space after
  the colon. An edit directive after a word. A workflow record whose summary is plain text.\<close>

definition zeroCount :: jsstring where
  "zeroCount = js (''[generate_images(0): '' @ [CHR 0x27] @ ''cats'' @ [CHR 0x27] @ '']'')"

definition noSpace :: jsstring where
  "noSpace = js (''[generate_images(2):'' @ [CHR 0x27] @ ''cats'' @ [CHR 0x27] @ '']'')"

definition editHat :: jsstring where
  "editHat = js (''Ok [edit_image: '' @ [CHR 0x27] @ ''add a hat'' @ [CHR 0x27] @ '']'')"

definition workflowPlain :: Analysis where
  "workflowPlain = \<lparr>a_id = js ''w3'', a_title = js ''Plain'', a_source = js ''plain.mp4'',
     a_summary = js ''Three steps.'', a_type = T_workflow, a_persona = P_assistant,
     a_previewData = None, a_tags = None\<rparr>"


section \<open>Lists of code units\<close>

lemma trim_empty_iff: "trim s = [] \<longleftrightarrow> (\<forall>c\<in>set s. isWhiteSpace c)"
proof
  assume "trim s = []"
  then have all: "\<forall>x\<in>set (dropWhile isWhiteSpace s). isWhiteSpace x"
    by (simp add: trim_def dropWhile_eq_Nil_conv)
  have "dropWhile isWhiteSpace s = []"
  proof (rule ccontr)
    assume ne: "dropWhile isWhiteSpace s \<noteq> []"
    then have "\<not> isWhiteSpace (hd (dropWhile isWhiteSpace s))" by (rule hd_dropWhile)
    moreover have "hd (dropWhile isWhiteSpace s) \<in> set (dropWhile isWhiteSpace s)"
      using ne by simp
    ultimately show False using all by blast
  qed
  then show "\<forall>c\<in>set s. isWhiteSpace c" by (simp add: dropWhile_eq_Nil_conv)
next
  assume "\<forall>c\<in>set s. isWhiteSpace c"
  then have d: "dropWhile isWhiteSpace s = []" by (simp add: dropWhile_eq_Nil_conv)
  show "trim s = []" unfolding trim_def d by simp
qed

lemma sublist_inside: "sublist x m \<Longrightarrow> sublist x (a @ m @ b)"
  by (meson sublist_appendI sublist_order.order_trans)

lemma sublist_mid: "sublist x (a @ x @ b)"
  by (rule sublist_appendI)

lemma sublist_grow: "sublist x a \<Longrightarrow> sublist x (a @ b)"
  using sublist_inside[of x a "[]" b] by simp

lemma sublist_set: "sublist xs ys \<Longrightarrow> set xs \<subseteq> set ys"
  by (auto simp: sublist_def)

section \<open>The composer\<close>

subsection \<open>What an instruction contains\<close>

lemma getSingle_title:
  "getSingleSystemInstruction E a = Inr single \<Longrightarrow> sublist (a_title a) single"
  by (auto simp: getSingleSystemInstruction_def Let_def sublist_mid split: if_splits sum.splits)

lemma getSingle_summary:
  "getSingleSystemInstruction E a = Inr single \<Longrightarrow> a_persona a = P_analyst \<or> a_type a \<noteq> T_workflow \<Longrightarrow>
   sublist (a_summary a) single"
proof -
  have mid: "\<And>h t m s r. sublist s (h @ t @ m @ s @ r)"
    by (metis append.assoc sublist_appendI)
  show "getSingleSystemInstruction E a = Inr single \<Longrightarrow> a_persona a = P_analyst \<or> a_type a \<noteq> T_workflow \<Longrightarrow>
   sublist (a_summary a) single"
    by (auto simp: getSingleSystemInstruction_def Let_def mid split: if_splits)
qed

lemma getSingle_total:
  "a_persona a = P_analyst \<or> a_type a \<noteq> T_workflow \<Longrightarrow> \<exists>single. getSingleSystemInstruction E a = Inr single"
  by (auto simp: getSingleSystemInstruction_def Let_def)

lemma contentSummary_plain:
  "a_type a \<noteq> T_workflow \<Longrightarrow> contentSummary E a = JString (a_summary a)"
  by (simp add: contentSummary_def)

lemma source_block_title: "sublist (a_title a) (source_block i a shown)"
proof -
  have "source_block i a shown =
      (js (''--- IN'' @ [CHR 0xCD] @ ''CIO DA FONTE '') @ decimal (i + 1) @ js ('': '' @ [CHR 0x22])) @
      a_title a @ (js ([CHR 0x22] @ '' ('') @ typeName (a_type a) @ js '') ---\<newline>'' @
        shown @ js ''\<newline>'' @ js ''--- FIM DA FONTE '' @ decimal (i + 1) @ js '' ---\<newline>\<newline>'')"
    by (simp add: source_block_def)
  then show ?thesis by (simp only: sublist_appendI)
qed

lemma source_block_shown: "sublist shown (source_block i a shown)"
proof -
  have "source_block i a shown =
      (js (''--- IN'' @ [CHR 0xCD] @ ''CIO DA FONTE '') @ decimal (i + 1) @ js ('': '' @ [CHR 0x22]) @
      a_title a @ js ([CHR 0x22] @ '' ('') @ typeName (a_type a) @ js '') ---\<newline>'') @
        shown @ (js ''\<newline>'' @ js ''--- FIM DA FONTE '' @ decimal (i + 1) @ js '' ---\<newline>\<newline>'')"
    by (simp add: source_block_def)
  then show ?thesis by (simp only: sublist_appendI)
qed

lemma forEach_source_contains:
  "forEach_source E i as sofar = Inr out \<Longrightarrow>
     (\<forall>x. sublist x sofar \<longrightarrow> sublist x out) \<and>
     (\<forall>a\<in>set as. sublist (a_title a) out \<and> (a_type a \<noteq> T_workflow \<longrightarrow> sublist (a_summary a) out))"
proof (induction as arbitrary: i sofar)
  case Nil
  then show ?case by simp
next
  case (Cons a as)
  from Cons.prems obtain shown where
    shown: "ToString E (contentSummary E a) = Inr shown" and
    rest: "forEach_source E (i + 1) as (sofar @ source_block i a shown) = Inr out"
    by (auto split: sum.splits)
  from Cons.IH[OF rest] have
    keep: "\<And>x. sublist x (sofar @ source_block i a shown) \<Longrightarrow> sublist x out" and
    tail: "\<forall>b\<in>set as. sublist (a_title b) out \<and> (a_type b \<noteq> T_workflow \<longrightarrow> sublist (a_summary b) out)"
    by auto
  have "sublist (a_title a) (sofar @ source_block i a shown)"
    using sublist_inside[OF source_block_title, where a = sofar and b = "[]"] by simp
  then have title: "sublist (a_title a) out" by (rule keep)
  have summary: "sublist (a_summary a) out" if "a_type a \<noteq> T_workflow"
  proof -
    from that shown have "shown = a_summary a" by (simp add: contentSummary_plain)
    then have "sublist (a_summary a) (sofar @ source_block i a shown)"
      using sublist_inside[OF source_block_shown, where a = sofar and b = "[]"] by simp
    then show ?thesis by (rule keep)
  qed
  have "\<And>x. sublist x sofar \<Longrightarrow> sublist x out"
    using keep sublist_grow by blast
  with title summary tail show ?case by auto
qed

lemma forEach_source_total:
  "\<forall>a\<in>set as. a_type a \<noteq> T_workflow \<Longrightarrow> \<exists>out. forEach_source E i as sofar = Inr out"
  by (induction as arbitrary: i sofar) (auto simp: contentSummary_plain)

lemma compose_Nil:
  "generateCompositeSystemInstruction E [] p =
     (if personaPrefix E p \<noteq> [] then
        Inr (personaPrefix E p @ generic_persona_lead @ generic_instruction @ TOOL_INSTRUCTIONS)
      else Inr (generic_instruction @ TOOL_INSTRUCTIONS))"
  by (simp add: generateCompositeSystemInstruction_def Let_def)

lemma compose_single:
  "generateCompositeSystemInstruction E [a] p =
     (case getSingleSystemInstruction E a of
        Inl e \<Rightarrow> Inl e
      | Inr single \<Rightarrow> Inr (personaPrefix E p @ single @ TOOL_INSTRUCTIONS))"
  by (simp add: generateCompositeSystemInstruction_def Let_def)

lemma compose_multi:
  "generateCompositeSystemInstruction E (a # b # rest) p =
     (case forEach_source E 0 (a # b # rest) multi_header of
        Inl e \<Rightarrow> Inl e
      | Inr sources \<Rightarrow> Inr (personaPrefix E p @ sources @ multi_footer @ TOOL_INSTRUCTIONS))"
  by (simp add: generateCompositeSystemInstruction_def Let_def)

lemma compose_total:
  assumes "\<forall>a\<in>set as. a_type a \<noteq> T_workflow"
  shows "\<exists>out. generateCompositeSystemInstruction E as p = Inr out"
proof (cases as)
  case Nil
  then show ?thesis by (simp add: compose_Nil)
next
  case (Cons a rest)
  show ?thesis
  proof (cases rest)
    case Nil
    with assms Cons obtain single where "getSingleSystemInstruction E a = Inr single"
      using getSingle_total[of a E] by auto
    with Nil Cons show ?thesis by (simp add: compose_single)
  next
    case (Cons b rest')
    from forEach_source_total[OF assms] obtain srcs where
      "forEach_source E 0 as multi_header = Inr srcs" by blast
    with Cons \<open>as = a # rest\<close> show ?thesis by (simp add: compose_multi del: forEach_source.simps)
  qed
qed

lemma compose_contains:
  assumes "generateCompositeSystemInstruction E as p = Inr out" and "a \<in> set as"
  shows "sublist (a_title a) out"
    and "a_type a \<noteq> T_workflow \<or> (length as = 1 \<and> a_persona a = P_analyst) \<Longrightarrow> sublist (a_summary a) out"
proof -
  have "sublist (a_title a) out \<and>
    (a_type a \<noteq> T_workflow \<or> (length as = 1 \<and> a_persona a = P_analyst) \<longrightarrow> sublist (a_summary a) out)"
  proof (cases as)
    case Nil
    with assms(2) show ?thesis by simp
  next
    case (Cons b rest)
    show ?thesis
    proof (cases rest)
      case Nil
      with Cons assms(2) have ab: "as = [a]" by simp
      from assms(1) ab obtain single where
        s: "getSingleSystemInstruction E a = Inr single" and
        o: "out = personaPrefix E p @ single @ TOOL_INSTRUCTIONS"
        by (auto simp: compose_single split: sum.splits)
      show ?thesis
        using getSingle_title[OF s] getSingle_summary[OF s]
        by (auto simp: o intro: sublist_inside)
    next
      case (Cons c rest')
      with \<open>as = b # rest\<close> have as: "as = b # c # rest'" by simp
      from assms(1) obtain srcs where
        s: "forEach_source E 0 as multi_header = Inr srcs" and
        o: "out = personaPrefix E p @ srcs @ multi_footer @ TOOL_INSTRUCTIONS"
        unfolding as by (auto simp: compose_multi simp del: forEach_source.simps split: sum.splits)
      from forEach_source_contains[OF s] assms(2) have
        "sublist (a_title a) srcs" "a_type a \<noteq> T_workflow \<longrightarrow> sublist (a_summary a) srcs"
        by auto
      then show ?thesis by (auto simp: o as intro: sublist_inside)
    qed
  qed
  then show "sublist (a_title a) out"
    and "a_type a \<noteq> T_workflow \<or> (length as = 1 \<and> a_persona a = P_analyst) \<Longrightarrow> sublist (a_summary a) out"
    by auto
qed


subsection \<open>Literals\<close>

lemma of_char_less_256: "(of_char c :: nat) < 256"
proof -
  have "(of_char c :: nat) mod 256 < 256" by simp
  then show ?thesis by (simp only: of_char_mod_256)
qed

lemma unat_of_char: "unat (of_char c :: 16 word) = of_char c"
proof -
  have "unat (of_nat (of_char c) :: 16 word) = of_char c mod 2 ^ 16"
    by (simp add: unat_of_nat)
  moreover have "(of_char c :: nat) < 2 ^ 16"
    by (rule less_trans[OF of_char_less_256]) simp
  ultimately show ?thesis by (simp add: of_nat_of_char)
qed

lemma of_char_word_eq_iff: "(of_char c :: 16 word) = of_char d \<longleftrightarrow> c = d"
proof
  assume "(of_char c :: 16 word) = of_char d"
  then have "unat (of_char c :: 16 word) = unat (of_char d :: 16 word)" by simp
  then show "c = d" by (simp add: unat_of_char)
qed simp

lemma js_eq_iff: "js a = js b \<longleftrightarrow> a = b"
proof -
  have "inj (of_char :: char \<Rightarrow> 16 word)" by (rule injI) (simp add: of_char_word_eq_iff)
  then show ?thesis by (simp add: js_def inj_map_eq_map)
qed

lemma js_Nil_iff: "js s = [] \<longleftrightarrow> s = []"
  by (simp add: js_def)

lemmas json_eval =
  JSON_parse_def skip_ws_def isJsonWhiteSpace_def js_def parse_number_def parse_int_def
  parse_frac_def parse_exp_def parse_digits_def isDigit_def hexValue_def simpleEscape_def

lemma js_append: "js (a @ b) = js a @ js b"
  by (simp add: js_def)

lemma set_js: "set (js s) = of_char ` set s"
  by (simp add: js_def)

lemma js_brace: "(0x7B \<in> set (js s)) = (CHR 0x7B \<in> set s)"
proof -
  have "(0x7B :: 16 word) = of_char (CHR 0x7B)" by simp
  then show ?thesis by (auto simp only: set_js of_char_word_eq_iff)
qed

lemma no_brace:
  "0x7B \<notin> set workflow_head" "0x7B \<notin> set workflow_mid" "0x7B \<notin> set workflow_tail"
  "0x7B \<notin> set enrichmentInstruction" "0x7B \<notin> set detailInstruction" "0x7B \<notin> set TOOL_INSTRUCTIONS"
  by (simp_all only: js_brace workflow_head_def workflow_mid_def workflow_tail_def
      enrichmentInstruction_def detailInstruction_def TOOL_INSTRUCTIONS_def) simp_all


subsection \<open>The composer on the two workflow records\<close>

lemma parse_envelopeOk: "JSON_parse envelopeOk = Inr (JObject [(js ''summary'', JString (js ''ok''))])"
  by (simp add: envelopeOk_def json_eval)

lemma parse_envelopeBad:
  "JSON_parse envelopeBad = Inr (JObject [(js ''summary'', JObject [(js ''toString'', JNumber (js ''0''))])])"
  by (simp add: envelopeBad_def json_eval)

lemma workflowSummary_envelopeOk: "workflowSummary E envelopeOk = JString (js ''ok'')"
  by (simp add: workflowSummary_def parse_envelopeOk js_eq_iff js_Nil_iff)

lemma workflowSummary_envelopeBad:
  "workflowSummary E envelopeBad = JObject [(js ''toString'', JNumber (js ''0''))]"
  by (simp add: workflowSummary_def parse_envelopeBad js_eq_iff)

lemma compose_workflowOk:
  "generateCompositeSystemInstruction E [workflowOk] None =
     Inr (workflow_head @ js ''Flow'' @ workflow_mid @ js ''ok'' @ workflow_tail @
          enrichmentInstruction @ detailInstruction @ TOOL_INSTRUCTIONS)"
  by (simp add: compose_single getSingleSystemInstruction_def workflowOk_def workflowSummary_envelopeOk
      personaPrefix_def)

lemma compose_workflowBad:
  "generateCompositeSystemInstruction E [workflowBad] None = Inl TypeError"
  by (simp add: compose_single getSingleSystemInstruction_def workflowBad_def workflowSummary_envelopeBad)

lemma compose_workflowBad_multi:
  "generateCompositeSystemInstruction E [notesDoc, workflowBad] None = Inl TypeError"
  by (simp add: compose_multi contentSummary_def workflowBad_def notesDoc_def parse_envelopeBad js_eq_iff)

lemma C5_cex: "\<not> sublist (a_summary workflowOk) (workflow_head @ js ''Flow'' @ workflow_mid @ js ''ok'' @ workflow_tail @
          enrichmentInstruction @ detailInstruction @ TOOL_INSTRUCTIONS)"
proof
  assume "sublist (a_summary workflowOk) (workflow_head @ js ''Flow'' @ workflow_mid @ js ''ok'' @ workflow_tail @
          enrichmentInstruction @ detailInstruction @ TOOL_INSTRUCTIONS)"
  then have "set (a_summary workflowOk) \<subseteq> set (workflow_head @ js ''Flow'' @ workflow_mid @ js ''ok'' @ workflow_tail @
          enrichmentInstruction @ detailInstruction @ TOOL_INSTRUCTIONS)"
    by (rule sublist_set)
  moreover have "0x7B \<in> set (a_summary workflowOk)"
    by (simp add: workflowOk_def envelopeOk_def js_brace)
  ultimately have "0x7B \<in> set (workflow_head @ js ''Flow'' @ workflow_mid @ js ''ok'' @ workflow_tail @
          enrichmentInstruction @ detailInstruction @ TOOL_INSTRUCTIONS)" by blast
  then show False
    by (simp add: no_brace js_brace)
qed

lemma generic_differs: "generic_instruction @ x \<noteq> default_head @ y"
proof -
  have "take 29 (generic_instruction @ x) \<noteq> take 29 (default_head @ y)"
    by (simp add: generic_instruction_def default_head_def js_def)
  then show ?thesis by metis
qed

section \<open>The orchestrator\<close>

subsection \<open>What each step leaves alone\<close>

lemma relevantAnalyses_cong:
  "analyses s' = analyses s \<Longrightarrow> selectedAnalysisId s' = selectedAnalysisId s \<Longrightarrow>
   relevantAnalyses s' = relevantAnalyses s"
  by (simp add: relevantAnalyses_def cong: option.case_cong if_cong)

lemma relevantAnalyses_subset: "set (relevantAnalyses s) \<subseteq> set (analyses s)"
proof -
  have "\<And>P x xs. Some x = find P xs \<Longrightarrow> x \<in> set xs"
    by (metis find_Some_iff nth_mem)
  then show ?thesis
    by (auto simp: relevantAnalyses_def split: option.splits if_splits)
qed

lemma updateSystemInstruction_frame:
  "analyses (state (snd (updateSystemInstruction E S))) = analyses (state S)"
  "selectedAnalysisId (state (snd (updateSystemInstruction E S))) = selectedAnalysisId (state S)"
  "activePersona (state (snd (updateSystemInstruction E S))) = activePersona (state S)"
  "chatHistory (state (snd (updateSystemInstruction E S))) = chatHistory (state S)"
  by (simp_all add: updateSystemInstruction_def setState_def split: sum.splits)

lemma updateSystemInstruction_current:
  "updateSystemInstruction E S = (None, S') \<Longrightarrow> instructionCurrent E S'"
  by (auto simp: updateSystemInstruction_def instructionCurrent_def setState_def
      relevantAnalyses_cong[of "_\<lparr>systemInstruction := _\<rparr>"] split: sum.splits)

lemma updateSystemInstruction_returns:
  "generateCompositeSystemInstruction E (relevantAnalyses (state S)) (activePersona (state S)) = Inr out \<Longrightarrow>
   updateSystemInstruction E S = (None, setState (\<lambda>s. s\<lparr>systemInstruction := out\<rparr>) S)"
  by (simp add: updateSystemInstruction_def)


lemma initializeTextChat_frame:
  "analyses (state (initializeTextChat S)) = analyses (state S)"
  "selectedAnalysisId (state (initializeTextChat S)) = selectedAnalysisId (state S)"
  "activePersona (state (initializeTextChat S)) = activePersona (state S)"
  "chatHistory (state (initializeTextChat S)) = chatHistory (state S)"
  "systemInstruction (state (initializeTextChat S)) = systemInstruction (state S)"
  by (simp_all add: initializeTextChat_def setState_def call_def Let_def)

lemma updateStatus_frame:
  "analyses (state (updateStatus m S)) = analyses (state S)"
  "selectedAnalysisId (state (updateStatus m S)) = selectedAnalysisId (state S)"
  "activePersona (state (updateStatus m S)) = activePersona (state S)"
  "chatHistory (state (updateStatus m S)) = chatHistory (state S)"
  "systemInstruction (state (updateStatus m S)) = systemInstruction (state S)"
  by (simp_all add: updateStatus_def setState_def Let_def)

lemma logEvent_frame:
  "analyses (state (logEvent m t S)) = analyses (state S)"
  "selectedAnalysisId (state (logEvent m t S)) = selectedAnalysisId (state S)"
  "activePersona (state (logEvent m t S)) = activePersona (state S)"
  "chatHistory (state (logEvent m t S)) = chatHistory (state S)"
  "systemInstruction (state (logEvent m t S)) = systemInstruction (state S)"
  by (simp_all add: logEvent_def setState_def Let_def)

lemma stopRecording_frame:
  "analyses (state (stopRecording S)) = analyses (state S)"
  "selectedAnalysisId (state (stopRecording S)) = selectedAnalysisId (state S)"
  "activePersona (state (stopRecording S)) = activePersona (state S)"
  "chatHistory (state (stopRecording S)) = chatHistory (state S)"
  "systemInstruction (state (stopRecording S)) = systemInstruction (state S)"
  by (simp_all add: stopRecording_def setState_def call_def Let_def updateStatus_frame logEvent_frame)

lemma instructionCurrent_cong:
  "analyses (state S') = analyses (state S) \<Longrightarrow>
   selectedAnalysisId (state S') = selectedAnalysisId (state S) \<Longrightarrow>
   activePersona (state S') = activePersona (state S) \<Longrightarrow>
   systemInstruction (state S') = systemInstruction (state S) \<Longrightarrow>
   instructionCurrent E S' = instructionCurrent E S"
  by (simp add: instructionCurrent_def relevantAnalyses_cong[of "state S'" "state S"])

lemma resetSession_parts:
  "resetSession E S =
     andThen (updateSystemInstruction E (beforeRecompute S)) (\<lambda>S4. (None, afterRecompute S4))"
  by (simp add: resetSession_def Let_def beforeRecompute_def afterRecompute_def)

lemma beforeRecompute_frame:
  "analyses (state (beforeRecompute S)) = analyses (state S)"
  "selectedAnalysisId (state (beforeRecompute S)) = selectedAnalysisId (state S)"
  "activePersona (state (beforeRecompute S)) = activePersona (state S)"
  "chatHistory (state (beforeRecompute S)) = chatHistory (state S)"
  "systemInstruction (state (beforeRecompute S)) = systemInstruction (state S)"
  by (simp_all add: beforeRecompute_def setState_def call_def stopRecording_frame split: option.splits)

lemma afterRecompute_frame:
  "analyses (state (afterRecompute S)) = analyses (state S)"
  "selectedAnalysisId (state (afterRecompute S)) = selectedAnalysisId (state S)"
  "activePersona (state (afterRecompute S)) = activePersona (state S)"
  "chatHistory (state (afterRecompute S)) = chatHistory (state S)"
  "systemInstruction (state (afterRecompute S)) = systemInstruction (state S)"
  by (simp_all add: afterRecompute_def updateStatus_frame initializeTextChat_frame)

lemma resetSession_frame:
  "analyses (state (snd (resetSession E S))) = analyses (state S)"
  "selectedAnalysisId (state (snd (resetSession E S))) = selectedAnalysisId (state S)"
  "activePersona (state (snd (resetSession E S))) = activePersona (state S)"
  "chatHistory (state (snd (resetSession E S))) = chatHistory (state S)"
proof -
  obtain e S4 where u: "updateSystemInstruction E (beforeRecompute S) = (e, S4)"
    by (cases "updateSystemInstruction E (beforeRecompute S)")
  have f4: "analyses (state S4) = analyses (state S)"
    "selectedAnalysisId (state S4) = selectedAnalysisId (state S)"
    "activePersona (state S4) = activePersona (state S)"
    "chatHistory (state S4) = chatHistory (state S)"
    using updateSystemInstruction_frame[of E "beforeRecompute S"]
    by (simp_all add: u beforeRecompute_frame)
  show "analyses (state (snd (resetSession E S))) = analyses (state S)"
    "selectedAnalysisId (state (snd (resetSession E S))) = selectedAnalysisId (state S)"
    "activePersona (state (snd (resetSession E S))) = activePersona (state S)"
    "chatHistory (state (snd (resetSession E S))) = chatHistory (state S)"
    by (cases e; simp add: resetSession_parts u andThen_def f4 afterRecompute_frame)+
qed

lemma resetSession_current:
  assumes "resetSession E S = (None, S')"
  shows "instructionCurrent E S'"
proof -
  from assms obtain S5 where u: "updateSystemInstruction E (beforeRecompute S) = (None, S5)"
    and s': "S' = afterRecompute S5"
    by (auto simp: resetSession_parts andThen_def split: prod.splits option.splits)
  have "instructionCurrent E S5" using u by (rule updateSystemInstruction_current)
  moreover have "instructionCurrent E S' = instructionCurrent E S5"
    unfolding s' by (rule instructionCurrent_cong) (simp_all add: afterRecompute_frame)
  ultimately show ?thesis by simp
qed

text \<open>The recomputation inside \<open>resetSession\<close> returns when the one before it did: it reads the
  same records and the same persona.\<close>

lemma resetSession_returns:
  assumes "generateCompositeSystemInstruction E (relevantAnalyses (state S)) (activePersona (state S)) = Inr out"
  shows "resetSession E S =
     (None, afterRecompute (setState (\<lambda>s. s\<lparr>systemInstruction := out\<rparr>) (beforeRecompute S)))"
proof -
  have "relevantAnalyses (state (beforeRecompute S)) = relevantAnalyses (state S)"
    by (rule relevantAnalyses_cong) (simp_all add: beforeRecompute_frame)
  with assms have "updateSystemInstruction E (beforeRecompute S) =
      (None, setState (\<lambda>s. s\<lparr>systemInstruction := out\<rparr>) (beforeRecompute S))"
    by (simp add: updateSystemInstruction_returns beforeRecompute_frame)
  then show ?thesis by (simp add: resetSession_parts andThen_def)
qed

subsection \<open>Selection and persona\<close>

lemma selecting_frame:
  "analyses (state (selecting ident S)) = analyses (state S)"
  "selectedAnalysisId (state (selecting ident S)) = ident"
  "activePersona (state (selecting ident S)) = activePersona (state S)"
  "chatHistory (state (selecting ident S)) = []"
  by (simp_all add: selecting_def updateVisualizerPanelVisibility_def setState_def)

lemma setSelectedAnalysisId_same:
  "selectedAnalysisId (state S) = ident \<Longrightarrow> setSelectedAnalysisId E ident S = (None, S)"
  by (simp add: setSelectedAnalysisId_def)

lemma setSelectedAnalysisId_other:
  "selectedAnalysisId (state S) \<noteq> ident \<Longrightarrow>
   setSelectedAnalysisId E ident S =
     andThen (updateSystemInstruction E (selecting ident S))
       (\<lambda>S3. andThen (resetSession E S3) (\<lambda>S4. (None, initializeTextChat S4)))"
  by (simp add: setSelectedAnalysisId_def Let_def selecting_def)

lemma andThen_frame:
  assumes "\<And>S. P (snd (f S)) = P S" and "\<And>S. P (snd (g S)) = P S"
  shows "P (snd (andThen (f S) g)) = P S"
proof (cases "f S")
  case (Pair e S1)
  with assms(1)[of S] have "P S1 = P S" by simp
  with Pair assms(2)[of S1] show ?thesis by (cases e) (simp_all add: andThen_def)
qed

lemma afterUpdate_frame:
  "analyses (state (snd (andThen (updateSystemInstruction E S)
      (\<lambda>S3. andThen (resetSession E S3) (\<lambda>S4. (None, initializeTextChat S4)))))) = analyses (state S)"
  "selectedAnalysisId (state (snd (andThen (updateSystemInstruction E S)
      (\<lambda>S3. andThen (resetSession E S3) (\<lambda>S4. (None, initializeTextChat S4)))))) = selectedAnalysisId (state S)"
  "activePersona (state (snd (andThen (updateSystemInstruction E S)
      (\<lambda>S3. andThen (resetSession E S3) (\<lambda>S4. (None, initializeTextChat S4)))))) = activePersona (state S)"
  "chatHistory (state (snd (andThen (updateSystemInstruction E S)
      (\<lambda>S3. andThen (resetSession E S3) (\<lambda>S4. (None, initializeTextChat S4)))))) = chatHistory (state S)"
proof -
  have inner: "\<And>P :: StateService \<Rightarrow> 'x. (\<And>S. P (snd (resetSession E S)) = P S) \<Longrightarrow>
      (\<And>S. P (initializeTextChat S) = P S) \<Longrightarrow>
      (\<And>S. P (snd (andThen (resetSession E S) (\<lambda>S4. (None, initializeTextChat S4)))) = P S)"
    by (rule andThen_frame) simp_all
  have outer: "\<And>P :: StateService \<Rightarrow> 'x. (\<And>S. P (snd (updateSystemInstruction E S)) = P S) \<Longrightarrow>
      (\<And>S. P (snd (resetSession E S)) = P S) \<Longrightarrow>
      (\<And>S. P (initializeTextChat S) = P S) \<Longrightarrow>
      P (snd (andThen (updateSystemInstruction E S)
        (\<lambda>S3. andThen (resetSession E S3) (\<lambda>S4. (None, initializeTextChat S4))))) = P S"
    by (rule andThen_frame) (simp_all add: inner)
  show "analyses (state (snd (andThen (updateSystemInstruction E S)
      (\<lambda>S3. andThen (resetSession E S3) (\<lambda>S4. (None, initializeTextChat S4)))))) = analyses (state S)"
    by (rule outer[of "\<lambda>S. analyses (state S)"])
      (simp_all add: updateSystemInstruction_frame resetSession_frame initializeTextChat_frame)
  show "selectedAnalysisId (state (snd (andThen (updateSystemInstruction E S)
      (\<lambda>S3. andThen (resetSession E S3) (\<lambda>S4. (None, initializeTextChat S4)))))) = selectedAnalysisId (state S)"
    by (rule outer[of "\<lambda>S. selectedAnalysisId (state S)"])
      (simp_all add: updateSystemInstruction_frame resetSession_frame initializeTextChat_frame)
  show "activePersona (state (snd (andThen (updateSystemInstruction E S)
      (\<lambda>S3. andThen (resetSession E S3) (\<lambda>S4. (None, initializeTextChat S4)))))) = activePersona (state S)"
    by (rule outer[of "\<lambda>S. activePersona (state S)"])
      (simp_all add: updateSystemInstruction_frame resetSession_frame initializeTextChat_frame)
  show "chatHistory (state (snd (andThen (updateSystemInstruction E S)
      (\<lambda>S3. andThen (resetSession E S3) (\<lambda>S4. (None, initializeTextChat S4)))))) = chatHistory (state S)"
    by (rule outer[of "\<lambda>S. chatHistory (state S)"])
      (simp_all add: updateSystemInstruction_frame resetSession_frame initializeTextChat_frame)
qed

lemma afterUpdate_current:
  assumes "andThen (updateSystemInstruction E S)
      (\<lambda>S3. andThen (resetSession E S3) (\<lambda>S4. (None, initializeTextChat S4))) = (None, S')"
  shows "instructionCurrent E S'"
proof -
  from assms obtain S3 S4 where "resetSession E S3 = (None, S4)" and s': "S' = initializeTextChat S4"
    by (auto simp: andThen_def split: prod.splits option.splits)
  then have "instructionCurrent E S4" by (simp add: resetSession_current)
  moreover have "instructionCurrent E S' = instructionCurrent E S4"
    unfolding s' by (rule instructionCurrent_cong) (simp_all add: initializeTextChat_frame)
  ultimately show ?thesis by simp
qed

lemma afterUpdate_returns:
  assumes "generateCompositeSystemInstruction E (relevantAnalyses (state S)) (activePersona (state S)) = Inr out"
  shows "fst (andThen (updateSystemInstruction E S)
      (\<lambda>S3. andThen (resetSession E S3) (\<lambda>S4. (None, initializeTextChat S4)))) = None"
proof -
  let ?S3 = "setState (\<lambda>s. s\<lparr>systemInstruction := out\<rparr>) S"
  have u: "updateSystemInstruction E S = (None, ?S3)"
    using assms by (rule updateSystemInstruction_returns)
  have "relevantAnalyses (state ?S3) = relevantAnalyses (state S)"
    by (rule relevantAnalyses_cong) (simp_all add: setState_def)
  with assms have "generateCompositeSystemInstruction E (relevantAnalyses (state ?S3))
      (activePersona (state ?S3)) = Inr out"
    by (simp add: setState_def)
  from resetSession_returns[OF this] u show ?thesis by (simp add: andThen_def)
qed

lemma setSelectedAnalysisId_frame:
  "analyses (state (snd (setSelectedAnalysisId E ident S))) = analyses (state S)"
  "selectedAnalysisId (state (snd (setSelectedAnalysisId E ident S))) = ident"
  "activePersona (state (snd (setSelectedAnalysisId E ident S))) = activePersona (state S)"
  "selectedAnalysisId (state S) \<noteq> ident \<Longrightarrow> chatHistory (state (snd (setSelectedAnalysisId E ident S))) = []"
  by (cases "selectedAnalysisId (state S) = ident";
      simp add: setSelectedAnalysisId_same setSelectedAnalysisId_other afterUpdate_frame selecting_frame)+

lemma setSelectedAnalysisId_current:
  assumes "setSelectedAnalysisId E ident S = (None, S')" and "instructionCurrent E S"
  shows "instructionCurrent E S'"
proof (cases "selectedAnalysisId (state S) = ident")
  case True
  with assms show ?thesis by (simp add: setSelectedAnalysisId_same)
next
  case False
  with assms(1) show ?thesis by (simp add: setSelectedAnalysisId_other afterUpdate_current)
qed

lemma setPersona_parts:
  "setPersona E persona S =
     andThen (updateSystemInstruction E (personaSet persona S))
       (\<lambda>S3. andThen (resetSession E S3) (\<lambda>S4. (None, initializeTextChat S4)))"
  by (simp add: setPersona_def Let_def personaSet_def)

lemma personaSet_frame:
  "analyses (state (personaSet persona S)) = analyses (state S)"
  "selectedAnalysisId (state (personaSet persona S)) = selectedAnalysisId (state S)"
  "activePersona (state (personaSet persona S)) = persona"
  "chatHistory (state (personaSet persona S)) = []"
  by (simp_all add: personaSet_def logEvent_frame) (simp_all add: setState_def)

lemma setPersona_frame:
  "analyses (state (snd (setPersona E persona S))) = analyses (state S)"
  "selectedAnalysisId (state (snd (setPersona E persona S))) = selectedAnalysisId (state S)"
  "activePersona (state (snd (setPersona E persona S))) = persona"
  "chatHistory (state (snd (setPersona E persona S))) = []"
  by (simp_all add: setPersona_parts afterUpdate_frame personaSet_frame)

lemma setPersona_current:
  "setPersona E persona S = (None, S') \<Longrightarrow> instructionCurrent E S'"
  by (simp add: setPersona_parts afterUpdate_current)

lemma perform_current:
  "perform E i S = (None, S') \<Longrightarrow> instructionCurrent E S \<Longrightarrow> instructionCurrent E S'"
  by (cases i) (auto intro: setSelectedAnalysisId_current setPersona_current)

lemma performAll_current:
  "performAll E intents S = (None, S') \<Longrightarrow> instructionCurrent E S \<Longrightarrow> instructionCurrent E S'"
proof (induction intents arbitrary: S)
  case Nil
  then show ?case by simp
next
  case (Cons i rest)
  from Cons.prems(1) obtain S1 where
    one: "perform E i S = (None, S1)" and more: "performAll E rest S1 = (None, S')"
    by (auto simp: andThen_def split: prod.splits option.splits)
  from perform_current[OF one Cons.prems(2)] Cons.IH[OF more] show ?case by simp
qed

lemma performAll_take:
  "performAll E intents S = (None, S') \<Longrightarrow> \<exists>S''. performAll E (take n intents) S = (None, S'')"
proof (induction intents arbitrary: S n)
  case Nil
  then show ?case by simp
next
  case (Cons i rest)
  from Cons.prems(1) obtain S1 where
    one: "perform E i S = (None, S1)" and more: "performAll E rest S1 = (None, S')"
    by (auto simp: andThen_def split: prod.splits option.splits)
  show ?case
  proof (cases n)
    case 0
    then show ?thesis by simp
  next
    case (Suc m)
    from Cons.IH[OF more, of m] obtain S'' where "performAll E (take m rest) S1 = (None, S'')" ..
    with one Suc show ?thesis by (simp add: andThen_def)
  qed
qed

text \<open>With no workflow record in the store the composer returns, and so does every call.\<close>

lemma perform_returns:
  assumes "\<forall>a\<in>set (analyses (state S)). a_type a \<noteq> T_workflow"
  shows "fst (perform E i S) = None" and "analyses (state (snd (perform E i S))) = analyses (state S)"
proof -
  have total: "\<And>S'. analyses (state S') = analyses (state S) \<Longrightarrow>
      \<exists>out. generateCompositeSystemInstruction E (relevantAnalyses (state S')) (activePersona (state S')) = Inr out"
  proof -
    fix S' assume "analyses (state S') = analyses (state S)"
    with assms relevantAnalyses_subset[of "state S'"]
    have "\<forall>a\<in>set (relevantAnalyses (state S')). a_type a \<noteq> T_workflow" by auto
    then show "\<exists>out. generateCompositeSystemInstruction E (relevantAnalyses (state S')) (activePersona (state S')) = Inr out"
      by (rule compose_total)
  qed
  show "fst (perform E i S) = None"
  proof (cases i)
    case (SetSelectedAnalysisId ident)
    show ?thesis
    proof (cases "selectedAnalysisId (state S) = ident")
      case True
      with SetSelectedAnalysisId show ?thesis by (simp add: setSelectedAnalysisId_same)
    next
      case False
      from total[of "selecting ident S"] obtain out where
        "generateCompositeSystemInstruction E (relevantAnalyses (state (selecting ident S)))
           (activePersona (state (selecting ident S))) = Inr out"
        by (auto simp: selecting_frame)
      from afterUpdate_returns[OF this] False SetSelectedAnalysisId show ?thesis
        by (simp add: setSelectedAnalysisId_other)
    qed
  next
    case (SetPersona persona)
    from total[of "personaSet persona S"] obtain out where
      "generateCompositeSystemInstruction E (relevantAnalyses (state (personaSet persona S)))
         (activePersona (state (personaSet persona S))) = Inr out"
      by (auto simp: personaSet_frame)
    from afterUpdate_returns[OF this] SetPersona show ?thesis
      by (simp add: setPersona_parts)
  qed
  show "analyses (state (snd (perform E i S))) = analyses (state S)"
    by (cases i) (simp_all add: setSelectedAnalysisId_frame setPersona_frame)
qed

lemma performAll_returns:
  "\<forall>a\<in>set (analyses (state S)). a_type a \<noteq> T_workflow \<Longrightarrow> fst (performAll E intents S) = None"
proof (induction intents arbitrary: S)
  case Nil
  then show ?case by simp
next
  case (Cons i rest)
  obtain e S1 where p: "perform E i S = (e, S1)" by (cases "perform E i S")
  from perform_returns[OF Cons.prems, of E i] p have "e = None" "analyses (state S1) = analyses (state S)"
    by simp_all
  with Cons.prems Cons.IH[of S1] p show ?case by (simp add: andThen_def)
qed


section \<open>The derived instruction after a selection or persona change\<close>

lemma spec_selection_relevant:
  "selectedAnalysisId s \<noteq> Some [] \<Longrightarrow> relevantAnalyses s = spec_selection s"
  by (auto simp: relevantAnalyses_def spec_selection_def split: option.splits)

lemma relevantAnalyses_blank: "selectedAnalysisId s = Some [] \<Longrightarrow> relevantAnalyses s = []"
  by (simp add: relevantAnalyses_def)

lemma idleService_current: "instructionCurrent E idleService"
  by (simp add: instructionCurrent_def idleService_def initialState_def relevantAnalyses_def compose_Nil
      personaPrefix_def)

lemma withStore_fields:
  "analyses (state (withStore as S)) = as"
  "selectedAnalysisId (state (withStore as S)) = selectedAnalysisId (state S)"
  "activePersona (state (withStore as S)) = activePersona (state S)"
  "systemInstruction (state (withStore as S)) = systemInstruction (state S)"
  "chatHistory (state (withStore as S)) = chatHistory (state S)"
  "calls (withStore as S) = calls S"
  "session (withStore as S) = session S"
  "textChatSession (withStore as S) = textChatSession S"
  "isRecording (state (withStore as S)) = isRecording (state S)"
  "isChatting (state (withStore as S)) = isChatting (state S)"
  "lastGeneratedImages (state (withStore as S)) = lastGeneratedImages (state S)"
  by (simp_all add: withStore_def)

lemma idleService_fields:
  "analyses (state idleService) = []"
  "selectedAnalysisId (state idleService) = None"
  "activePersona (state idleService) = None"
  "systemInstruction (state idleService) = generic_instruction @ TOOL_INSTRUCTIONS"
  "chatHistory (state idleService) = []"
  "isChatting (state idleService) = False"
  "isRecording (state idleService) = False"
  "lastGeneratedImages (state idleService) = []"
  "session idleService = None"
  "calls idleService = [ChatsCreate [] (generic_instruction @ TOOL_INSTRUCTIONS)]"
  by (simp_all add: idleService_def initialState_def)

lemma withStore_idle_current: "instructionCurrent E (withStore as idleService)"
  by (simp add: instructionCurrent_def relevantAnalyses_def withStore_fields idleService_fields
      compose_Nil personaPrefix_def)

text \<open>
  Claim C1, as amended. Start from a state whose instruction is current, as the constructor
  leaves it, and run any sequence of \<open>setSelectedAnalysisId\<close> and \<open>setPersona\<close> calls that all
  return. After each call the instruction in the state is what
  \<open>generateCompositeSystemInstruction\<close> returns for the active persona and the records
  \<open>updateSystemInstruction\<close> selects: the first record whose id is the selected id when that
  id is neither \<open>null\<close> nor the empty string and is in the store, no record otherwise.
\<close>

theorem C1_instruction_current:
  assumes "instructionCurrent E S" and "performAll E intents S = (None, S')"
  shows "\<forall>n\<le>length intents. \<exists>S''. performAll E (take n intents) S = (None, S'') \<and> instructionCurrent E S''"
proof (intro allI impI)
  fix n assume "n \<le> length intents"
  from performAll_take[OF assms(2), of n] obtain S'' where
    run: "performAll E (take n intents) S = (None, S'')" ..
  from performAll_current[OF run assms(1)] run
  show "\<exists>S''. performAll E (take n intents) S = (None, S'') \<and> instructionCurrent E S''" by blast
qed

text \<open>The theorem at a store that holds one document: the document is selected, then the
  persona is set, and the instruction is current after both calls.\<close>

theorem C1_instruction_current_witness:
  "\<forall>E. \<exists>S'. performAll E [SetSelectedAnalysisId (Some (js ''a1'')), SetPersona (Some (js ''tutor''))]
           (withStore [notesDoc] idleService) = (None, S') \<and> instructionCurrent E S'"
proof
  fix E
  let ?intents = "[SetSelectedAnalysisId (Some (js ''a1'')), SetPersona (Some (js ''tutor''))]"
  let ?S = "withStore [notesDoc] idleService"
  have "\<forall>a\<in>set (analyses (state ?S)). a_type a \<noteq> T_workflow"
    by (simp add: withStore_fields notesDoc_def)
  then have "fst (performAll E ?intents ?S) = None" by (rule performAll_returns)
  then obtain S' where run: "performAll E ?intents ?S = (None, S')"
    by (cases "performAll E ?intents ?S") simp
  from C1_instruction_current [OF withStore_idle_current run, rule_format, of 2]
  have "\<exists>S''. performAll E (take 2 ?intents) ?S = (None, S'') \<and> instructionCurrent E S''" by simp
  then show "\<exists>S'. performAll E ?intents ?S = (None, S') \<and> instructionCurrent E S'" by simp
qed

text \<open>
  The claim as the specification words it fails where a record's id is the empty string:
  the store holds such a record, nothing is selected and the instruction is current;
  \<open>setSelectedAnalysisId('')\<close> returns, the selected id is then in the store and not \<open>null\<close>,
  and the instruction is the one composed for no record.
\<close>

theorem C1_counterexample:
  "\<forall>E. spec_instructionCurrent E (withStore [blankIdDoc] idleService) \<and>
       fst (setSelectedAnalysisId E (Some []) (withStore [blankIdDoc] idleService)) = None \<and>
       \<not> spec_instructionCurrent E (snd (setSelectedAnalysisId E (Some []) (withStore [blankIdDoc] idleService)))"
proof (intro allI conjI)
  fix E
  let ?S = "withStore [blankIdDoc] idleService"
  let ?r = "setSelectedAnalysisId E (Some []) ?S"
  show "spec_instructionCurrent E ?S"
    by (simp add: spec_instructionCurrent_def spec_selection_def withStore_fields idleService_fields
        compose_Nil personaPrefix_def)
  have "\<forall>a\<in>set (analyses (state ?S)). a_type a \<noteq> T_workflow"
    by (simp add: withStore_fields blankIdDoc_def notesDoc_def)
  from perform_returns(1)[OF this, of E "SetSelectedAnalysisId (Some [])"]
  show none: "fst ?r = None" by simp
  then have run: "?r = (None, snd ?r)" by (cases ?r) simp
  have sel: "selectedAnalysisId (state (snd ?r)) = Some []"
    and store: "analyses (state (snd ?r)) = [blankIdDoc]"
    and persona: "activePersona (state (snd ?r)) = None"
    by (simp_all add: setSelectedAnalysisId_frame withStore_fields idleService_fields)
  have "instructionCurrent E (snd ?r)"
    using run withStore_idle_current by (rule setSelectedAnalysisId_current)
  then have ins: "Inr (systemInstruction (state (snd ?r))) = Inr (generic_instruction @ TOOL_INSTRUCTIONS)"
    by (simp add: instructionCurrent_def relevantAnalyses_blank[OF sel] persona compose_Nil personaPrefix_def)
  have blank: "a_id blankIdDoc = []" by (simp add: blankIdDoc_def)
  have "spec_selection (state (snd ?r)) = [blankIdDoc]"
    unfolding spec_selection_def sel store by (simp add: blank)
  moreover have "generateCompositeSystemInstruction E [blankIdDoc] None =
      Inr (default_head @ a_title blankIdDoc @ default_mid @ a_summary blankIdDoc @ default_tail @
           enrichmentInstruction @ detailInstruction @ TOOL_INSTRUCTIONS)"
    by (simp add: compose_single getSingleSystemInstruction_def blankIdDoc_def notesDoc_def personaPrefix_def)
  moreover have "generic_instruction @ TOOL_INSTRUCTIONS \<noteq>
      default_head @ a_title blankIdDoc @ default_mid @ a_summary blankIdDoc @ default_tail @
           enrichmentInstruction @ detailInstruction @ TOOL_INSTRUCTIONS"
    by (rule generic_differs)
  ultimately show "\<not> spec_instructionCurrent E (snd ?r)"
    using ins by (simp add: spec_instructionCurrent_def persona)
qed


subsection \<open>The calls a context switch makes\<close>



lemma initializeTextChat_calls:
  "calls (initializeTextChat S) =
     calls S @ [ChatsCreate (seedHistory (chatHistory (state S))) (systemInstruction (state S))]"
  "session (initializeTextChat S) = session S"
  "textChatSession (initializeTextChat S) =
     Some \<lparr>chat_history = seedHistory (chatHistory (state S)),
           chat_systemInstruction = systemInstruction (state S)\<rparr>"
  by (simp_all add: initializeTextChat_def Let_def setState_def call_def)





section \<open>Removing the selected record\<close>

lemma firstIdOrNull_filter: "firstIdOrNull (filter (\<lambda>a. a_id a \<noteq> i) as) \<noteq> Some i"
proof (cases "filter (\<lambda>a. a_id a \<noteq> i) as")
  case Nil
  then show ?thesis by (simp add: firstIdOrNull_def)
next
  case (Cons a rest)
  then have "a \<in> set (filter (\<lambda>a. a_id a \<noteq> i) as)" by simp
  then have "a_id a \<noteq> i" by simp
  with Cons show ?thesis by (simp add: firstIdOrNull_def)
qed

lemma firstIdOrNull_spec:
  "as = [] \<or> a_id (hd as) \<noteq> [] \<Longrightarrow> firstIdOrNull as = spec_firstId as"
  by (cases as) (auto simp: firstIdOrNull_def spec_firstId_def)

text \<open>
  Claim C3, as amended. Whatever the state, \<open>removeAnalysis\<close> called with the selected id
  leaves the store without the records of that id, selects the id of the first record that
  remains when that id is not the empty string, selects \<open>null\<close> when no record remains or the
  first one's id is the empty string, and leaves the chat history empty; this holds of the
  state the call leaves whether it returns or ends in an exception of the composer.
\<close>

theorem C3_removeAnalysis_selected:
  assumes "selectedAnalysisId (state S) = Some i"
  shows "analyses (state (snd (removeAnalysis E i S))) = filter (\<lambda>a. a_id a \<noteq> i) (analyses (state S)) \<and>
         selectedAnalysisId (state (snd (removeAnalysis E i S))) =
           firstIdOrNull (filter (\<lambda>a. a_id a \<noteq> i) (analyses (state S))) \<and>
         chatHistory (state (snd (removeAnalysis E i S))) = []"
proof -
  let ?remaining = "filter (\<lambda>a. a_id a \<noteq> i) (analyses (state S))"
  let ?S2 = "logEvent (js ''Contexto removido.'') EV_info (setState (\<lambda>s. s\<lparr>analyses := ?remaining\<rparr>) S)"
  have r: "removeAnalysis E i S = setSelectedAnalysisId E (firstIdOrNull ?remaining) ?S2"
    using assms by (simp add: removeAnalysis_def Let_def)
  have s2: "analyses (state ?S2) = ?remaining" "selectedAnalysisId (state ?S2) = Some i"
    using assms by (simp_all add: logEvent_frame) (simp_all add: setState_def)
  have "selectedAnalysisId (state ?S2) \<noteq> firstIdOrNull ?remaining"
    using firstIdOrNull_filter[of i "analyses (state S)"] by (simp add: s2)
  then show ?thesis
    unfolding r by (simp add: setSelectedAnalysisId_frame s2)
qed

text \<open>The theorem at a store of two records, the first one selected: the second one's id is
  selected after the removal.\<close>

theorem C3_removeAnalysis_selected_witness:
  "\<forall>E. analyses (state (snd (removeAnalysis E (js ''a1'')
           (withSelection (Some (js ''a1'')) (withStore [notesDoc, talkVideo] idleService))))) = [talkVideo] \<and>
       selectedAnalysisId (state (snd (removeAnalysis E (js ''a1'')
           (withSelection (Some (js ''a1'')) (withStore [notesDoc, talkVideo] idleService))))) = Some (js ''a2'') \<and>
       chatHistory (state (snd (removeAnalysis E (js ''a1'')
           (withSelection (Some (js ''a1'')) (withStore [notesDoc, talkVideo] idleService))))) = []"
proof
  fix E
  let ?S = "withSelection (Some (js ''a1'')) (withStore [notesDoc, talkVideo] idleService)"
  have sel: "selectedAnalysisId (state ?S) = Some (js ''a1'')"
    by (simp add: withSelection_def)
  have store: "analyses (state ?S) = [notesDoc, talkVideo]"
    by (simp add: withSelection_def withStore_def)
  have rem: "filter (\<lambda>a. a_id a \<noteq> js ''a1'') [notesDoc, talkVideo] = [talkVideo]"
    by (simp add: notesDoc_def talkVideo_def js_eq_iff)
  have first: "firstIdOrNull [talkVideo] = Some (js ''a2'')"
    by (simp add: firstIdOrNull_def talkVideo_def js_Nil_iff)
  show "analyses (state (snd (removeAnalysis E (js ''a1'') ?S))) = [talkVideo] \<and>
       selectedAnalysisId (state (snd (removeAnalysis E (js ''a1'') ?S))) = Some (js ''a2'') \<and>
       chatHistory (state (snd (removeAnalysis E (js ''a1'') ?S))) = []"
    using C3_removeAnalysis_selected [OF sel, of E] unfolding store rem first .
qed

text \<open>The claim as the specification words it fails where the first record that remains has
  the empty string for its id: the specification selects that id, the program \<open>null\<close>.\<close>

theorem C3_counterexample:
  "\<forall>E. spec_firstId (filter (\<lambda>a. a_id a \<noteq> js ''a1'') [notesDoc, blankIdDoc]) = Some [] \<and>
       selectedAnalysisId (state (snd (removeAnalysis E (js ''a1'')
           (withSelection (Some (js ''a1'')) (withStore [notesDoc, blankIdDoc] idleService))))) = None"
proof (intro allI conjI)
  fix E
  let ?S = "withSelection (Some (js ''a1'')) (withStore [notesDoc, blankIdDoc] idleService)"
  have ids: "a_id notesDoc = js ''a1''" "a_id blankIdDoc = []" "js ''a1'' \<noteq> []"
    by (simp_all add: notesDoc_def blankIdDoc_def js_def)
  have rem: "filter (\<lambda>a. a_id a \<noteq> js ''a1'') [notesDoc, blankIdDoc] = [blankIdDoc]"
    using ids(3) by (simp add: ids(1,2))
  show "spec_firstId (filter (\<lambda>a. a_id a \<noteq> js ''a1'') [notesDoc, blankIdDoc]) = Some []"
    unfolding rem by (simp add: spec_firstId_def ids)
  let ?S2 = "logEvent (js ''Contexto removido.'') EV_info (setState (\<lambda>s. s\<lparr>analyses := [blankIdDoc]\<rparr>) ?S)"
  have store: "analyses (state ?S) = [notesDoc, blankIdDoc]"
    and sel: "selectedAnalysisId (state ?S) = Some (js ''a1'')"
    by (simp_all add: withSelection_def withStore_def)
  have "removeAnalysis E (js ''a1'') ?S = setSelectedAnalysisId E (firstIdOrNull [blankIdDoc]) ?S2"
    unfolding removeAnalysis_def Let_def store sel rem by simp
  then show "selectedAnalysisId (state (snd (removeAnalysis E (js ''a1'') ?S))) = None"
    by (simp add: setSelectedAnalysisId_frame firstIdOrNull_def ids)
qed


section \<open>Saving a session and loading it again\<close>









section \<open>What a composed instruction contains\<close>

subsection \<open>What a workflow record shows\<close>

lemma getSingle_shows:
  assumes "getSingleSystemInstruction E a = Inr single" and "a_type a = T_workflow"
    and "a_persona a \<noteq> P_analyst"
  shows "\<exists>shown. ToString E (workflowSummary E (a_summary a)) = Inr shown \<and> sublist shown single"
proof -
  have mid: "\<And>h t m s r. sublist s (h @ t @ m @ s @ r)"
    by (metis append.assoc sublist_appendI)
  from assms show ?thesis
    by (auto simp: getSingleSystemInstruction_def Let_def mid split: sum.splits)
qed

lemma forEach_source_shows:
  "forEach_source E i as sofar = Inr out \<Longrightarrow>
     (\<forall>x. sublist x sofar \<longrightarrow> sublist x out) \<and>
     (\<forall>a\<in>set as. \<exists>shown. ToString E (contentSummary E a) = Inr shown \<and> sublist shown out)"
proof (induction as arbitrary: i sofar)
  case Nil
  then show ?case by simp
next
  case (Cons a as)
  from Cons.prems obtain shown where
    shown: "ToString E (contentSummary E a) = Inr shown" and
    rest: "forEach_source E (i + 1) as (sofar @ source_block i a shown) = Inr out"
    by (auto split: sum.splits)
  from Cons.IH[OF rest] have
    keep: "\<And>x. sublist x (sofar @ source_block i a shown) \<Longrightarrow> sublist x out" and
    tail: "\<forall>b\<in>set as. \<exists>shown. ToString E (contentSummary E b) = Inr shown \<and> sublist shown out"
    by auto
  have "sublist shown (sofar @ source_block i a shown)"
    using sublist_inside[OF source_block_shown, where a = sofar and b = "[]"] by simp
  then have "sublist shown out" by (rule keep)
  with shown have here: "\<exists>shown. ToString E (contentSummary E a) = Inr shown \<and> sublist shown out"
    by blast
  have "\<And>x. sublist x sofar \<Longrightarrow> sublist x out"
    using keep sublist_grow by blast
  with here tail show ?case by auto
qed

lemma compose_shows:
  assumes "generateCompositeSystemInstruction E as p = Inr out" and "a \<in> set as"
    and "a_type a = T_workflow" and "\<not> (length as = 1 \<and> a_persona a = P_analyst)"
  shows "\<exists>shown. sublist shown out \<and>
           (if length as = 1 then ToString E (workflowSummary E (a_summary a))
            else ToString E (contentSummary E a)) = Inr shown"
proof (cases as)
  case Nil
  with assms(2) show ?thesis by simp
next
  case (Cons b rest)
  show ?thesis
  proof (cases rest)
    case Nil
    with Cons assms(2) have ab: "as = [a]" by simp
    from assms(1) ab obtain single where
      s: "getSingleSystemInstruction E a = Inr single" and
      o: "out = personaPrefix E p @ single @ TOOL_INSTRUCTIONS"
      by (auto simp: compose_single split: sum.splits)
    from assms(4) ab have "a_persona a \<noteq> P_analyst" by simp
    from getSingle_shows[OF s assms(3) this] obtain shown where
      "ToString E (workflowSummary E (a_summary a)) = Inr shown" "sublist shown single" by blast
    then show ?thesis by (auto simp: o ab intro: sublist_inside)
  next
    case (Cons c rest')
    with \<open>as = b # rest\<close> have as: "as = b # c # rest'" by simp
    from assms(1) obtain srcs where
      s: "forEach_source E 0 as multi_header = Inr srcs" and
      o: "out = personaPrefix E p @ srcs @ multi_footer @ TOOL_INSTRUCTIONS"
      unfolding as by (auto simp: compose_multi simp del: forEach_source.simps split: sum.splits)
    from forEach_source_shows[OF s] assms(2) obtain shown where
      "ToString E (contentSummary E a) = Inr shown" "sublist shown srcs" by blast
    then show ?thesis by (auto simp: o as intro: sublist_inside)
  qed
qed

text \<open>The value the \<open>try\<close> block leaves, by the cases of the payload, in the single instruction
  and in a source block.\<close>

lemma workflowSummary_cases:
  assumes "ToString E (workflowSummary E summary) = Inr shown"
  shows "case JSON_parse summary of
           Inl e \<Rightarrow> shown = js ''Ocorreu um erro ao processar o resumo do fluxo de trabalho.''
         | Inr parsed \<Rightarrow>
             (case Get parsed (js ''summary_base64'') of
                Inl e \<Rightarrow> shown = js ''Ocorreu um erro ao processar o resumo do fluxo de trabalho.''
              | Inr b64 \<Rightarrow>
                  if truthy E b64 then
                    (case decode_summary_base64 E (the b64) of
                       Inl e \<Rightarrow> shown = js ''Ocorreu um erro ao processar o resumo do fluxo de trabalho.''
                     | Inr s \<Rightarrow> shown = s)
                  else
                    (case Get parsed (js ''summary'') of
                       Inl e \<Rightarrow> shown = js ''Ocorreu um erro ao processar o resumo do fluxo de trabalho.''
                     | Inr sm \<Rightarrow>
                         if truthy E sm then ToString E (the sm) = Inr shown
                         else shown = js ''O resumo do fluxo de trabalho estava vazio.''))"
  using assms
  by (auto simp: workflowSummary_def workflowSummary_error_def workflowSummary_empty_def
      split: sum.splits)

lemma contentSummary_cases:
  assumes "ToString E (contentSummary E a) = Inr shown" and "a_type a = T_workflow"
  shows "case JSON_parse (a_summary a) of
           Inl e \<Rightarrow> shown = js ''Erro ao processar o resumo do fluxo de trabalho.''
         | Inr parsed \<Rightarrow>
             (case Get parsed (js ''summary_base64'') of
                Inl e \<Rightarrow> shown = js ''Erro ao processar o resumo do fluxo de trabalho.''
              | Inr b64 \<Rightarrow>
                  if truthy E b64 then
                    (case base64ToString E (the b64) of
                       Inl e \<Rightarrow> shown = js ''Erro ao processar o resumo do fluxo de trabalho.''
                     | Inr s \<Rightarrow> shown = s)
                  else
                    (case Get parsed (js ''summary'') of
                       Inl e \<Rightarrow> shown = js ''Erro ao processar o resumo do fluxo de trabalho.''
                     | Inr sm \<Rightarrow>
                         if truthy E sm then ToString E (the sm) = Inr shown
                         else shown = js (''Resumo do fluxo de trabalho indispon'' @ [CHR 0xED] @ ''vel.'')))"
  using assms
  by (auto simp: contentSummary_def contentSummary_error_def contentSummary_unavailable_def
      split: sum.splits)

lemma parse_plain: "JSON_parse (js ''Three steps.'') = Inl SyntaxError"
  by (simp add: json_eval)

lemma compose_workflowPlain:
  "\<exists>out. generateCompositeSystemInstruction E [notesDoc, workflowPlain] None = Inr out"
  by (simp add: compose_multi contentSummary_def workflowPlain_def notesDoc_def parse_plain)

subsection \<open>The instruction\<close>

text \<open>
  Claim C5, as amended. For every list of analyses and every persona: an instruction the
  composer returns contains, verbatim, the title of every supplied record and the summary of
  every supplied record that is not of type workflow, and of a single supplied record whose
  persona is analyst. In place of the summary of any other workflow record it contains the
  decoded payload or a placeholder: the error text when the summary is not JSON, its value
  is \<open>null\<close> or the decoding of a \<open>summary_base64\<close> member fails; the decoded text of a truthy
  \<open>summary_base64\<close> member; else the text of a truthy \<open>summary\<close> member; else the text that says
  the summary is empty (the two placeholders have one wording in the instruction for a single
  record and another in a source block). The composer returns an instruction whenever no
  supplied record is of type workflow; and for the empty list the instruction is the generic
  text after the persona preamble, without a record's content.
\<close>

theorem C5_instruction_contains:
  "(generateCompositeSystemInstruction E as p = Inr out \<longrightarrow>
      (\<forall>a\<in>set as. sublist (a_title a) out \<and>
         (a_type a \<noteq> T_workflow \<or> (length as = 1 \<and> a_persona a = P_analyst) \<longrightarrow>
            sublist (a_summary a) out) \<and>
         (a_type a = T_workflow \<and> \<not> (length as = 1 \<and> a_persona a = P_analyst) \<longrightarrow>
            (\<exists>shown. sublist shown out \<and>
               (let failed = (if length as = 1
                              then js ''Ocorreu um erro ao processar o resumo do fluxo de trabalho.''
                              else js ''Erro ao processar o resumo do fluxo de trabalho.'');
                    empty = (if length as = 1
                             then js ''O resumo do fluxo de trabalho estava vazio.''
                             else js (''Resumo do fluxo de trabalho indispon'' @ [CHR 0xED] @ ''vel.''));
                    decoded = (if length as = 1 then decode_summary_base64 E else base64ToString E)
                in case JSON_parse (a_summary a) of
                     Inl e \<Rightarrow> shown = failed
                   | Inr parsed \<Rightarrow>
                       (case Get parsed (js ''summary_base64'') of
                          Inl e \<Rightarrow> shown = failed
                        | Inr b64 \<Rightarrow>
                            if truthy E b64 then
                              (case decoded (the b64) of Inl e \<Rightarrow> shown = failed | Inr s \<Rightarrow> shown = s)
                            else
                              (case Get parsed (js ''summary'') of
                                 Inl e \<Rightarrow> shown = failed
                               | Inr sm \<Rightarrow>
                                   if truthy E sm then ToString E (the sm) = Inr shown
                                   else shown = empty))))))) \<and>
   ((\<forall>a\<in>set as. a_type a \<noteq> T_workflow) \<longrightarrow>
      (\<exists>instruction. generateCompositeSystemInstruction E as p = Inr instruction)) \<and>
   generateCompositeSystemInstruction E [] p =
     Inr ((if personaPrefix E p \<noteq> [] then personaPrefix E p @ generic_persona_lead else []) @
          generic_instruction @ TOOL_INSTRUCTIONS)"
proof (intro conjI impI ballI)
  fix a assume out: "generateCompositeSystemInstruction E as p = Inr out" and a: "a \<in> set as"
  show "sublist (a_title a) out" by (rule compose_contains(1)[OF out a])
  show "sublist (a_summary a) out"
    if "a_type a \<noteq> T_workflow \<or> (length as = 1 \<and> a_persona a = P_analyst)"
    by (rule compose_contains(2)[OF out a that])
  assume w: "a_type a = T_workflow \<and> \<not> (length as = 1 \<and> a_persona a = P_analyst)"
  from compose_shows[OF out a] w obtain shown where
    shown: "sublist shown out"
      "(if length as = 1 then ToString E (workflowSummary E (a_summary a))
        else ToString E (contentSummary E a)) = Inr shown"
    by blast
  show "\<exists>shown. sublist shown out \<and>
               (let failed = (if length as = 1
                              then js ''Ocorreu um erro ao processar o resumo do fluxo de trabalho.''
                              else js ''Erro ao processar o resumo do fluxo de trabalho.'');
                    empty = (if length as = 1
                             then js ''O resumo do fluxo de trabalho estava vazio.''
                             else js (''Resumo do fluxo de trabalho indispon'' @ [CHR 0xED] @ ''vel.''));
                    decoded = (if length as = 1 then decode_summary_base64 E else base64ToString E)
                in case JSON_parse (a_summary a) of
                     Inl e \<Rightarrow> shown = failed
                   | Inr parsed \<Rightarrow>
                       (case Get parsed (js ''summary_base64'') of
                          Inl e \<Rightarrow> shown = failed
                        | Inr b64 \<Rightarrow>
                            if truthy E b64 then
                              (case decoded (the b64) of Inl e \<Rightarrow> shown = failed | Inr s \<Rightarrow> shown = s)
                            else
                              (case Get parsed (js ''summary'') of
                                 Inl e \<Rightarrow> shown = failed
                               | Inr sm \<Rightarrow>
                                   if truthy E sm then ToString E (the sm) = Inr shown
                                   else shown = empty)))"
  proof (cases "length as = 1")
    case True
    with shown(2) have "ToString E (workflowSummary E (a_summary a)) = Inr shown" by simp
    then show ?thesis
      unfolding Let_def if_P[OF True]
      by (intro exI[of _ shown] conjI shown(1) workflowSummary_cases)
  next
    case False
    with shown(2) have "ToString E (contentSummary E a) = Inr shown" by simp
    moreover from w have "a_type a = T_workflow" ..
    ultimately show ?thesis
      unfolding Let_def if_not_P[OF False]
      by (intro exI[of _ shown] conjI shown(1) contentSummary_cases)
  qed
next
  assume "\<forall>a\<in>set as. a_type a \<noteq> T_workflow"
  then show "\<exists>instruction. generateCompositeSystemInstruction E as p = Inr instruction"
    by (rule compose_total)
next
  show "generateCompositeSystemInstruction E [] p =
     Inr ((if personaPrefix E p \<noteq> [] then personaPrefix E p @ generic_persona_lead else []) @
          generic_instruction @ TOOL_INSTRUCTIONS)"
    by (simp add: compose_Nil)
qed

text \<open>The theorem at a document and a video, whose titles and summaries are in the
  instruction; at the workflow record whose summary is \<^verbatim>\<open>{"summary":"ok"}\<close>, whose instruction
  holds the title and the decoded \<^verbatim>\<open>ok\<close>; and at a document beside a workflow record whose
  summary is plain text, whose source block holds the error text.\<close>

theorem C5_instruction_contains_witness:
  "\<forall>E. (\<exists>out. generateCompositeSystemInstruction E [notesDoc, talkVideo] None = Inr out \<and>
          sublist (js ''Notes'') out \<and> sublist (js ''Three points.'') out \<and>
          sublist (js ''Talk'') out \<and> sublist (js ''One hour.'') out) \<and>
       (\<exists>out. generateCompositeSystemInstruction E [workflowOk] None = Inr out \<and>
          sublist (js ''Flow'') out \<and> sublist (js ''ok'') out) \<and>
       (\<exists>out. generateCompositeSystemInstruction E [notesDoc, workflowPlain] None = Inr out \<and>
          sublist (js ''Notes'') out \<and> sublist (js ''Three points.'') out \<and>
          sublist (js ''Plain'') out \<and>
          sublist (js ''Erro ao processar o resumo do fluxo de trabalho.'') out)"
proof (intro allI conjI)
  fix E
  have plain: "\<forall>a\<in>set [notesDoc, talkVideo]. a_type a \<noteq> T_workflow"
    by (simp add: notesDoc_def talkVideo_def)
  with C5_instruction_contains [of E "[notesDoc, talkVideo]" None]
  obtain out where out: "generateCompositeSystemInstruction E [notesDoc, talkVideo] None = Inr out"
    by blast
  from C5_instruction_contains [of E "[notesDoc, talkVideo]" None out] out plain
  have "\<forall>a\<in>set [notesDoc, talkVideo]. sublist (a_title a) out \<and> sublist (a_summary a) out"
    by blast
  then have "sublist (js ''Notes'') out \<and> sublist (js ''Three points.'') out \<and>
       sublist (js ''Talk'') out \<and> sublist (js ''One hour.'') out"
    by (simp add: notesDoc_def talkVideo_def)
  with out show "\<exists>out. generateCompositeSystemInstruction E [notesDoc, talkVideo] None = Inr out \<and>
       sublist (js ''Notes'') out \<and> sublist (js ''Three points.'') out \<and>
       sublist (js ''Talk'') out \<and> sublist (js ''One hour.'') out"
    by blast
next
  fix E
  obtain out where out: "generateCompositeSystemInstruction E [workflowOk] None = Inr out"
    using compose_workflowOk[of E] by blast
  have w: "a_type workflowOk = T_workflow" "a_persona workflowOk = P_assistant"
    "a_title workflowOk = js ''Flow''" "a_summary workflowOk = envelopeOk"
    by (simp_all add: workflowOk_def)
  from C5_instruction_contains [of E "[workflowOk]" None out] out
  have "sublist (js ''Flow'') out \<and> sublist (js ''ok'') out"
    by (simp add: w parse_envelopeOk js_eq_iff js_Nil_iff)
  with out show "\<exists>out. generateCompositeSystemInstruction E [workflowOk] None = Inr out \<and>
          sublist (js ''Flow'') out \<and> sublist (js ''ok'') out"
    by blast
next
  fix E
  obtain out where out: "generateCompositeSystemInstruction E [notesDoc, workflowPlain] None = Inr out"
    using compose_workflowPlain[of E] by blast
  have w: "a_type workflowPlain = T_workflow" "a_title workflowPlain = js ''Plain''"
    "a_summary workflowPlain = js ''Three steps.''"
    "a_type notesDoc = T_file" "a_title notesDoc = js ''Notes''" "a_summary notesDoc = js ''Three points.''"
    by (simp_all add: workflowPlain_def notesDoc_def)
  from C5_instruction_contains [of E "[notesDoc, workflowPlain]" None out] out
  have "sublist (js ''Notes'') out \<and> sublist (js ''Three points.'') out \<and>
          sublist (js ''Plain'') out \<and>
          sublist (js ''Erro ao processar o resumo do fluxo de trabalho.'') out"
    by (simp add: w parse_plain)
  with out show "\<exists>out. generateCompositeSystemInstruction E [notesDoc, workflowPlain] None = Inr out \<and>
          sublist (js ''Notes'') out \<and> sublist (js ''Three points.'') out \<and>
          sublist (js ''Plain'') out \<and>
          sublist (js ''Erro ao processar o resumo do fluxo de trabalho.'') out"
    by blast
qed

text \<open>
  The claim as the specification words it fails on a workflow record: the instruction
  composed for the record whose summary is \<^verbatim>\<open>{"summary":"ok"}\<close> holds the decoded \<^verbatim>\<open>ok\<close> between
  the knowledge markers, and the summary's text is not in it.
\<close>

theorem C5_counterexample:
  "\<forall>E. generateCompositeSystemInstruction E [workflowOk] None =
         Inr (workflow_head @ js ''Flow'' @ workflow_mid @ js ''ok'' @ workflow_tail @
              enrichmentInstruction @ detailInstruction @ TOOL_INSTRUCTIONS) \<and>
       \<not> sublist (a_summary workflowOk)
           (workflow_head @ js ''Flow'' @ workflow_mid @ js ''ok'' @ workflow_tail @
            enrichmentInstruction @ detailInstruction @ TOOL_INSTRUCTIONS)"
proof (intro allI conjI)
  fix E
  show "generateCompositeSystemInstruction E [workflowOk] None =
         Inr (workflow_head @ js ''Flow'' @ workflow_mid @ js ''ok'' @ workflow_tail @
              enrichmentInstruction @ detailInstruction @ TOOL_INSTRUCTIONS)"
    by (rule compose_workflowOk)
  show "\<not> sublist (a_summary workflowOk)
           (workflow_head @ js ''Flow'' @ workflow_mid @ js ''ok'' @ workflow_tail @
            enrichmentInstruction @ detailInstruction @ TOOL_INSTRUCTIONS)"
  proof
    assume "sublist (a_summary workflowOk)
           (workflow_head @ js ''Flow'' @ workflow_mid @ js ''ok'' @ workflow_tail @
            enrichmentInstruction @ detailInstruction @ TOOL_INSTRUCTIONS)"
    then have "set (a_summary workflowOk) \<subseteq>
           set (workflow_head @ js ''Flow'' @ workflow_mid @ js ''ok'' @ workflow_tail @
            enrichmentInstruction @ detailInstruction @ TOOL_INSTRUCTIONS)"
      by (rule sublist_set)
    moreover have "0x7B \<in> set (a_summary workflowOk)"
      by (simp add: workflowOk_def envelopeOk_def js_brace)
    ultimately have "0x7B \<in> set (workflow_head @ js ''Flow'' @ workflow_mid @ js ''ok'' @
        workflow_tail @ enrichmentInstruction @ detailInstruction @ TOOL_INSTRUCTIONS)"
      by blast
    then show False by (simp add: no_brace js_brace)
  qed
qed

section \<open>A payload the composer does not survive\<close>

text \<open>What the \<open>try\<close> blocks do catch: a summary that is not JSON leaves the error text, in the
  single instruction and in a source block, and the composer returns.\<close>

lemma workflowSummary_not_json:
  "JSON_parse summary = Inl e \<Longrightarrow> workflowSummary E summary = JString workflowSummary_error"
  by (simp add: workflowSummary_def)

lemma getSingle_not_json:
  "a_type a = T_workflow \<Longrightarrow> a_persona a = P_assistant \<Longrightarrow> JSON_parse (a_summary a) = Inl e \<Longrightarrow>
   getSingleSystemInstruction E a =
     Inr (workflow_head @ a_title a @ workflow_mid @ workflowSummary_error @ workflow_tail @
          enrichmentInstruction @ detailInstruction)"
  by (simp add: getSingleSystemInstruction_def workflowSummary_not_json)

lemma contentSummary_not_json:
  "a_type a = T_workflow \<Longrightarrow> JSON_parse (a_summary a) = Inl e \<Longrightarrow>
   contentSummary E a = JString contentSummary_error"
  by (simp add: contentSummary_def)

text \<open>
  Claim C6. The composer is not total: the template that renders the decoded summary stands
  after the \<open>try\<close> block, and a payload whose \<open>summary\<close> member is an object with a member named
  \<open>toString\<close> has no string conversion. For the workflow record whose summary is
  \<^verbatim>\<open>{"summary":{"toString":0}}\<close> the composer ends in a \<open>TypeError\<close>, whatever the environment.
\<close>

theorem C6_composer_throws:
  "generateCompositeSystemInstruction E [workflowBad] None = Inl TypeError"
  by (rule compose_workflowBad)


section \<open>The seed history of a new text chat\<close>

text \<open>
  Claim C9, as amended. Every creation of the text chat seeds it with the prior chat
  history without the messages whose text is empty, each message as its role and its text,
  in order; the chat is created on the instruction the state holds. The image payloads of a
  message play no part: changing them changes nothing of the seed.
\<close>

theorem C9_seed_history:
  "textChatSession (initializeTextChat S) =
     Some \<lparr>chat_history = map (\<lambda>msg. (m_role msg, m_text msg))
                             (filter (\<lambda>msg. m_text msg \<noteq> []) (chatHistory (state S))),
           chat_systemInstruction = systemInstruction (state S)\<rparr> \<and>
   calls (initializeTextChat S) =
     calls S @ [ChatsCreate (map (\<lambda>msg. (m_role msg, m_text msg))
                                (filter (\<lambda>msg. m_text msg \<noteq> []) (chatHistory (state S))))
                            (systemInstruction (state S))] \<and>
   seedHistory (map (\<lambda>msg. msg\<lparr>m_imageUrls := images msg\<rparr>) history) = seedHistory history"
  by (simp add: initializeTextChat_calls seedHistory_def filter_map comp_def)

text \<open>
  The claim as the specification words it fails both ways: of an answer that carries an
  image beside its text and an answer without text or image, the program replays the first
  and the specification the second.
\<close>

theorem C9_counterexample:
  "seedHistory [pictureMessage, silentMessage] = [(R_model, js ''Here it is.'')] \<and>
   spec_seedHistory [pictureMessage, silentMessage] = [(R_model, [])] \<and>
   chat_history (the (textChatSession (initializeTextChat
       (withHistory [pictureMessage, silentMessage] idleService)))) = [(R_model, js ''Here it is.'')]"
  by (simp add: seedHistory_def spec_seedHistory_def pictureMessage_def silentMessage_def
      initializeTextChat_calls withHistory_def js_Nil_iff)

section \<open>The image jobs on the assistant's message\<close>

lemma lastMessage_snoc:
  assumes "chatHistory (state S) = h @ [m]"
  shows "lastMessage S = Some m"
proof (cases "chatHistory (state S)")
  case Nil
  with assms show ?thesis by simp
next
  case (Cons a b)
  then have "lastMessage S = Some (last (chatHistory (state S)))"
    by (simp add: lastMessage_def)
  with assms show ?thesis by simp
qed

lemma updateLastMessage_snoc:
  "chatHistory (state S) = h @ [m] \<Longrightarrow>
   updateLastMessage f S = S\<lparr>state := (state S)\<lparr>chatHistory := h @ [f m]\<rparr>\<rparr>"
  by (simp add: updateLastMessage_def setState_def)

text \<open>The job's own run when no generated image is held: it appends its error text to the
  assistant's message and returns.\<close>

lemma triggerImageEditing_no_image:
  assumes "chatHistory (state S) = h @ [m]" and "m_role m = R_model"
    and "lastGeneratedImages (state S) = []"
  shows "triggerImageEditing prompt S =
           S\<lparr>state := (state S)\<lparr>chatHistory := h @ [m\<lparr>m_text := m_text m @ noRecentImage\<rparr>]\<rparr>,
             calls := calls S @ [TriggerImageEditing prompt]\<rparr>"
proof -
  let ?S = "call (TriggerImageEditing prompt) S"
  have h: "chatHistory (state ?S) = h @ [m]" and g: "lastGeneratedImages (state ?S) = []"
    using assms by (simp_all add: call_def)
  have "triggerImageEditing prompt S = updateLastMessage (\<lambda>m. m\<lparr>m_text := m_text m @ noRecentImage\<rparr>) ?S"
    using assms(2) by (simp add: triggerImageEditing_def Let_def lastMessage_snoc[OF h] g)
  also have "\<dots> = ?S\<lparr>state := (state ?S)\<lparr>chatHistory := h @ [m\<lparr>m_text := m_text m @ noRecentImage\<rparr>]\<rparr>\<rparr>"
    by (rule updateLastMessage_snoc[OF h])
  finally show ?thesis by (simp add: call_def)
qed

text \<open>The generation job up to the call of the image model: it marks the assistant's message
  as loading.\<close>

lemma triggerImageGeneration_loading:
  assumes "chatHistory (state S) = h @ [m]" and "m_role m = R_model"
  shows "triggerImageGeneration prompt n S =
           S\<lparr>state := (state S)\<lparr>chatHistory :=
               h @ [m\<lparr>m_isLoadingImages := Some True, m_imageCount := Some n\<rparr>]\<rparr>,
             calls := calls S @ [TriggerImageGeneration prompt n, GenerateImages prompt n]\<rparr>"
proof -
  let ?S = "call (TriggerImageGeneration prompt n) S"
  have h: "chatHistory (state ?S) = h @ [m]" using assms by (simp add: call_def)
  have "triggerImageGeneration prompt n S =
      call (GenerateImages prompt n)
        (updateLastMessage (\<lambda>m. m\<lparr>m_isLoadingImages := Some True, m_imageCount := Some n\<rparr>) ?S)"
    using assms(2) by (simp add: triggerImageGeneration_def Let_def lastMessage_snoc[OF h])
  also have "updateLastMessage (\<lambda>m. m\<lparr>m_isLoadingImages := Some True, m_imageCount := Some n\<rparr>) ?S =
      ?S\<lparr>state := (state ?S)\<lparr>chatHistory :=
               h @ [m\<lparr>m_isLoadingImages := Some True, m_imageCount := Some n\<rparr>]\<rparr>\<rparr>"
    by (rule updateLastMessage_snoc[OF h])
  finally show ?thesis by (simp add: call_def)
qed


section \<open>The command of a turn\<close>

subsection \<open>The calls of the steps of the loop\<close>

lemma showAccumulated_calls: "calls (showAccumulated t S) = calls S"
  by (simp add: showAccumulated_def updateLastMessage_def setState_def split: option.splits)

lemma triggerImageGeneration_jobs:
  "filter isImageJob (calls (triggerImageGeneration prompt n S)) =
     filter isImageJob (calls S) @ [TriggerImageGeneration prompt n]"
  by (simp add: triggerImageGeneration_def Let_def call_def updateLastMessage_def setState_def
      split: option.splits)

lemma triggerImageEditing_jobs:
  "filter isImageJob (calls (triggerImageEditing prompt S)) =
     filter isImageJob (calls S) @ [TriggerImageEditing prompt]"
  by (simp add: triggerImageEditing_def Let_def call_def updateLastMessage_def setState_def
      split: option.splits)

text \<open>One scan: the command it dispatches, if any, is the one \<open>firstCommand\<close> names for the
  buffer.\<close>

lemma scanCommand_jobs:
  "filter isImageJob (calls (snd (scanCommand t S))) =
     filter isImageJob (calls S) @
     (case firstCommand [] [accumulatedText t] of None \<Rightarrow> [] | Some c \<Rightarrow> [c])"
  "commandProcessed (fst (scanCommand t S)) =
     (commandProcessed t \<or> firstCommand [] [accumulatedText t] \<noteq> None)"
  "firstCommand [] [accumulatedText t] = None \<Longrightarrow> scanCommand t S = (t, S)"
  by (auto simp: scanCommand_def triggerImageGeneration_jobs triggerImageEditing_jobs
      split: option.splits prod.splits)

lemma firstCommand_continues:
  "firstCommand [] [buffer @ frag] = None \<Longrightarrow>
   firstCommand buffer (frag # rest) = firstCommand (buffer @ frag) rest"
  by (simp split: option.splits prod.splits)

lemma firstCommand_decided:
  "firstCommand [] [buffer @ frag] = Some c \<Longrightarrow> firstCommand buffer (frag # rest) = Some c"
  by (simp split: option.splits prod.splits)

lemma fragments_Cons:
  "fragments (c # cs) = (case fragmentOf c of None \<Rightarrow> fragments cs | Some f \<Rightarrow> f # fragments cs)"
  by (simp add: fragments_def fragmentOf_def split: option.splits)

lemma fragments_Nil: "fragments [] = []"
  by (simp add: fragments_def)

text \<open>One chunk, by cases: it carries no fragment; a command has been processed before; the
  buffer it completes is scanned.\<close>

lemma onChunk_no_fragment:
  assumes "fragmentOf c = None"
  shows "snd (onChunk c (t, S)) = S"
    and "accumulatedText (fst (onChunk c (t, S))) = accumulatedText t"
    and "commandProcessed (fst (onChunk c (t, S))) = commandProcessed t"
  using assms
  by (auto simp: onChunk_def fragmentOf_def Let_def split: option.splits if_splits)

lemma onChunk_processed:
  assumes "fragmentOf c = Some f" and "commandProcessed t"
  shows "snd (onChunk c (t, S)) = showAccumulated (t\<lparr>accumulatedText := accumulatedText t @ f\<rparr>) S"
    and "commandProcessed (fst (onChunk c (t, S)))"
    and "accumulatedText (fst (onChunk c (t, S))) = accumulatedText t @ f"
  using assms
  by (auto simp: onChunk_def fragmentOf_def Let_def split: option.splits if_splits)

lemma onChunk_scanned:
  assumes "fragmentOf c = Some f" and "\<not> commandProcessed t"
  shows "snd (onChunk c (t, S)) =
           showAccumulated (fst (scanCommand (t\<lparr>accumulatedText := accumulatedText t @ f\<rparr>) S))
             (snd (scanCommand (t\<lparr>accumulatedText := accumulatedText t @ f\<rparr>) S))"
    and "commandProcessed (fst (onChunk c (t, S))) =
           commandProcessed (fst (scanCommand (t\<lparr>accumulatedText := accumulatedText t @ f\<rparr>) S))"
    and "accumulatedText (fst (onChunk c (t, S))) =
           accumulatedText (fst (scanCommand (t\<lparr>accumulatedText := accumulatedText t @ f\<rparr>) S))"
  using assms
  by (auto simp: onChunk_def fragmentOf_def Let_def split: option.splits if_splits prod.splits)

lemma loop_jobs:
  "filter isImageJob (calls (snd (foldl (\<lambda>tS chunk. onChunk chunk tS) (t, S) chunks))) =
     filter isImageJob (calls S) @
     (if commandProcessed t then []
      else (case firstCommand (accumulatedText t) (fragments chunks) of None \<Rightarrow> [] | Some c \<Rightarrow> [c]))"
proof (induction chunks arbitrary: t S)
  case Nil
  then show ?case by (simp add: fragments_Nil)
next
  case (Cons c cs)
  obtain t' S' where step: "onChunk c (t, S) = (t', S')" by (cases "onChunk c (t, S)")
  have IH: "filter isImageJob (calls (snd (foldl (\<lambda>tS chunk. onChunk chunk tS) (t, S) (c # cs)))) =
     filter isImageJob (calls S') @
     (if commandProcessed t' then []
      else (case firstCommand (accumulatedText t') (fragments cs) of None \<Rightarrow> [] | Some c \<Rightarrow> [c]))"
    using Cons.IH[of t' S'] by (simp add: step del: firstCommand.simps)
  show ?case
  proof (cases "fragmentOf c")
    case None
    from onChunk_no_fragment[OF None, of t S] step
    have "S' = S" "accumulatedText t' = accumulatedText t" "commandProcessed t' = commandProcessed t"
      by simp_all
    with IH None show ?thesis by (simp add: fragments_Cons del: firstCommand.simps)
  next
    case (Some f)
    show ?thesis
    proof (cases "commandProcessed t")
      case True
      from onChunk_processed[OF Some True, of S] step
      have "calls S' = calls S" "commandProcessed t'"
        by (simp_all add: showAccumulated_calls)
      with IH True show ?thesis by (simp del: firstCommand.simps)
    next
      case False
      let ?t1 = "t\<lparr>accumulatedText := accumulatedText t @ f\<rparr>"
      from onChunk_scanned[OF Some False, of S] step
      have s': "calls S' = calls (snd (scanCommand ?t1 S))"
        and p': "commandProcessed t' = commandProcessed (fst (scanCommand ?t1 S))"
        and a': "accumulatedText t' = accumulatedText (fst (scanCommand ?t1 S))"
        by (simp_all add: showAccumulated_calls)
      show ?thesis
      proof (cases "firstCommand [] [accumulatedText t @ f]")
        case None
        with scanCommand_jobs(3)[of ?t1 S] have "scanCommand ?t1 S = (?t1, S)"
          by (simp del: firstCommand.simps)
        with s' p' a' False have "calls S' = calls S" "\<not> commandProcessed t'"
          "accumulatedText t' = accumulatedText t @ f" by simp_all
        with IH False Some firstCommand_continues[OF None, of "fragments cs"] show ?thesis
          by (simp add: fragments_Cons del: firstCommand.simps)
      next
        case (Some cmd)
        with scanCommand_jobs(1,2)[of ?t1 S] s' p'
        have "filter isImageJob (calls S') = filter isImageJob (calls S) @ [cmd]" "commandProcessed t'"
          by (simp_all del: firstCommand.simps)
        with IH False \<open>fragmentOf c = Some f\<close> firstCommand_decided[OF Some, of "fragments cs"]
        show ?thesis
          by (simp add: fragments_Cons del: firstCommand.simps)
      qed
    qed
  qed
qed

lemma catchChatError_calls: "calls (catchChatError err S) = calls S"
  by (simp add: catchChatError_def Let_def handleError_def updateError_def logEvent_def
      updateLastMessage_def setState_def split: option.splits)

text \<open>\<open>sendTextMessage\<close> past its guard, by the transport's answer.\<close>

lemma sendTextMessage_fails:
  "textChatSession S = Some chat \<Longrightarrow> \<not> isChatting (state S) \<Longrightarrow> trim message \<noteq> [] \<Longrightarrow>
   sendTextMessage message (SendFails err) S =
     catchChatError err (call (SendMessageStream message)
       (setState (\<lambda>s. s\<lparr>isChatting := True, chatHistory := chatHistory s @ [userMessage message],
                           searchResults := []\<rparr>) S))"
  by (simp add: sendTextMessage_def Let_def)

lemma sendTextMessage_streams:
  "textChatSession S = Some chat \<Longrightarrow> \<not> isChatting (state S) \<Longrightarrow> trim message \<noteq> [] \<Longrightarrow>
   foldl (\<lambda>tS chunk. onChunk chunk tS) (turnStart, streaming message S) chunks = (t, S4) \<Longrightarrow>
   sendTextMessage message (Stream chunks ending) S =
     (case ending of
        None \<Rightarrow> setState (\<lambda>s. s\<lparr>isChatting := False, searchResults := map snd (allSearchResults t)\<rparr>) S4
      | Some err \<Rightarrow> catchChatError err S4)"
  by (simp add: sendTextMessage_def Let_def streaming_def turnStart_def)

lemma streaming_calls: "calls (streaming message S) = calls S @ [SendMessageStream message]"
  by (simp add: streaming_def setState_def call_def)

lemma sendTextMessage_jobs:
  "filter isImageJob (calls (sendTextMessage message answer S)) =
     filter isImageJob (calls S) @
     (case answer of
        SendFails err \<Rightarrow> []
      | Stream chunks ending \<Rightarrow>
          if textChatSession S = None \<or> isChatting (state S) \<or> trim message = [] then []
          else (case firstCommand [] (fragments chunks) of None \<Rightarrow> [] | Some c \<Rightarrow> [c]))"
proof (cases "textChatSession S = None \<or> isChatting (state S) \<or> trim message = []")
  case True
  then have "sendTextMessage message answer S = S" by (auto simp: sendTextMessage_def)
  with True show ?thesis by (simp split: answer.splits)
next
  case False
  then obtain chat where guard: "textChatSession S = Some chat" "\<not> isChatting (state S)" "trim message \<noteq> []"
    by auto
  show ?thesis
  proof (cases answer)
    case (SendFails err)
    then show ?thesis
      by (simp add: sendTextMessage_fails[OF guard] catchChatError_calls call_def setState_def)
  next
    case (Stream chunks ending)
    obtain t S4 where loop: "foldl (\<lambda>tS chunk. onChunk chunk tS) (turnStart, streaming message S) chunks = (t, S4)"
      by (cases "foldl (\<lambda>tS chunk. onChunk chunk tS) (turnStart, streaming message S) chunks")
    from loop_jobs[of turnStart "streaming message S" chunks] loop
    have jobs: "filter isImageJob (calls S4) = filter isImageJob (calls S) @
        (case firstCommand [] (fragments chunks) of None \<Rightarrow> [] | Some c \<Rightarrow> [c])"
      by (simp add: streaming_calls turnStart_def)
    have "calls (sendTextMessage message (Stream chunks ending) S) = calls S4"
      by (cases ending) (simp_all add: sendTextMessage_streams[OF guard loop] catchChatError_calls setState_def)
    with jobs guard Stream show ?thesis by simp
  qed
qed


lemmas regex_eval =
  generateRegex_at_def editRegex_at_def js_def isDigit_def isWhiteSpace_def notQuote_def parseInt_def

lemma idleService_guard:
  "textChatSession idleService =
     Some \<lparr>chat_history = [], chat_systemInstruction = generic_instruction @ TOOL_INSTRUCTIONS\<rparr>"
  by (simp add: idleService_def)

lemma trim_hi: "trim (js ''hi'') \<noteq> []"
  by (simp add: trim_empty_iff js_def isWhiteSpace_def)

text \<open>
  Claim C2, as amended. Within one \<open>sendTextMessage\<close> call at most one directive is dispatched
  to the Image Job Runner. The fragments are appended to the buffer in order, and the first
  buffer that either grammar matches decides: when the generate grammar matches it, its
  leftmost generate directive is dispatched, also when an edit directive stands before it in
  the buffer; otherwise its leftmost edit directive is dispatched. No directive is recognised
  after that dispatch, and none when the call returns at its guard or the transport fails to
  answer.
\<close>

theorem C2_one_command_per_turn:
  "filter isImageJob (calls (sendTextMessage message answer S)) =
     filter isImageJob (calls S) @
     (case answer of
        SendFails err \<Rightarrow> []
      | Stream chunks ending \<Rightarrow>
          if textChatSession S = None \<or> isChatting (state S) \<or> trim message = [] then []
          else (case firstCommand [] (fragments chunks) of None \<Rightarrow> [] | Some c \<Rightarrow> [c])) \<and>
   length (filter isImageJob (calls (sendTextMessage message answer S))) \<le>
     length (filter isImageJob (calls S)) + 1"
  by (simp add: sendTextMessage_jobs del: firstCommand.simps split: answer.splits option.splits)

text \<open>The theorem at the specification's example, delivered in two chunks that cut the
  directive: one generation of two images is dispatched.\<close>

theorem C2_one_command_per_turn_witness:
  "filter isImageJob (calls (sendTextMessage (js ''hi'') (Stream twoCats None) idleService)) =
     [TriggerImageGeneration (js ''two cats playing'') 2]"
proof -
  have "firstCommand [] (fragments twoCats) = Some (TriggerImageGeneration (js ''two cats playing'') 2)"
    by (simp add: fragments_def twoCats_def textChunk_def regex_eval)
  with C2_one_command_per_turn [of "js ''hi''" "Stream twoCats None" idleService]
  show ?thesis
    by (simp add: idleService_guard idleService_fields trim_hi del: firstCommand.simps)
qed

text \<open>
  The claim as the specification words it fails on a buffer that both grammars match: in
  \<^verbatim>\<open>[edit_image: 'a'] [generate_images(1): 'b']\<close> the edit directive stands first (nothing
  precedes its match, the edit directive and a space precede the other), and the generation is
  what is dispatched.
\<close>

theorem C2_counterexample:
  "regexMatch editRegex_at editThenGenerate =
     Some ([], js ''a'', js ('' [generate_images(1): '' @ [CHR 0x27] @ ''b'' @ [CHR 0x27] @ '']'')) \<and>
   regexMatch generateRegex_at editThenGenerate =
     Some (js (''[edit_image: '' @ [CHR 0x27] @ ''a'' @ [CHR 0x27] @ ''] ''), (js ''1'', js ''b''), []) \<and>
   filter isImageJob (calls (sendTextMessage (js ''hi'')
       (Stream [textChunk editThenGenerate] None) idleService)) =
     [TriggerImageGeneration (js ''b'') 1]"
proof (intro conjI)
  show "regexMatch editRegex_at editThenGenerate =
     Some ([], js ''a'', js ('' [generate_images(1): '' @ [CHR 0x27] @ ''b'' @ [CHR 0x27] @ '']''))"
    by (simp add: editThenGenerate_def regex_eval)
  show gen: "regexMatch generateRegex_at editThenGenerate =
     Some (js (''[edit_image: '' @ [CHR 0x27] @ ''a'' @ [CHR 0x27] @ ''] ''), (js ''1'', js ''b''), [])"
    by (simp add: editThenGenerate_def regex_eval)
  have "editThenGenerate \<noteq> []" by (simp add: editThenGenerate_def js_def)
  then have "fragments [textChunk editThenGenerate] = [editThenGenerate]"
    by (simp add: fragments_def textChunk_def)
  moreover have "parseInt (js ''1'') = 1" by (simp add: parseInt_def js_def)
  ultimately have "firstCommand [] (fragments [textChunk editThenGenerate]) =
      Some (TriggerImageGeneration (js ''b'') 1)"
    by (simp add: gen)
  with sendTextMessage_jobs [of "js ''hi''" "Stream [textChunk editThenGenerate] None" idleService]
  show "filter isImageJob (calls (sendTextMessage (js ''hi'')
       (Stream [textChunk editThenGenerate] None) idleService)) =
     [TriggerImageGeneration (js ''b'') 1]"
    by (simp add: idleService_guard idleService_fields trim_hi del: firstCommand.simps)
qed


section \<open>The regular expressions and the grammars\<close>

lemma stripPrefix_iff: "stripPrefix p s = Some r \<longleftrightarrow> s = p @ r"
  by (induction p s rule: stripPrefix.induct) auto

lemma run_split:
  "s = takeWhile P s @ dropWhile P s" "\<forall>c\<in>set (takeWhile P s). P c"
  by (auto dest: set_takeWhileD)

lemma run_found:
  assumes "\<forall>c\<in>set xs. P c" and "\<not> P y"
  shows "takeWhile P (xs @ y # ys) = xs" and "dropWhile P (xs @ y # ys) = y # ys"
  using assms by (simp_all add: takeWhile_append2 dropWhile_append2)

lemma delimiters:
  "js ''):'' = [0x29, 0x3A]" "\<not> isDigit 0x29" "\<not> isWhiteSpace 0x27" "\<not> notQuote 0x27"
  by (simp_all add: js_def isDigit_def isWhiteSpace_def notQuote_def)

lemma notQuote_set: "(\<forall>c\<in>set p. notQuote c) \<longleftrightarrow> 0x27 \<notin> set p"
  by (auto simp: notQuote_def)

text \<open>The match of \<open>generateRegex\<close> at the head of a text: the text starts with a generate
  directive, and the groups are its digits and its prompt.\<close>

lemma generateRegex_at_iff:
  "generateRegex_at s = Some ((d, p), rest) \<longleftrightarrow>
     d \<noteq> [] \<and> (\<forall>c\<in>set d. isDigit c) \<and> p \<noteq> [] \<and> 0x27 \<notin> set p \<and>
     (\<exists>sp. (\<forall>c\<in>set sp. isWhiteSpace c) \<and> s = generateDirective d sp p @ rest)"
proof
  assume m: "generateRegex_at s = Some ((d, p), rest)"
  then obtain r1 where r1: "stripPrefix (js ''[generate_images('') s = Some r1"
    by (auto simp: generateRegex_at_def split: option.splits)
  from m r1 have d: "d = takeWhile isDigit r1" "d \<noteq> []"
    by (auto simp: generateRegex_at_def Let_def split: option.splits if_splits)
  from m r1 d obtain r2 where r2: "stripPrefix (js ''):'') (dropWhile isDigit r1) = Some r2"
    by (auto simp: generateRegex_at_def Let_def split: option.splits if_splits)
  from m r1 d r2 obtain r3 where r3: "stripPrefix [0x27] (dropWhile isWhiteSpace r2) = Some r3"
    by (auto simp: generateRegex_at_def Let_def split: option.splits if_splits)
  from m r1 d r2 r3 have p: "p = takeWhile notQuote r3" "p \<noteq> []"
    and rest: "stripPrefix [0x27, 0x5D] (dropWhile notQuote r3) = Some rest"
    by (auto simp: generateRegex_at_def Let_def split: option.splits if_splits)
  let ?sp = "takeWhile isWhiteSpace r2"
  have "s = js ''[generate_images('' @ r1" using r1 by (simp add: stripPrefix_iff)
  also have "r1 = d @ dropWhile isDigit r1" using run_split(1)[of r1 isDigit] d(1) by simp
  also have "dropWhile isDigit r1 = js ''):'' @ r2" using r2 by (simp add: stripPrefix_iff)
  also have "r2 = ?sp @ dropWhile isWhiteSpace r2" by (rule run_split(1))
  also have "dropWhile isWhiteSpace r2 = [0x27] @ r3" using r3 by (simp only: stripPrefix_iff)
  also have "r3 = p @ dropWhile notQuote r3" using run_split(1)[of r3 notQuote] p(1) by simp
  also have "dropWhile notQuote r3 = [0x27, 0x5D] @ rest" using rest by (simp only: stripPrefix_iff)
  finally have "s = generateDirective d ?sp p @ rest" by (simp add: generateDirective_def)
  moreover have "\<forall>c\<in>set ?sp. isWhiteSpace c" by (rule run_split(2))
  moreover have "\<forall>c\<in>set d. isDigit c" unfolding d(1) by (rule run_split(2))
  moreover have "0x27 \<notin> set p" unfolding p(1) notQuote_set[symmetric] by (rule run_split(2))
  ultimately show "d \<noteq> [] \<and> (\<forall>c\<in>set d. isDigit c) \<and> p \<noteq> [] \<and> 0x27 \<notin> set p \<and>
     (\<exists>sp. (\<forall>c\<in>set sp. isWhiteSpace c) \<and> s = generateDirective d sp p @ rest)"
    using d(2) p(2) by blast
next
  assume "d \<noteq> [] \<and> (\<forall>c\<in>set d. isDigit c) \<and> p \<noteq> [] \<and> 0x27 \<notin> set p \<and>
     (\<exists>sp. (\<forall>c\<in>set sp. isWhiteSpace c) \<and> s = generateDirective d sp p @ rest)"
  then obtain sp where d: "d \<noteq> []" "\<forall>c\<in>set d. isDigit c" and p: "p \<noteq> []" "\<forall>c\<in>set p. notQuote c"
    and sp: "\<forall>c\<in>set sp. isWhiteSpace c" and s: "s = generateDirective d sp p @ rest"
    by (auto simp: notQuote_set)
  let ?r3 = "p @ 0x27 # 0x5D # rest"
  let ?r2 = "sp @ 0x27 # ?r3"
  let ?r1 = "d @ 0x29 # 0x3A # ?r2"
  have r1: "stripPrefix (js ''[generate_images('') s = Some ?r1"
    by (simp add: stripPrefix_iff s generateDirective_def delimiters(1))
  have td: "takeWhile isDigit ?r1 = d" "dropWhile isDigit ?r1 = 0x29 # 0x3A # ?r2"
    by (rule run_found[OF d(2) delimiters(2)])+
  have r2: "stripPrefix (js ''):'') (0x29 # 0x3A # ?r2) = Some ?r2"
    by (simp add: stripPrefix_iff delimiters(1))
  have ts: "dropWhile isWhiteSpace ?r2 = 0x27 # ?r3"
    by (rule run_found[OF sp delimiters(3)])
  have r3: "stripPrefix [0x27] (0x27 # ?r3) = Some ?r3" by (simp add: stripPrefix_iff)
  have tp: "takeWhile notQuote ?r3 = p" "dropWhile notQuote ?r3 = 0x27 # 0x5D # rest"
    by (rule run_found[OF p(2) delimiters(4)])+
  have rest: "stripPrefix [0x27, 0x5D] (0x27 # 0x5D # rest) = Some rest" by (simp add: stripPrefix_iff)
  show "generateRegex_at s = Some ((d, p), rest)"
    unfolding generateRegex_at_def r1 option.case Let_def td r2 ts r3 tp rest
    using d(1) p(1) by simp
qed

lemma editRegex_at_iff:
  "editRegex_at s = Some (p, rest) \<longleftrightarrow>
     p \<noteq> [] \<and> 0x27 \<notin> set p \<and>
     (\<exists>sp. (\<forall>c\<in>set sp. isWhiteSpace c) \<and> s = editDirective sp p @ rest)"
proof
  assume m: "editRegex_at s = Some (p, rest)"
  then obtain r1 where r1: "stripPrefix (js ''[edit_image:'') s = Some r1"
    by (auto simp: editRegex_at_def split: option.splits)
  from m r1 obtain r2 where r2: "stripPrefix [0x27] (dropWhile isWhiteSpace r1) = Some r2"
    by (auto simp: editRegex_at_def Let_def split: option.splits if_splits)
  from m r1 r2 have p: "p = takeWhile notQuote r2" "p \<noteq> []"
    and rest: "stripPrefix [0x27, 0x5D] (dropWhile notQuote r2) = Some rest"
    by (auto simp: editRegex_at_def Let_def split: option.splits if_splits)
  let ?sp = "takeWhile isWhiteSpace r1"
  have "s = js ''[edit_image:'' @ r1" using r1 by (simp add: stripPrefix_iff)
  also have "r1 = ?sp @ dropWhile isWhiteSpace r1" by (rule run_split(1))
  also have "dropWhile isWhiteSpace r1 = [0x27] @ r2" using r2 by (simp only: stripPrefix_iff)
  also have "r2 = p @ dropWhile notQuote r2" using run_split(1)[of r2 notQuote] p(1) by simp
  also have "dropWhile notQuote r2 = [0x27, 0x5D] @ rest" using rest by (simp only: stripPrefix_iff)
  finally have "s = editDirective ?sp p @ rest" by (simp add: editDirective_def)
  moreover have "\<forall>c\<in>set ?sp. isWhiteSpace c" by (rule run_split(2))
  moreover have "0x27 \<notin> set p" unfolding p(1) notQuote_set[symmetric] by (rule run_split(2))
  ultimately show "p \<noteq> [] \<and> 0x27 \<notin> set p \<and>
     (\<exists>sp. (\<forall>c\<in>set sp. isWhiteSpace c) \<and> s = editDirective sp p @ rest)"
    using p(2) by blast
next
  assume "p \<noteq> [] \<and> 0x27 \<notin> set p \<and>
     (\<exists>sp. (\<forall>c\<in>set sp. isWhiteSpace c) \<and> s = editDirective sp p @ rest)"
  then obtain sp where p: "p \<noteq> []" "\<forall>c\<in>set p. notQuote c"
    and sp: "\<forall>c\<in>set sp. isWhiteSpace c" and s: "s = editDirective sp p @ rest"
    by (auto simp: notQuote_set)
  let ?r2 = "p @ 0x27 # 0x5D # rest"
  let ?r1 = "sp @ 0x27 # ?r2"
  have r1: "stripPrefix (js ''[edit_image:'') s = Some ?r1"
    by (simp add: stripPrefix_iff s editDirective_def)
  have ts: "dropWhile isWhiteSpace ?r1 = 0x27 # ?r2"
    by (rule run_found[OF sp delimiters(3)])
  have r2: "stripPrefix [0x27] (0x27 # ?r2) = Some ?r2" by (simp add: stripPrefix_iff)
  have tp: "takeWhile notQuote ?r2 = p" "dropWhile notQuote ?r2 = 0x27 # 0x5D # rest"
    by (rule run_found[OF p(2) delimiters(4)])+
  have rest: "stripPrefix [0x27, 0x5D] (0x27 # 0x5D # rest) = Some rest" by (simp add: stripPrefix_iff)
  show "editRegex_at s = Some (p, rest)"
    unfolding editRegex_at_def r1 option.case Let_def ts r2 tp rest
    using p(1) by simp
qed

text \<open>\<open>match\<close> finds nothing exactly when no position of the text has a match.\<close>

lemma regexMatch_None_iff: "regexMatch at s = None \<longleftrightarrow> (\<forall>s'. suffix s' s \<longrightarrow> at s' = None)"
proof (induction s)
  case Nil
  show ?case by (auto split: option.splits)
next
  case (Cons c cs)
  have "regexMatch at (c # cs) = None \<longleftrightarrow> at (c # cs) = None \<and> regexMatch at cs = None"
    by (auto split: option.splits)
  with Cons show ?case by (auto simp: suffix_Cons)
qed

lemma sublist_suffix: "sublist x s \<longleftrightarrow> (\<exists>rest. suffix (x @ rest) s)"
  by (auto simp: sublist_def suffix_def)

text \<open>The two regular expressions recognise the directives of the wider grammars, no more and
  no less.\<close>

lemma noDirective_iff: "noDirective buffer \<longleftrightarrow> \<not> spec_directive buffer"
proof
  assume none: "noDirective buffer"
  show "\<not> spec_directive buffer"
  proof
    assume "spec_directive buffer"
    then consider
      (generate) digits space prompt where "digits \<noteq> []" "\<forall>c\<in>set digits. isDigit c"
        "\<forall>c\<in>set space. isWhiteSpace c" "prompt \<noteq> []" "0x27 \<notin> set prompt"
        "sublist (generateDirective digits space prompt) buffer"
    | (edit) space prompt where "\<forall>c\<in>set space. isWhiteSpace c" "prompt \<noteq> []" "0x27 \<notin> set prompt"
        "sublist (editDirective space prompt) buffer"
      unfolding spec_directive_def by blast
    then show False
    proof cases
      case generate
      from generate(6) obtain rest where sfx: "suffix (generateDirective digits space prompt @ rest) buffer"
        by (auto simp: sublist_suffix)
      have "generateRegex_at (generateDirective digits space prompt @ rest) = Some ((digits, prompt), rest)"
        unfolding generateRegex_at_iff using generate(1-5) by blast
      moreover from none sfx have "generateRegex_at (generateDirective digits space prompt @ rest) = None"
        by (simp add: noDirective_def regexMatch_None_iff)
      ultimately show False by simp
    next
      case edit
      from edit(4) obtain rest where sfx: "suffix (editDirective space prompt @ rest) buffer"
        by (auto simp: sublist_suffix)
      have "editRegex_at (editDirective space prompt @ rest) = Some (prompt, rest)"
        unfolding editRegex_at_iff using edit(1-3) by blast
      moreover from none sfx have "editRegex_at (editDirective space prompt @ rest) = None"
        by (simp add: noDirective_def regexMatch_None_iff)
      ultimately show False by simp
    qed
  qed
next
  assume no: "\<not> spec_directive buffer"
  have "generateRegex_at s' = None" if sfx: "suffix s' buffer" for s'
  proof (rule ccontr)
    assume "generateRegex_at s' \<noteq> None"
    then obtain d p rest where "generateRegex_at s' = Some ((d, p), rest)" by auto
    then obtain sp where "d \<noteq> []" "\<forall>c\<in>set d. isDigit c" "p \<noteq> []" "0x27 \<notin> set p"
      "\<forall>c\<in>set sp. isWhiteSpace c" "s' = generateDirective d sp p @ rest"
      unfolding generateRegex_at_iff by blast
    moreover with sfx have "sublist (generateDirective d sp p) buffer"
      by (auto simp: sublist_suffix)
    ultimately have "spec_directive buffer" unfolding spec_directive_def by blast
    with no show False ..
  qed
  moreover have "editRegex_at s' = None" if sfx: "suffix s' buffer" for s'
  proof (rule ccontr)
    assume "editRegex_at s' \<noteq> None"
    then obtain p rest where "editRegex_at s' = Some (p, rest)" by auto
    then obtain sp where "p \<noteq> []" "0x27 \<notin> set p"
      "\<forall>c\<in>set sp. isWhiteSpace c" "s' = editDirective sp p @ rest"
      unfolding editRegex_at_iff by blast
    moreover with sfx have "sublist (editDirective sp p) buffer"
      by (auto simp: sublist_suffix)
    ultimately have "spec_directive buffer" unfolding spec_directive_def by blast
    with no show False ..
  qed
  ultimately show "noDirective buffer"
    by (simp add: noDirective_def regexMatch_None_iff)
qed

text \<open>A directive of the specification's grammar is one of the wider grammar.\<close>

lemma spec_wellFormed_directive: "spec_wellFormedDirective buffer \<Longrightarrow> spec_directive buffer"
proof -
  assume w: "spec_wellFormedDirective buffer"
  have sp: "\<forall>c\<in>set (js '' ''). isWhiteSpace c" by (simp add: js_def isWhiteSpace_def)
  from w sp show ?thesis unfolding spec_wellFormedDirective_def spec_directive_def by blast
qed

text \<open>Where a well-formed directive stands, the regular expression of its kind matches it: the
  test for a well-formed directive, position by position.\<close>


lemma spec_wellFormed_suffixes:
  assumes "spec_wellFormedDirective buffer"
  shows "\<exists>s'\<in>set (suffixes buffer).
           (case generateRegex_at s' of
              None \<Rightarrow> False
            | Some ((d, p), rest) \<Rightarrow> 0 < parseInt d \<and> s' = generateDirective d (js '' '') p @ rest) \<or>
           (case editRegex_at s' of
              None \<Rightarrow> False
            | Some (p, rest) \<Rightarrow> s' = editDirective (js '' '') p @ rest)"
proof -
  have sp: "\<forall>c\<in>set (js '' ''). isWhiteSpace c" by (simp add: js_def isWhiteSpace_def)
  from assms consider
      (generate) digits prompt where "digits \<noteq> []" "\<forall>c\<in>set digits. isDigit c" "0 < parseInt digits"
        "prompt \<noteq> []" "0x27 \<notin> set prompt"
        "sublist (generateDirective digits (js '' '') prompt) buffer"
    | (edit) prompt where "prompt \<noteq> []" "0x27 \<notin> set prompt"
        "sublist (editDirective (js '' '') prompt) buffer"
    unfolding spec_wellFormedDirective_def by blast
  then show ?thesis
  proof cases
    case generate
    from generate(6) obtain rest where sfx: "suffix (generateDirective digits (js '' '') prompt @ rest) buffer"
      by (auto simp: sublist_suffix)
    have "generateRegex_at (generateDirective digits (js '' '') prompt @ rest) = Some ((digits, prompt), rest)"
      unfolding generateRegex_at_iff using generate(1,2,4,5) sp by blast
    with sfx generate(3) show ?thesis
      by (intro bexI[of _ "generateDirective digits (js '' '') prompt @ rest"]) (simp_all add: in_set_suffixes)
  next
    case edit
    from edit(3) obtain rest where sfx: "suffix (editDirective (js '' '') prompt @ rest) buffer"
      by (auto simp: sublist_suffix)
    have "editRegex_at (editDirective (js '' '') prompt @ rest) = Some (prompt, rest)"
      unfolding editRegex_at_iff using edit(1,2) sp by blast
    with sfx show ?thesis
      by (intro bexI[of _ "editDirective (js '' '') prompt @ rest"]) (simp_all add: in_set_suffixes)
  qed
qed

lemma zeroCount_not_wellFormed: "\<not> spec_wellFormedDirective zeroCount"
proof
  assume "spec_wellFormedDirective zeroCount"
  from spec_wellFormed_suffixes[OF this] show False
    by (simp add: zeroCount_def regex_eval generateDirective_def editDirective_def)
qed

lemma noSpace_not_wellFormed: "\<not> spec_wellFormedDirective noSpace"
proof
  assume "spec_wellFormedDirective noSpace"
  from spec_wellFormed_suffixes[OF this] show False
    by (simp add: noSpace_def regex_eval generateDirective_def editDirective_def)
qed


section \<open>The text of a turn\<close>

lemma noDirective_firstCommand: "noDirective buffer \<Longrightarrow> firstCommand [] [buffer] = None"
  by (simp add: noDirective_def)

lemma showAccumulated_snoc:
  "chatHistory (state S) = h @ [m] \<Longrightarrow> m_role m = R_model \<Longrightarrow>
   showAccumulated t S = S\<lparr>state := (state S)\<lparr>chatHistory := h @ [m\<lparr>m_text := accumulatedText t\<rparr>]\<rparr>\<rparr>"
  by (simp add: showAccumulated_def lastMessage_snoc updateLastMessage_snoc)

text \<open>The loop on buffers that hold no directive: the assistant's message takes the
  fragments, in order, nothing else changes, and the scan stays enabled.\<close>

lemma loop_plain:
  assumes "\<not> commandProcessed t" and "chatHistory (state S) = h @ [m]" and "m_role m = R_model"
    and "m_text m = accumulatedText t"
    and "\<forall>n\<le>length (fragments chunks). noDirective (accumulatedText t @ concat (take n (fragments chunks)))"
  shows "snd (foldl (\<lambda>tS chunk. onChunk chunk tS) (t, S) chunks) =
           S\<lparr>state := (state S)\<lparr>chatHistory :=
             h @ [m\<lparr>m_text := accumulatedText t @ concat (fragments chunks)\<rparr>]\<rparr>\<rparr> \<and>
         \<not> commandProcessed (fst (foldl (\<lambda>tS chunk. onChunk chunk tS) (t, S) chunks)) \<and>
         accumulatedText (fst (foldl (\<lambda>tS chunk. onChunk chunk tS) (t, S) chunks)) =
           accumulatedText t @ concat (fragments chunks)"
  using assms
proof (induction chunks arbitrary: t S m)
  case Nil
  then show ?case by (simp add: fragments_Nil)
next
  case (Cons c cs)
  obtain t' S' where step: "onChunk c (t, S) = (t', S')" by (cases "onChunk c (t, S)")
  show ?case
  proof (cases "fragmentOf c")
    case None
    from onChunk_no_fragment[OF None, of t S] step
    have same: "S' = S" "accumulatedText t' = accumulatedText t" "commandProcessed t' = commandProcessed t"
      by simp_all
    have frs: "fragments (c # cs) = fragments cs" using None by (simp add: fragments_Cons)
    from Cons.IH[of t' S' m] Cons.prems same frs
    have "snd (foldl (\<lambda>tS chunk. onChunk chunk tS) (t', S') cs) =
           S\<lparr>state := (state S)\<lparr>chatHistory :=
             h @ [m\<lparr>m_text := accumulatedText t @ concat (fragments cs)\<rparr>]\<rparr>\<rparr> \<and>
         \<not> commandProcessed (fst (foldl (\<lambda>tS chunk. onChunk chunk tS) (t', S') cs)) \<and>
         accumulatedText (fst (foldl (\<lambda>tS chunk. onChunk chunk tS) (t', S') cs)) =
           accumulatedText t @ concat (fragments cs)"
      by simp
    then show ?thesis by (simp add: step frs)
  next
    case (Some f)
    let ?t1 = "t\<lparr>accumulatedText := accumulatedText t @ f\<rparr>"
    let ?m1 = "m\<lparr>m_text := accumulatedText t @ f\<rparr>"
    have frs: "fragments (c # cs) = f # fragments cs" using Some by (simp add: fragments_Cons)
    have "noDirective (accumulatedText t @ concat (take 1 (fragments (c # cs))))"
      using Cons.prems(5)[rule_format, of 1] by (simp add: frs)
    then have nd: "noDirective (accumulatedText ?t1)" by (simp add: frs)
    have scan: "scanCommand ?t1 S = (?t1, S)"
      by (rule scanCommand_jobs(3)[OF noDirective_firstCommand[OF nd]])
    from onChunk_scanned[OF Some Cons.prems(1), of S] step
    have s': "S' = showAccumulated ?t1 S" and p': "\<not> commandProcessed t'"
      and a': "accumulatedText t' = accumulatedText t @ f"
      using Cons.prems(1) by (simp_all add: scan)
    have s1: "S' = S\<lparr>state := (state S)\<lparr>chatHistory := h @ [?m1]\<rparr>\<rparr>"
      unfolding s' using showAccumulated_snoc[OF Cons.prems(2,3), of ?t1] by simp
    have h1: "chatHistory (state S') = h @ [?m1]" "m_role ?m1 = R_model" "m_text ?m1 = accumulatedText t'"
      using Cons.prems(3) by (simp_all add: s1 a')
    have rest: "\<forall>n\<le>length (fragments cs). noDirective (accumulatedText t' @ concat (take n (fragments cs)))"
    proof (intro allI impI)
      fix n assume "n \<le> length (fragments cs)"
      then have "Suc n \<le> length (fragments (c # cs))" by (simp add: frs)
      with Cons.prems(5) have "noDirective (accumulatedText t @ concat (take (Suc n) (fragments (c # cs))))"
        by blast
      then show "noDirective (accumulatedText t' @ concat (take n (fragments cs)))"
        by (simp add: frs a')
    qed
    from Cons.IH[OF p' h1 rest]
    have "snd (foldl (\<lambda>tS chunk. onChunk chunk tS) (t', S') cs) =
        S'\<lparr>state := (state S')\<lparr>chatHistory :=
             h @ [?m1\<lparr>m_text := accumulatedText t' @ concat (fragments cs)\<rparr>]\<rparr>\<rparr> \<and>
         \<not> commandProcessed (fst (foldl (\<lambda>tS chunk. onChunk chunk tS) (t', S') cs)) \<and>
         accumulatedText (fst (foldl (\<lambda>tS chunk. onChunk chunk tS) (t', S') cs)) =
           accumulatedText t' @ concat (fragments cs)" .
    then show ?thesis by (simp add: step frs s1 a')
  qed
qed

text \<open>The loop once a command has been processed: the fragments are appended to what the
  assistant's message shows.\<close>

lemma loop_processed:
  assumes "commandProcessed t" and "chatHistory (state S) = h @ [m]" and "m_role m = R_model"
    and "m_text m = accumulatedText t"
  shows "snd (foldl (\<lambda>tS chunk. onChunk chunk tS) (t, S) chunks) =
           S\<lparr>state := (state S)\<lparr>chatHistory :=
             h @ [m\<lparr>m_text := accumulatedText t @ concat (fragments chunks)\<rparr>]\<rparr>\<rparr>"
  using assms
proof (induction chunks arbitrary: t S m)
  case Nil
  then show ?case by (simp add: fragments_Nil)
next
  case (Cons c cs)
  obtain t' S' where step: "onChunk c (t, S) = (t', S')" by (cases "onChunk c (t, S)")
  show ?case
  proof (cases "fragmentOf c")
    case None
    from onChunk_no_fragment[OF None, of t S] step
    have same: "S' = S" "accumulatedText t' = accumulatedText t" "commandProcessed t' = commandProcessed t"
      by simp_all
    have frs: "fragments (c # cs) = fragments cs" using None by (simp add: fragments_Cons)
    from Cons.IH[of t' S' m] Cons.prems same
    have "snd (foldl (\<lambda>tS chunk. onChunk chunk tS) (t', S') cs) =
           S\<lparr>state := (state S)\<lparr>chatHistory :=
             h @ [m\<lparr>m_text := accumulatedText t @ concat (fragments cs)\<rparr>]\<rparr>\<rparr>"
      by simp
    then show ?thesis by (simp add: step frs)
  next
    case (Some f)
    let ?t1 = "t\<lparr>accumulatedText := accumulatedText t @ f\<rparr>"
    let ?m1 = "m\<lparr>m_text := accumulatedText t @ f\<rparr>"
    have frs: "fragments (c # cs) = f # fragments cs" using Some by (simp add: fragments_Cons)
    from onChunk_processed[OF Some Cons.prems(1), of S] step
    have s': "S' = showAccumulated ?t1 S" and p': "commandProcessed t'"
      and a': "accumulatedText t' = accumulatedText t @ f"
      by simp_all
    have s1: "S' = S\<lparr>state := (state S)\<lparr>chatHistory := h @ [?m1]\<rparr>\<rparr>"
      unfolding s' using showAccumulated_snoc[OF Cons.prems(2,3), of ?t1] by simp
    have h1: "chatHistory (state S') = h @ [?m1]" "m_role ?m1 = R_model" "m_text ?m1 = accumulatedText t'"
      using Cons.prems(3) by (simp_all add: s1 a')
    from Cons.IH[OF p' h1]
    have "snd (foldl (\<lambda>tS chunk. onChunk chunk tS) (t', S') cs) =
        S'\<lparr>state := (state S')\<lparr>chatHistory :=
             h @ [?m1\<lparr>m_text := accumulatedText t' @ concat (fragments cs)\<rparr>]\<rparr>\<rparr>" .
    then show ?thesis by (simp add: step frs s1 a')
  qed
qed

text \<open>The scan that finds a directive, followed by the statement that shows the buffer. An
  edit directive found while no generated image is held: the job appends its error text to the
  assistant's message, and the next statement of the loop assigns the buffer without the
  directive to that message, so the error text is gone after the step.\<close>

lemma scan_edit_no_image:
  assumes "chatHistory (state S) = h @ [m]" and "m_role m = R_model"
    and "lastGeneratedImages (state S) = []"
    and "regexMatch generateRegex_at (accumulatedText t) = None"
    and "regexMatch editRegex_at (accumulatedText t) = Some (before, prompt, rest)"
  shows "fst (scanCommand t S) = t\<lparr>commandProcessed := True, accumulatedText := trim (before @ rest)\<rparr>"
    and "snd (scanCommand t S) = triggerImageEditing prompt S"
    and "showAccumulated (fst (scanCommand t S)) (snd (scanCommand t S)) =
           S\<lparr>state := (state S)\<lparr>chatHistory := h @ [m\<lparr>m_text := trim (before @ rest)\<rparr>]\<rparr>,
             calls := calls S @ [TriggerImageEditing prompt]\<rparr>"
proof -
  let ?m = "m\<lparr>m_text := m_text m @ noRecentImage\<rparr>"
  let ?S1 = "S\<lparr>state := (state S)\<lparr>chatHistory := h @ [?m]\<rparr>, calls := calls S @ [TriggerImageEditing prompt]\<rparr>"
  have job: "triggerImageEditing prompt S = ?S1"
    by (rule triggerImageEditing_no_image[OF assms(1-3)])
  have scan: "scanCommand t S =
      (t\<lparr>commandProcessed := True, accumulatedText := trim (before @ rest)\<rparr>, triggerImageEditing prompt S)"
    by (simp add: scanCommand_def assms(4,5))
  show "fst (scanCommand t S) = t\<lparr>commandProcessed := True, accumulatedText := trim (before @ rest)\<rparr>"
    and "snd (scanCommand t S) = triggerImageEditing prompt S"
    by (simp_all add: scan)
  have h1: "chatHistory (state ?S1) = h @ [?m]" and r1: "m_role ?m = R_model"
    using assms(2) by simp_all
  show "showAccumulated (fst (scanCommand t S)) (snd (scanCommand t S)) =
           S\<lparr>state := (state S)\<lparr>chatHistory := h @ [m\<lparr>m_text := trim (before @ rest)\<rparr>]\<rparr>,
             calls := calls S @ [TriggerImageEditing prompt]\<rparr>"
    using showAccumulated_snoc[OF h1 r1, of "t\<lparr>commandProcessed := True, accumulatedText := trim (before @ rest)\<rparr>"]
    by (simp add: scan job)
qed

lemma scan_generate:
  assumes "chatHistory (state S) = h @ [m]" and "m_role m = R_model"
    and "regexMatch generateRegex_at (accumulatedText t) = Some (before, (digits, prompt), rest)"
  shows "fst (scanCommand t S) = t\<lparr>commandProcessed := True, accumulatedText := trim (before @ rest)\<rparr>"
    and "showAccumulated (fst (scanCommand t S)) (snd (scanCommand t S)) =
           S\<lparr>state := (state S)\<lparr>chatHistory :=
               h @ [m\<lparr>m_isLoadingImages := Some True, m_imageCount := Some (parseInt digits),
                      m_text := trim (before @ rest)\<rparr>]\<rparr>,
             calls := calls S @ [TriggerImageGeneration prompt (parseInt digits),
                                 GenerateImages prompt (parseInt digits)]\<rparr>"
proof -
  let ?n = "parseInt digits"
  let ?m = "m\<lparr>m_isLoadingImages := Some True, m_imageCount := Some ?n\<rparr>"
  let ?S1 = "S\<lparr>state := (state S)\<lparr>chatHistory := h @ [?m]\<rparr>,
               calls := calls S @ [TriggerImageGeneration prompt ?n, GenerateImages prompt ?n]\<rparr>"
  have job: "triggerImageGeneration prompt ?n S = ?S1"
    by (rule triggerImageGeneration_loading[OF assms(1,2)])
  have scan: "scanCommand t S =
      (t\<lparr>commandProcessed := True, accumulatedText := trim (before @ rest)\<rparr>,
       triggerImageGeneration prompt ?n S)"
    by (simp add: scanCommand_def assms(3))
  show "fst (scanCommand t S) = t\<lparr>commandProcessed := True, accumulatedText := trim (before @ rest)\<rparr>"
    by (simp add: scan)
  have h1: "chatHistory (state ?S1) = h @ [?m]" and r1: "m_role ?m = R_model"
    using assms(2) by simp_all
  show "showAccumulated (fst (scanCommand t S)) (snd (scanCommand t S)) =
           S\<lparr>state := (state S)\<lparr>chatHistory :=
               h @ [m\<lparr>m_isLoadingImages := Some True, m_imageCount := Some (parseInt digits),
                      m_text := trim (before @ rest)\<rparr>]\<rparr>,
             calls := calls S @ [TriggerImageGeneration prompt (parseInt digits),
                                 GenerateImages prompt (parseInt digits)]\<rparr>"
    using showAccumulated_snoc[OF h1 r1, of "t\<lparr>commandProcessed := True, accumulatedText := trim (before @ rest)\<rparr>"]
    by (simp add: scan job)
qed

lemma streaming_history:
  "chatHistory (state (streaming message S)) = (chatHistory (state S) @ [userMessage message]) @ [modelMessage]"
  by (simp add: streaming_def setState_def call_def)

lemma streaming_images: "lastGeneratedImages (state (streaming message S)) = lastGeneratedImages (state S)"
  by (simp add: streaming_def setState_def call_def)

lemma catchChatError_model:
  assumes "chatHistory (state S) = h @ [m]" and "m_role m = R_model"
  shows "chatHistory (state (catchChatError err S)) =
           h @ [m\<lparr>m_text := m_text m @ js ''\<newline>\<newline>**Desculpe, ocorreu um erro:** '' @
                 (case err of Failure_Error text \<Rightarrow> text | Failure_value v \<Rightarrow> js ''Erro desconhecido'')\<rparr>]"
proof -
  let ?S' = "handleError err (js ''Falha na mensagem de chat'') S"
  have h': "chatHistory (state ?S') = h @ [m]"
    using assms(1) by (simp add: handleError_def updateError_def Let_def logEvent_def setState_def)
  show ?thesis
    using assms(2)
    by (simp add: catchChatError_def Let_def lastMessage_snoc[OF h'] updateLastMessage_snoc[OF h'] setState_def)
qed

text \<open>What \<open>sendTextMessage\<close> leaves, from what the loop leaves.\<close>

lemma sendTextMessage_after_loop:
  assumes "textChatSession S = Some chat" and "\<not> isChatting (state S)" and "trim message \<noteq> []"
    and "snd (foldl (\<lambda>tS chunk. onChunk chunk tS) (turnStart, streaming message S) chunks) = S4"
    and "chatHistory (state S4) = h @ [m]" and "m_role m = R_model"
  shows "calls (sendTextMessage message (Stream chunks ending) S) = calls S4"
    and "chatHistory (state (sendTextMessage message (Stream chunks ending) S)) =
           h @ [m\<lparr>m_text := m_text m @
              (case ending of
                 None \<Rightarrow> []
               | Some err \<Rightarrow> js ''\<newline>\<newline>**Desculpe, ocorreu um erro:** '' @
                   (case err of Failure_Error text \<Rightarrow> text | Failure_value v \<Rightarrow> js ''Erro desconhecido''))\<rparr>]"
proof -
  obtain t where loop: "foldl (\<lambda>tS chunk. onChunk chunk tS) (turnStart, streaming message S) chunks = (t, S4)"
    using assms(4) by (cases "foldl (\<lambda>tS chunk. onChunk chunk tS) (turnStart, streaming message S) chunks") simp
  show "calls (sendTextMessage message (Stream chunks ending) S) = calls S4"
    by (cases ending)
      (simp_all add: sendTextMessage_streams[OF assms(1-3) loop] catchChatError_calls setState_def)
  show "chatHistory (state (sendTextMessage message (Stream chunks ending) S)) =
           h @ [m\<lparr>m_text := m_text m @
              (case ending of
                 None \<Rightarrow> []
               | Some err \<Rightarrow> js ''\<newline>\<newline>**Desculpe, ocorreu um erro:** '' @
                   (case err of Failure_Error text \<Rightarrow> text | Failure_value v \<Rightarrow> js ''Erro desconhecido''))\<rparr>]"
  proof (cases ending)
    case None
    then show ?thesis
      by (simp add: sendTextMessage_streams[OF assms(1-3) loop] setState_def assms(5))
  next
    case (Some err)
    with catchChatError_model[OF assms(5,6), of err] show ?thesis
      by (simp add: sendTextMessage_streams[OF assms(1-3) loop])
  qed
qed

text \<open>The loop from its start over chunks that complete no directive.\<close>

lemma loop_start_plain:
  assumes "\<forall>n\<le>length (fragments pre). noDirective (concat (take n (fragments pre)))"
  shows "snd (foldl (\<lambda>tS chunk. onChunk chunk tS) (turnStart, streaming message S) pre) =
           (streaming message S)\<lparr>state := (state (streaming message S))\<lparr>chatHistory :=
             (chatHistory (state S) @ [userMessage message]) @
             [modelMessage\<lparr>m_text := concat (fragments pre)\<rparr>]\<rparr>\<rparr>"
    and "\<not> commandProcessed (fst (foldl (\<lambda>tS chunk. onChunk chunk tS) (turnStart, streaming message S) pre))"
    and "accumulatedText (fst (foldl (\<lambda>tS chunk. onChunk chunk tS) (turnStart, streaming message S) pre)) =
           concat (fragments pre)"
proof -
  have acc: "accumulatedText turnStart = []" "\<not> commandProcessed turnStart"
    by (simp_all add: turnStart_def)
  have "snd (foldl (\<lambda>tS chunk. onChunk chunk tS) (turnStart, streaming message S) pre) =
           (streaming message S)\<lparr>state := (state (streaming message S))\<lparr>chatHistory :=
             (chatHistory (state S) @ [userMessage message]) @
             [modelMessage\<lparr>m_text := accumulatedText turnStart @ concat (fragments pre)\<rparr>]\<rparr>\<rparr> \<and>
         \<not> commandProcessed (fst (foldl (\<lambda>tS chunk. onChunk chunk tS) (turnStart, streaming message S) pre)) \<and>
         accumulatedText (fst (foldl (\<lambda>tS chunk. onChunk chunk tS) (turnStart, streaming message S) pre)) =
           accumulatedText turnStart @ concat (fragments pre)"
    by (rule loop_plain) (use assms acc in \<open>simp_all add: streaming_history modelMessage_def\<close>)
  then show "snd (foldl (\<lambda>tS chunk. onChunk chunk tS) (turnStart, streaming message S) pre) =
           (streaming message S)\<lparr>state := (state (streaming message S))\<lparr>chatHistory :=
             (chatHistory (state S) @ [userMessage message]) @
             [modelMessage\<lparr>m_text := concat (fragments pre)\<rparr>]\<rparr>\<rparr>"
    and "\<not> commandProcessed (fst (foldl (\<lambda>tS chunk. onChunk chunk tS) (turnStart, streaming message S) pre))"
    and "accumulatedText (fst (foldl (\<lambda>tS chunk. onChunk chunk tS) (turnStart, streaming message S) pre)) =
           concat (fragments pre)"
    using acc by simp_all
qed

text \<open>A turn without a directive.\<close>

lemma sendTextMessage_plain:
  assumes "textChatSession S = Some chat" and "\<not> isChatting (state S)" and "trim message \<noteq> []"
    and "\<forall>n\<le>length (fragments chunks). noDirective (concat (take n (fragments chunks)))"
  shows "calls (sendTextMessage message (Stream chunks ending) S) = calls S @ [SendMessageStream message]"
    and "chatHistory (state (sendTextMessage message (Stream chunks ending) S)) =
           chatHistory (state S) @
           [userMessage message,
            modelMessage\<lparr>m_text := concat (fragments chunks) @
              (case ending of
                 None \<Rightarrow> []
               | Some err \<Rightarrow> js ''\<newline>\<newline>**Desculpe, ocorreu um erro:** '' @
                   (case err of Failure_Error text \<Rightarrow> text | Failure_value v \<Rightarrow> js ''Erro desconhecido''))\<rparr>]"
proof -
  let ?S4 = "(streaming message S)\<lparr>state := (state (streaming message S))\<lparr>chatHistory :=
             (chatHistory (state S) @ [userMessage message]) @
             [modelMessage\<lparr>m_text := concat (fragments chunks)\<rparr>]\<rparr>\<rparr>"
  have loop: "snd (foldl (\<lambda>tS chunk. onChunk chunk tS) (turnStart, streaming message S) chunks) = ?S4"
    by (rule loop_start_plain(1)[OF assms(4)])
  have h4: "chatHistory (state ?S4) = (chatHistory (state S) @ [userMessage message]) @
             [modelMessage\<lparr>m_text := concat (fragments chunks)\<rparr>]"
    and role: "m_role (modelMessage\<lparr>m_text := concat (fragments chunks)\<rparr>) = R_model"
    by (simp_all add: modelMessage_def)
  from sendTextMessage_after_loop[OF assms(1-3) loop h4 role, of ending]
  show "calls (sendTextMessage message (Stream chunks ending) S) = calls S @ [SendMessageStream message]"
    and "chatHistory (state (sendTextMessage message (Stream chunks ending) S)) =
           chatHistory (state S) @
           [userMessage message,
            modelMessage\<lparr>m_text := concat (fragments chunks) @
              (case ending of
                 None \<Rightarrow> []
               | Some err \<Rightarrow> js ''\<newline>\<newline>**Desculpe, ocorreu um erro:** '' @
                   (case err of Failure_Error text \<Rightarrow> text | Failure_value v \<Rightarrow> js ''Erro desconhecido''))\<rparr>]"
    by (simp_all add: streaming_calls)
qed

text \<open>A turn whose chunk \<open>c\<close> completes the first directive: the chunks before it complete none,
  the chunks after it are appended to what is shown.\<close>

lemma sendTextMessage_edit_no_image:
  assumes "textChatSession S = Some chat" and "\<not> isChatting (state S)" and "trim message \<noteq> []"
    and "lastGeneratedImages (state S) = []"
    and "\<forall>n\<le>length (fragments pre). noDirective (concat (take n (fragments pre)))"
    and "fragmentOf c = Some f"
    and "regexMatch generateRegex_at (concat (fragments pre) @ f) = None"
    and "regexMatch editRegex_at (concat (fragments pre) @ f) = Some (before, prompt, rest)"
  shows "calls (sendTextMessage message (Stream (pre @ c # post) ending) S) =
           calls S @ [SendMessageStream message, TriggerImageEditing prompt]"
    and "chatHistory (state (sendTextMessage message (Stream (pre @ c # post) ending) S)) =
           chatHistory (state S) @
           [userMessage message,
            modelMessage\<lparr>m_text := trim (before @ rest) @ concat (fragments post) @
              (case ending of
                 None \<Rightarrow> []
               | Some err \<Rightarrow> js ''\<newline>\<newline>**Desculpe, ocorreu um erro:** '' @
                   (case err of Failure_Error text \<Rightarrow> text | Failure_value v \<Rightarrow> js ''Erro desconhecido''))\<rparr>]"
    and "chatHistory (state (triggerImageEditing prompt
            (snd (foldl (\<lambda>tS chunk. onChunk chunk tS) (turnStart, streaming message S) pre)))) =
           chatHistory (state S) @
           [userMessage message, modelMessage\<lparr>m_text := concat (fragments pre) @ noRecentImage\<rparr>]"
proof -
  let ?h = "chatHistory (state S) @ [userMessage message]"
  let ?mp = "modelMessage\<lparr>m_text := concat (fragments pre)\<rparr>"
  let ?Sp = "(streaming message S)\<lparr>state := (state (streaming message S))\<lparr>chatHistory := ?h @ [?mp]\<rparr>\<rparr>"
  obtain tp where pre: "foldl (\<lambda>tS chunk. onChunk chunk tS) (turnStart, streaming message S) pre = (tp, ?Sp)"
    using loop_start_plain(1)[OF assms(5), of message S]
    by (cases "foldl (\<lambda>tS chunk. onChunk chunk tS) (turnStart, streaming message S) pre") simp
  from loop_start_plain(2,3)[OF assms(5), of message S] pre
  have tp: "\<not> commandProcessed tp" "accumulatedText tp = concat (fragments pre)" by simp_all
  let ?t1 = "tp\<lparr>accumulatedText := accumulatedText tp @ f\<rparr>"
  have hp: "chatHistory (state ?Sp) = ?h @ [?mp]" and rp: "m_role ?mp = R_model"
    and gp: "lastGeneratedImages (state ?Sp) = []"
    using assms(4) by (simp_all add: modelMessage_def streaming_images)
  have m1: "regexMatch generateRegex_at (accumulatedText ?t1) = None"
    "regexMatch editRegex_at (accumulatedText ?t1) = Some (before, prompt, rest)"
    using assms(7,8) by (simp_all add: tp)
  note scan = scan_edit_no_image[OF hp rp gp m1]
  let ?mc = "?mp\<lparr>m_text := trim (before @ rest)\<rparr>"
  let ?Sc = "?Sp\<lparr>state := (state ?Sp)\<lparr>chatHistory := ?h @ [?mc]\<rparr>,
                calls := calls ?Sp @ [TriggerImageEditing prompt]\<rparr>"
  obtain tc where step: "onChunk c (tp, ?Sp) = (tc, ?Sc)"
    using onChunk_scanned(1)[OF assms(6) tp(1), of ?Sp] scan(3)
    by (cases "onChunk c (tp, ?Sp)") simp
  from onChunk_scanned(2,3)[OF assms(6) tp(1), of ?Sp] step scan(1)
  have tc: "commandProcessed tc" "accumulatedText tc = trim (before @ rest)" by simp_all
  have hc: "chatHistory (state ?Sc) = ?h @ [?mc]" and rc: "m_role ?mc = R_model"
    and xc: "m_text ?mc = accumulatedText tc"
    by (simp_all add: modelMessage_def tc)
  let ?m4 = "?mc\<lparr>m_text := accumulatedText tc @ concat (fragments post)\<rparr>"
  let ?S4 = "?Sc\<lparr>state := (state ?Sc)\<lparr>chatHistory := ?h @ [?m4]\<rparr>\<rparr>"
  have "snd (foldl (\<lambda>tS chunk. onChunk chunk tS) (turnStart, streaming message S) (pre @ c # post)) =
      snd (foldl (\<lambda>tS chunk. onChunk chunk tS) (tc, ?Sc) post)"
    by (simp only: foldl_append foldl_Cons pre step)
  also have "\<dots> = ?S4" by (rule loop_processed[OF tc(1) hc rc xc])
  finally have loop: "snd (foldl (\<lambda>tS chunk. onChunk chunk tS) (turnStart, streaming message S)
      (pre @ c # post)) = ?S4" .
  have h4: "chatHistory (state ?S4) = ?h @ [?m4]" and r4: "m_role ?m4 = R_model"
    by (simp_all add: modelMessage_def)
  from sendTextMessage_after_loop[OF assms(1-3) loop h4 r4, of ending]
  show "calls (sendTextMessage message (Stream (pre @ c # post) ending) S) =
           calls S @ [SendMessageStream message, TriggerImageEditing prompt]"
    and "chatHistory (state (sendTextMessage message (Stream (pre @ c # post) ending) S)) =
           chatHistory (state S) @
           [userMessage message,
            modelMessage\<lparr>m_text := trim (before @ rest) @ concat (fragments post) @
              (case ending of
                 None \<Rightarrow> []
               | Some err \<Rightarrow> js ''\<newline>\<newline>**Desculpe, ocorreu um erro:** '' @
                   (case err of Failure_Error text \<Rightarrow> text | Failure_value v \<Rightarrow> js ''Erro desconhecido''))\<rparr>]"
    by (simp_all add: streaming_calls tc)
  show "chatHistory (state (triggerImageEditing prompt
            (snd (foldl (\<lambda>tS chunk. onChunk chunk tS) (turnStart, streaming message S) pre)))) =
           chatHistory (state S) @
           [userMessage message, modelMessage\<lparr>m_text := concat (fragments pre) @ noRecentImage\<rparr>]"
    unfolding pre snd_conv triggerImageEditing_no_image[OF hp rp gp] by simp
qed

lemma sendTextMessage_generate:
  assumes "textChatSession S = Some chat" and "\<not> isChatting (state S)" and "trim message \<noteq> []"
    and "\<forall>n\<le>length (fragments pre). noDirective (concat (take n (fragments pre)))"
    and "fragmentOf c = Some f"
    and "regexMatch generateRegex_at (concat (fragments pre) @ f) = Some (before, (digits, prompt), rest)"
  shows "calls (sendTextMessage message (Stream (pre @ c # post) ending) S) =
           calls S @ [SendMessageStream message, TriggerImageGeneration prompt (parseInt digits),
                      GenerateImages prompt (parseInt digits)]"
    and "chatHistory (state (sendTextMessage message (Stream (pre @ c # post) ending) S)) =
           chatHistory (state S) @
           [userMessage message,
            modelMessage\<lparr>m_isLoadingImages := Some True, m_imageCount := Some (parseInt digits),
              m_text := trim (before @ rest) @ concat (fragments post) @
              (case ending of
                 None \<Rightarrow> []
               | Some err \<Rightarrow> js ''\<newline>\<newline>**Desculpe, ocorreu um erro:** '' @
                   (case err of Failure_Error text \<Rightarrow> text | Failure_value v \<Rightarrow> js ''Erro desconhecido''))\<rparr>]"
proof -
  let ?h = "chatHistory (state S) @ [userMessage message]"
  let ?mp = "modelMessage\<lparr>m_text := concat (fragments pre)\<rparr>"
  let ?Sp = "(streaming message S)\<lparr>state := (state (streaming message S))\<lparr>chatHistory := ?h @ [?mp]\<rparr>\<rparr>"
  obtain tp where pre: "foldl (\<lambda>tS chunk. onChunk chunk tS) (turnStart, streaming message S) pre = (tp, ?Sp)"
    using loop_start_plain(1)[OF assms(4), of message S]
    by (cases "foldl (\<lambda>tS chunk. onChunk chunk tS) (turnStart, streaming message S) pre") simp
  from loop_start_plain(2,3)[OF assms(4), of message S] pre
  have tp: "\<not> commandProcessed tp" "accumulatedText tp = concat (fragments pre)" by simp_all
  let ?t1 = "tp\<lparr>accumulatedText := accumulatedText tp @ f\<rparr>"
  have hp: "chatHistory (state ?Sp) = ?h @ [?mp]" and rp: "m_role ?mp = R_model"
    by (simp_all add: modelMessage_def)
  have m1: "regexMatch generateRegex_at (accumulatedText ?t1) = Some (before, (digits, prompt), rest)"
    using assms(6) by (simp add: tp)
  note scan = scan_generate[OF hp rp m1]
  let ?mc = "?mp\<lparr>m_isLoadingImages := Some True, m_imageCount := Some (parseInt digits),
                 m_text := trim (before @ rest)\<rparr>"
  let ?Sc = "?Sp\<lparr>state := (state ?Sp)\<lparr>chatHistory := ?h @ [?mc]\<rparr>,
                calls := calls ?Sp @ [TriggerImageGeneration prompt (parseInt digits),
                                      GenerateImages prompt (parseInt digits)]\<rparr>"
  obtain tc where step: "onChunk c (tp, ?Sp) = (tc, ?Sc)"
    using onChunk_scanned(1)[OF assms(5) tp(1), of ?Sp] scan(2)
    by (cases "onChunk c (tp, ?Sp)") simp
  from onChunk_scanned(2,3)[OF assms(5) tp(1), of ?Sp] step scan(1)
  have tc: "commandProcessed tc" "accumulatedText tc = trim (before @ rest)" by simp_all
  have hc: "chatHistory (state ?Sc) = ?h @ [?mc]" and rc: "m_role ?mc = R_model"
    and xc: "m_text ?mc = accumulatedText tc"
    by (simp_all add: modelMessage_def tc)
  let ?m4 = "?mc\<lparr>m_text := accumulatedText tc @ concat (fragments post)\<rparr>"
  let ?S4 = "?Sc\<lparr>state := (state ?Sc)\<lparr>chatHistory := ?h @ [?m4]\<rparr>\<rparr>"
  have "snd (foldl (\<lambda>tS chunk. onChunk chunk tS) (turnStart, streaming message S) (pre @ c # post)) =
      snd (foldl (\<lambda>tS chunk. onChunk chunk tS) (tc, ?Sc) post)"
    by (simp only: foldl_append foldl_Cons pre step)
  also have "\<dots> = ?S4" by (rule loop_processed[OF tc(1) hc rc xc])
  finally have loop: "snd (foldl (\<lambda>tS chunk. onChunk chunk tS) (turnStart, streaming message S)
      (pre @ c # post)) = ?S4" .
  have h4: "chatHistory (state ?S4) = ?h @ [?m4]" and r4: "m_role ?m4 = R_model"
    by (simp_all add: modelMessage_def)
  from sendTextMessage_after_loop[OF assms(1-3) loop h4 r4, of ending]
  show "calls (sendTextMessage message (Stream (pre @ c # post) ending) S) =
           calls S @ [SendMessageStream message, TriggerImageGeneration prompt (parseInt digits),
                      GenerateImages prompt (parseInt digits)]"
    and "chatHistory (state (sendTextMessage message (Stream (pre @ c # post) ending) S)) =
           chatHistory (state S) @
           [userMessage message,
            modelMessage\<lparr>m_isLoadingImages := Some True, m_imageCount := Some (parseInt digits),
              m_text := trim (before @ rest) @ concat (fragments post) @
              (case ending of
                 None \<Rightarrow> []
               | Some err \<Rightarrow> js ''\<newline>\<newline>**Desculpe, ocorreu um erro:** '' @
                   (case err of Failure_Error text \<Rightarrow> text | Failure_value v \<Rightarrow> js ''Erro desconhecido''))\<rparr>]"
    by (simp_all add: streaming_calls tc)
qed


section \<open>A stream without a directive\<close>

text \<open>
  Claim C8, as amended. Let the buffer of a turn never hold a directive of the grammars the
  interpreter accepts: after no fragment does the text received so far contain
  \<^verbatim>\<open>[generate_images(N):\<close>, white space or none, \<^verbatim>\<open>'prompt']\<close> with \<open>N\<close> one digit or more (zero
  included) and a prompt of one character or more without a quote, nor \<^verbatim>\<open>[edit_image:\<close>, white
  space or none, \<^verbatim>\<open>'prompt']\<close>. Then the turn calls the transport once and makes no other call,
  so no image job is started, and the assistant's message is the fragments in order, bracket
  text included, followed by the error text when the stream fails.
\<close>

theorem C8_no_directive:
  assumes "textChatSession S \<noteq> None" and "\<not> isChatting (state S)" and "trim message \<noteq> []"
    and "\<forall>n\<le>length (fragments chunks). \<not> spec_directive (concat (take n (fragments chunks)))"
  shows "calls (sendTextMessage message (Stream chunks ending) S) = calls S @ [SendMessageStream message] \<and>
         filter isImageJob (calls (sendTextMessage message (Stream chunks ending) S)) =
           filter isImageJob (calls S) \<and>
         chatHistory (state (sendTextMessage message (Stream chunks ending) S)) =
           chatHistory (state S) @
           [userMessage message,
            modelMessage\<lparr>m_text := concat (fragments chunks) @
              (case ending of
                 None \<Rightarrow> []
               | Some err \<Rightarrow> js ''\<newline>\<newline>**Desculpe, ocorreu um erro:** '' @
                   (case err of Failure_Error text \<Rightarrow> text | Failure_value v \<Rightarrow> js ''Erro desconhecido''))\<rparr>]"
proof -
  from assms(1) obtain chat where chat: "textChatSession S = Some chat" by auto
  from assms(4) have none: "\<forall>n\<le>length (fragments chunks). noDirective (concat (take n (fragments chunks)))"
    by (simp add: noDirective_iff)
  note turn = sendTextMessage_plain[OF chat assms(2,3) none, of ending]
  have "filter isImageJob (calls (sendTextMessage message (Stream chunks ending) S)) =
      filter isImageJob (calls S)"
    by (simp add: turn(1))
  with turn show ?thesis by simp
qed

text \<open>The theorem at the specification's example of a malformed directive, whose count is
  not a number, delivered in two chunks: the message shows the bracket text.\<close>

theorem C8_no_directive_witness:
  "calls (sendTextMessage (js ''hi'') (Stream malformed None) idleService) =
     calls idleService @ [SendMessageStream (js ''hi'')] \<and>
   chatHistory (state (sendTextMessage (js ''hi'') (Stream malformed None) idleService)) =
     [userMessage (js ''hi''),
      modelMessage\<lparr>m_text := js (''Veja: [generate_images(x): '' @ [CHR 0x27] @ ''cats'' @ [CHR 0x27] @ '']'')\<rparr>]"
proof -
  have frs: "fragments malformed =
      [js ''Veja: [generate_images(x)'', js ('': '' @ [CHR 0x27] @ ''cats'' @ [CHR 0x27] @ '']'')]"
    by (simp add: fragments_def malformed_def textChunk_def js_def)
  have none: "noDirective []" "noDirective (js ''Veja: [generate_images(x)'')"
    "noDirective (js ''Veja: [generate_images(x)'' @ js ('': '' @ [CHR 0x27] @ ''cats'' @ [CHR 0x27] @ '']''))"
    by (simp_all add: noDirective_def regex_eval)
  have never: "\<forall>n\<le>length (fragments malformed). \<not> spec_directive (concat (take n (fragments malformed)))"
  proof (intro allI impI)
    fix n assume "n \<le> length (fragments malformed)"
    then have "n = 0 \<or> n = 1 \<or> n = 2" by (auto simp: frs)
    then have "noDirective (concat (take n (fragments malformed)))"
      using none by (auto simp: frs)
    then show "\<not> spec_directive (concat (take n (fragments malformed)))"
      by (simp add: noDirective_iff)
  qed
  have guard: "textChatSession idleService \<noteq> None" "\<not> isChatting (state idleService)"
    by (simp_all add: idleService_guard idleService_fields)
  from C8_no_directive [OF guard trim_hi never, of None]
  show ?thesis by (simp add: frs idleService_fields js_def)
qed

text \<open>
  The claim as the specification words it fails on directives that its grammar leaves out and
  the interpreter accepts. \<^verbatim>\<open>[generate_images(0): 'cats']\<close> has a count that is not positive and
  \<^verbatim>\<open>[generate_images(2):'cats']\<close> no space after the colon, so neither buffer holds a well-formed
  directive; each starts a generation job, of zero images and of two, and the bracket text is
  removed from the message, which is left empty.
\<close>

theorem C8_counterexample:
  "\<not> spec_wellFormedDirective zeroCount \<and>
   calls (sendTextMessage (js ''hi'') (Stream [textChunk zeroCount] None) idleService) =
     calls idleService @
     [SendMessageStream (js ''hi''), TriggerImageGeneration (js ''cats'') 0, GenerateImages (js ''cats'') 0] \<and>
   chatHistory (state (sendTextMessage (js ''hi'') (Stream [textChunk zeroCount] None) idleService)) =
     [userMessage (js ''hi''),
      modelMessage\<lparr>m_isLoadingImages := Some True, m_imageCount := Some 0, m_text := []\<rparr>] \<and>
   \<not> spec_wellFormedDirective noSpace \<and>
   calls (sendTextMessage (js ''hi'') (Stream [textChunk noSpace] None) idleService) =
     calls idleService @
     [SendMessageStream (js ''hi''), TriggerImageGeneration (js ''cats'') 2, GenerateImages (js ''cats'') 2] \<and>
   chatHistory (state (sendTextMessage (js ''hi'') (Stream [textChunk noSpace] None) idleService)) =
     [userMessage (js ''hi''),
      modelMessage\<lparr>m_isLoadingImages := Some True, m_imageCount := Some 2, m_text := []\<rparr>]"
proof -
  have guard: "\<not> isChatting (state idleService)"
    by (simp add: idleService_fields)
  have pre: "\<forall>n\<le>length (fragments []). noDirective (concat (take n (fragments [])))"
    by (simp add: fragments_Nil noDirective_def regex_eval)
  have zero: "fragmentOf (textChunk zeroCount) = Some zeroCount"
    "regexMatch generateRegex_at (concat (fragments []) @ zeroCount) = Some ([], (js ''0'', js ''cats''), [])"
    by (simp_all add: fragmentOf_def textChunk_def fragments_Nil zeroCount_def regex_eval)
  have two: "fragmentOf (textChunk noSpace) = Some noSpace"
    "regexMatch generateRegex_at (concat (fragments []) @ noSpace) = Some ([], (js ''2'', js ''cats''), [])"
    by (simp_all add: fragmentOf_def textChunk_def fragments_Nil noSpace_def regex_eval)
  have counts: "parseInt (js ''0'') = 0" "parseInt (js ''2'') = 2" "trim [] = []"
    by (simp_all add: parseInt_def js_def trim_def)
  note a = sendTextMessage_generate[OF idleService_guard guard trim_hi pre zero, of "[]" None]
  note b = sendTextMessage_generate[OF idleService_guard guard trim_hi pre two, of "[]" None]
  from a b show ?thesis
    by (simp add: zeroCount_not_wellFormed noSpace_not_wellFormed counts fragments_Nil idleService_fields)
qed


section \<open>An edit directive with no recent image\<close>

text \<open>
  Claim C7. The error text does not stay. Let a turn's chunk \<open>c\<close> complete the first directive
  of its stream, an edit directive, while no generated image is held. The job
  \<open>_triggerImageEditing\<close> appends its error text to the assistant's message, which then shows
  the fragments received before \<open>c\<close> followed by that text, and calls no image model. The
  statement of the loop that follows the dispatch then assigns the buffer without the
  directive to the message: when \<open>sendTextMessage\<close> returns, the message holds the text around
  the directive and the fragments that came after, without the error text, and the calls of
  the turn are the transport's and the job's.
\<close>

theorem C7_edit_error_lost:
  assumes "textChatSession S \<noteq> None" and "\<not> isChatting (state S)" and "trim message \<noteq> []"
    and "lastGeneratedImages (state S) = []"
    and "\<forall>n\<le>length (fragments pre). noDirective (concat (take n (fragments pre)))"
    and "fragmentOf c = Some f"
    and "regexMatch generateRegex_at (concat (fragments pre) @ f) = None"
    and "regexMatch editRegex_at (concat (fragments pre) @ f) = Some (before, prompt, rest)"
  shows "chatHistory (state (triggerImageEditing prompt
            (snd (foldl (\<lambda>tS chunk. onChunk chunk tS) (turnStart, streaming message S) pre)))) =
           chatHistory (state S) @
           [userMessage message,
            modelMessage\<lparr>m_text := concat (fragments pre) @
              js (''\<newline>\<newline>**Erro:** N'' @ [CHR 0xE3] @ ''o h'' @ [CHR 0xE1] @
                  '' nenhuma imagem recente para editar.'')\<rparr>] \<and>
         calls (sendTextMessage message (Stream (pre @ c # post) ending) S) =
           calls S @ [SendMessageStream message, TriggerImageEditing prompt] \<and>
         chatHistory (state (sendTextMessage message (Stream (pre @ c # post) ending) S)) =
           chatHistory (state S) @
           [userMessage message,
            modelMessage\<lparr>m_text := trim (before @ rest) @ concat (fragments post) @
              (case ending of
                 None \<Rightarrow> []
               | Some err \<Rightarrow> js ''\<newline>\<newline>**Desculpe, ocorreu um erro:** '' @
                   (case err of Failure_Error text \<Rightarrow> text | Failure_value v \<Rightarrow> js ''Erro desconhecido''))\<rparr>]"
proof -
  from assms(1) obtain chat where chat: "textChatSession S = Some chat" by auto
  note turn = sendTextMessage_edit_no_image[OF chat assms(2-8)]
  from turn(3) have "chatHistory (state (triggerImageEditing prompt
            (snd (foldl (\<lambda>tS chunk. onChunk chunk tS) (turnStart, streaming message S) pre)))) =
           chatHistory (state S) @
           [userMessage message,
            modelMessage\<lparr>m_text := concat (fragments pre) @
              js (''\<newline>\<newline>**Erro:** N'' @ [CHR 0xE3] @ ''o h'' @ [CHR 0xE1] @
                  '' nenhuma imagem recente para editar.'')\<rparr>]"
    by (simp only: noRecentImage_def)
  with turn(1,2) show ?thesis by simp
qed

text \<open>The theorem on a service that holds no image, when the model answers
  \<^verbatim>\<open>Ok [edit_image: 'add a hat']\<close> in one chunk: the job leaves its error text in the message,
  the edit is the only call after the transport's, and the message shows \<^verbatim>\<open>Ok\<close> in the end.\<close>

theorem C7_edit_error_lost_witness:
  "chatHistory (state (triggerImageEditing (js ''add a hat'') (streaming (js ''hi'') idleService))) =
     [userMessage (js ''hi''),
      modelMessage\<lparr>m_text := js (''\<newline>\<newline>**Erro:** N'' @ [CHR 0xE3] @ ''o h'' @ [CHR 0xE1] @
                                  '' nenhuma imagem recente para editar.'')\<rparr>] \<and>
   calls (sendTextMessage (js ''hi'') (Stream [textChunk editHat] None) idleService) =
     calls idleService @ [SendMessageStream (js ''hi''), TriggerImageEditing (js ''add a hat'')] \<and>
   chatHistory (state (sendTextMessage (js ''hi'') (Stream [textChunk editHat] None) idleService)) =
     [userMessage (js ''hi''), modelMessage\<lparr>m_text := js ''Ok''\<rparr>]"
proof -
  have guard: "textChatSession idleService \<noteq> None" "\<not> isChatting (state idleService)"
    and images: "lastGeneratedImages (state idleService) = []"
    by (simp_all add: idleService_guard idleService_fields)
  have pre: "\<forall>n\<le>length (fragments []). noDirective (concat (take n (fragments [])))"
    by (simp add: fragments_Nil noDirective_def regex_eval)
  have hat: "fragmentOf (textChunk editHat) = Some editHat"
    "regexMatch generateRegex_at (concat (fragments []) @ editHat) = None"
    "regexMatch editRegex_at (concat (fragments []) @ editHat) = Some (js ''Ok '', js ''add a hat'', [])"
    by (simp_all add: fragmentOf_def textChunk_def fragments_Nil editHat_def regex_eval)
  have shown: "trim (js ''Ok '') = js ''Ok''"
    by (simp add: trim_def js_def isWhiteSpace_def)
  from C7_edit_error_lost [OF guard trim_hi images pre hat, of "[]" None]
  show ?thesis
    by (simp add: shown fragments_Nil idleService_fields)
qed


section \<open>A message that is not sent\<close>

text \<open>
  Claim C10. \<open>sendTextMessage\<close> called when no text chat exists, or while a text turn is in
  flight, or with a message that is empty after trimming, returns at once: the service,
  its state and the list of calls it has made are what they were.
\<close>

theorem C10_sendTextMessage_noop:
  "textChatSession S = None \<or> isChatting (state S) \<or> trim message = [] \<Longrightarrow>
   sendTextMessage message answer S = S"
  by (auto simp: sendTextMessage_def)

theorem C10_sendTextMessage_noop_witness:
  "sendTextMessage (js ''  '') (Stream [] None) idleService = idleService"
  using C10_sendTextMessage_noop [of idleService "js ''  ''" "Stream [] None"]
  by (simp add: trim_empty_iff js_def isWhiteSpace_def)


end
